(* ===== verification/Prelude.thy ===== *)
theory Prelude
  imports Main "HOL-Library.Sublist" "HOL-Library.Multiset"
    "HOL-Library.Code_Target_Numeral"
begin

text \<open>
  Shared vocabulary of the development: the fact collections the component proofs draw on, and
  generic lemmas on lists, association lists and sums that more than one component uses.
\<close>

named_theorems footprint "which paths an operation may change"
named_theorems quiet "which operations leave the files alone"
named_theorems outcome "what the value of a successful operation satisfies"

section \<open>Lists\<close>

lemma list_all_append_iff: "list_all P (xs @ ys) \<longleftrightarrow> list_all P xs \<and> list_all P ys"
  by simp

lemma prefix_neq_append_Cons: "x \<noteq> y \<Longrightarrow> \<not> prefix (d @ x # r) (d @ y # s)"
  by simp

lemma prefix_snoc_same_length: "prefix (d @ [x]) (d @ y # s) \<longleftrightarrow> x = y"
  by auto

lemma prefix_drop_eq: "prefix xs ys \<Longrightarrow> xs @ drop (length xs) ys = ys"
  by (auto simp: prefix_def)

section \<open>Association lists\<close>

definition keep_keys :: "('a \<Rightarrow> bool) \<Rightarrow> ('a \<times> 'b) list \<Rightarrow> ('a \<times> 'b) list" where
  "keep_keys P f = filter (\<lambda>e. P (fst e)) f"

lemma map_of_keep_keys [simp]: "map_of (keep_keys P f) q = (if P q then map_of f q else None)"
  by (induction f) (auto simp: keep_keys_def)

lemma set_keep_keys [simp]: "set (keep_keys P f) = {e \<in> set f. P (fst e)}"
  by (auto simp: keep_keys_def)

end
