(* ===== verification/File_Tree.thy ===== *)
theory File_Tree
  imports Go_Text "HOL-Library.Word"
begin

text \<open>
  The tree of files the program works on. A path is the list of components of a cleaned absolute
  path; the tree is an association list from paths to nodes, so every operation on it is
  executable. The lemmas describe each operation through \<open>lookup\<close>, the only observation
  the other theories make.
\<close>

unbundle bit_operations_syntax

section \<open>Paths\<close>

type_synonym path = "string list"

text \<open>The path as Go prints it, and \<open>filepath.Join\<close> of a directory with a string that may
  hold separators and dots: \<open>filepath.Clean\<close> on components.\<close>

definition path_str :: "path \<Rightarrow> string" where
  "path_str p = (if p = [] then ''/'' else concat (map (\<lambda>c. CHR ''/'' # c) p))"

definition path_step :: "string \<Rightarrow> path \<Rightarrow> path" where
  "path_step c p = (if c = [] \<or> c = ''.'' then p else if c = ''..'' then butlast p else p @ [c])"

definition join_path :: "path \<Rightarrow> string \<Rightarrow> path" where
  "join_path p s = fold path_step (split_on (CHR ''/'') s) p"

text \<open>The path a program working in \<open>cwd\<close> means by a string.\<close>

definition resolve :: "path \<Rightarrow> string \<Rightarrow> path" where
  "resolve cwd s = (if has_prefix s ''/'' then join_path [] s else join_path cwd s)"

text \<open>\<open>filepath.Base\<close> and \<open>filepath.Ext\<close> of a cleaned path.\<close>

definition path_base :: "path \<Rightarrow> string" where
  "path_base p = (if p = [] then ''/'' else last p)"

definition path_ext :: "path \<Rightarrow> string" where
  "path_ext p = (if p = [] then [] else file_ext (last p))"

text \<open>A string that names one entry of a directory: joining it appends exactly one component.\<close>

definition plain_segment :: "string \<Rightarrow> bool" where
  "plain_segment s \<longleftrightarrow> s \<noteq> [] \<and> s \<noteq> ''.'' \<and> s \<noteq> ''..'' \<and> CHR ''/'' \<notin> set s"

lemma join_path_plain [simp]: "plain_segment s \<Longrightarrow> join_path p s = p @ [s]"
  by (simp add: join_path_def plain_segment_def split_on_none path_step_def)

definition parents :: "path \<Rightarrow> path list" where
  "parents p = map (\<lambda>k. take k p) [0..<length p]"

lemma set_parents: "set (parents p) = {q. strict_prefix q p}"
proof
  show "set (parents p) \<subseteq> {q. strict_prefix q p}"
    by (auto simp: parents_def strict_prefix_def take_is_prefix)
  show "{q. strict_prefix q p} \<subseteq> set (parents p)"
  proof
    fix q assume "q \<in> {q. strict_prefix q p}"
    then obtain r where "p = q @ r" and "r \<noteq> []"
      by (auto simp: strict_prefix_def prefix_def)
    then show "q \<in> set (parents p)"
      by (auto simp: parents_def intro!: image_eqI [where x = "length q"])
  qed
qed

section \<open>Nodes\<close>

text \<open>
  \<open>mode\<close> holds the permission bits of an \<open>os.FileMode\<close>. A node is a regular file, a
  directory, or anything else \<open>os.Lstat\<close> tells apart (a symbolic link, a device, a socket);
  reading through the last gives the bytes in it, or fails when there are none.
\<close>

type_synonym mode = "32 word"

abbreviation mode_0600 :: mode where "mode_0600 \<equiv> 384"
abbreviation mode_0644 :: mode where "mode_0644 \<equiv> 420"
abbreviation mode_0700 :: mode where "mode_0700 \<equiv> 448"
abbreviation mode_0755 :: mode where "mode_0755 \<equiv> 493"
abbreviation mode_0077 :: mode where "mode_0077 \<equiv> 63"
abbreviation mode_0777 :: mode where "mode_0777 \<equiv> 511"

datatype node = Regular mode string | Directory mode | Irregular mode "string option"

fun node_mode :: "node \<Rightarrow> mode" where
  "node_mode (Regular m d) = m"
| "node_mode (Directory m) = m"
| "node_mode (Irregular m d) = m"

fun with_mode :: "mode \<Rightarrow> node \<Rightarrow> node" where
  "with_mode m (Regular m' d) = Regular m d"
| "with_mode m (Directory m') = Directory m"
| "with_mode m (Irregular m' d) = Irregular m d"

text \<open>The bytes a read of the node gives.\<close>

fun node_data :: "node \<Rightarrow> string option" where
  "node_data (Regular m d) = Some d"
| "node_data (Directory m) = None"
| "node_data (Irregular m d) = d"

fun is_regular :: "node \<Rightarrow> bool" where
  "is_regular (Regular m d) = True"
| "is_regular n = False"

fun is_directory :: "node \<Rightarrow> bool" where
  "is_directory (Directory m) = True"
| "is_directory n = False"

lemma node_mode_with_mode [simp]: "node_mode (with_mode m n) = m"
  by (cases n) auto

lemma with_mode_kind [simp]:
  "is_regular (with_mode m n) = is_regular n" "is_directory (with_mode m n) = is_directory n"
  by (cases n; simp)+

section \<open>Trees\<close>

type_synonym fsys = "(path \<times> node) list"

definition lookup :: "fsys \<Rightarrow> path \<Rightarrow> node option" where
  "lookup f p = (if p = [] then Some (Directory mode_0755) else map_of f p)"

definition fs_put :: "path \<Rightarrow> node \<Rightarrow> fsys \<Rightarrow> fsys" where
  "fs_put p n f = (p, n) # keep_keys (\<lambda>q. q \<noteq> p) f"

definition fs_move :: "path \<Rightarrow> path \<Rightarrow> fsys \<Rightarrow> fsys" where
  "fs_move src dst f =
     map (\<lambda>e. if prefix src (fst e) then (dst @ drop (length src) (fst e), snd e) else e)
       (keep_keys (\<lambda>p. \<not> prefix dst p) f)"

text \<open>The entries of a directory, sorted by name as \<open>os.ReadDir\<close> returns them.\<close>

definition children :: "path \<Rightarrow> fsys \<Rightarrow> (string \<times> node) list" where
  "children p f =
     sort_key fst
       (map (\<lambda>e. (last (fst e), snd e)) (filter (\<lambda>e. fst e \<noteq> [] \<and> butlast (fst e) = p) f))"

lemma lookup_root [simp]: "lookup f [] = Some (Directory mode_0755)"
  by (simp add: lookup_def)

lemma lookup_put:
  "lookup (fs_put p n f) q = (if q = p \<and> p \<noteq> [] then Some n else lookup f q)"
  by (simp add: lookup_def fs_put_def)

lemma lookup_keep:
  "lookup (keep_keys P f) q = (if q = [] \<or> P q then lookup f q else None)"
  by (simp add: lookup_def)

lemma map_of_relocate:
  assumes "\<forall>e \<in> set f. \<not> prefix dst (fst e)" and "\<not> prefix src dst"
  shows "map_of (map (\<lambda>e. if prefix src (fst e) then (dst @ drop (length src) (fst e), snd e)
           else e) f) q =
    (if prefix dst q then map_of f (src @ drop (length dst) q)
     else if prefix src q then None else map_of f q)"
  using assms
proof (induction f)
  case (Cons e f)
  obtain p n where e: "e = (p, n)" by (cases e)
  have p: "\<not> prefix dst p" using Cons.prems e by simp
  show ?case
  proof (cases "prefix src p")
    case True
    then obtain r where r: "p = src @ r" by (auto simp: prefix_def)
    have "q = dst @ r \<longleftrightarrow> prefix dst q \<and> src @ drop (length dst) q = p"
      by (auto simp: r prefix_def)
    with Cons e r p show ?thesis by (auto simp: prefix_def)
  next
    case False
    moreover have "p \<noteq> src @ s" for s using False by auto
    ultimately show ?thesis using Cons e p by auto
  qed
qed simp

lemma lookup_move:
  assumes "\<not> prefix src dst" and "dst \<noteq> []" and "src \<noteq> []"
    and "\<not> prefix dst src"
  shows "lookup (fs_move src dst f) q =
    (if prefix dst q then lookup f (src @ drop (length dst) q)
     else if prefix src q then None else lookup f q)"
proof -
  have none: "\<not> prefix dst (src @ r)" if "\<not> prefix src dst" for r
    using that assms(4) by (metis prefix_append prefix_same_cases prefixI)
  have "map_of (fs_move src dst f) q =
    (if prefix dst q then map_of (keep_keys (\<lambda>p. \<not> prefix dst p) f) (src @ drop (length dst) q)
     else if prefix src q then None else map_of (keep_keys (\<lambda>p. \<not> prefix dst p) f) q)"
    unfolding fs_move_def
    by (rule map_of_relocate) (auto simp: assms)
  moreover have "prefix src q \<Longrightarrow> src \<noteq> [] \<Longrightarrow> q \<noteq> []" by auto
  ultimately show ?thesis
    using assms none by (auto simp: lookup_def)
qed

lemma set_children:
  "(c, n) \<in> set (children p f) \<longleftrightarrow> (p @ [c], n) \<in> set f"
proof -
  have "(c, n) \<in> set (children p f) \<longleftrightarrow>
    (\<exists>e \<in> set f. fst e \<noteq> [] \<and> butlast (fst e) = p \<and> last (fst e) = c \<and> snd e = n)"
    by (force simp: children_def image_iff)
  also have "\<dots> \<longleftrightarrow> (p @ [c], n) \<in> set f"
    by (force simp: snoc_eq_iff_butlast)
  finally show ?thesis .
qed

lemma sorted_children: "sorted (map fst (children p f))"
  by (simp add: children_def)

section \<open>Walking to a path\<close>

datatype errno = ENOENT | EEXIST | ENOTDIR | EISDIR | EINVAL | ENOTEMPTY | EIO

definition dir_at :: "fsys \<Rightarrow> path \<Rightarrow> bool" where
  "dir_at f q = (case lookup f q of Some n \<Rightarrow> is_directory n | None \<Rightarrow> False)"

text \<open>
  What stops the walk to \<open>p\<close>: its first proper ancestor that is no directory. A symbolic link
  to a directory counts as no directory.
\<close>

definition blocked :: "fsys \<Rightarrow> path \<Rightarrow> errno option" where
  "blocked f p =
     (case find (\<lambda>q. \<not> dir_at f q) (parents p) of
        None \<Rightarrow> None
      | Some q \<Rightarrow> Some (if lookup f q = None then ENOENT else ENOTDIR))"

definition stat :: "fsys \<Rightarrow> path \<Rightarrow> errno + node" where
  "stat f p =
     (case blocked f p of
        Some e \<Rightarrow> Inl e
      | None \<Rightarrow> (case lookup f p of None \<Rightarrow> Inl ENOENT | Some n \<Rightarrow> Inr n))"

lemma dir_at_iff: "dir_at f q \<longleftrightarrow> (\<exists>m. lookup f q = Some (Directory m))"
proof -
  have "is_directory n \<longleftrightarrow> (\<exists>m. n = Directory m)" for n by (cases n) auto
  then show ?thesis by (auto simp: dir_at_def split: option.splits)
qed

lemma stat_Inr: "stat f p = Inr n \<longleftrightarrow> blocked f p = None \<and> lookup f p = Some n"
  by (auto simp: stat_def split: option.splits)

lemma stat_absent: "stat f p = Inl ENOENT \<Longrightarrow> blocked f p = None \<Longrightarrow> lookup f p = None"
  by (auto simp: stat_def split: option.splits)

lemma blocked_None: "blocked f p = None \<longleftrightarrow> (\<forall>q. strict_prefix q p \<longrightarrow> dir_at f q)"
proof -
  have "blocked f p = None \<longleftrightarrow> (\<forall>q \<in> set (parents p). dir_at f q)"
    using find_None_iff [of "\<lambda>q. \<not> dir_at f q" "parents p"]
    by (auto simp: blocked_def split: option.splits)
  then show ?thesis by (simp add: set_parents)
qed

end
