(* ===== verification/Io_Monad.thy ===== *)
theory Io_Monad
  imports File_Tree
begin

text \<open>
  Go's error values, the world a program runs in, and the sequencing of fallible operations on it.
  A Go function returning \<open>(T, error)\<close> is a function from the world to an error or a value
  and the world it leaves; \<open>if err != nil { return err }\<close> is \<open>bindE\<close>,
  \<open>fmt.Errorf("msg: %w", err)\<close> is \<open>wrapE\<close>, \<open>defer\<close> is \<open>deferE\<close>,
  a loop that returns at the first error is \<open>forE\<close>.
\<close>

section \<open>Errors\<close>

text \<open>
  \<open>Sentinel\<close> is a package-level \<open>errors.New\<close> value that \<open>errors.Is\<close>
  compares with, \<open>ErrText\<close> an error built where it is returned, \<open>PathErr\<close> and
  \<open>LinkErr\<close> the errors of package \<open>os\<close>, \<open>ExecErr\<close> one of
  \<open>os/exec\<close>, \<open>Wrap\<close> an \<open>fmt.Errorf\<close> with text around a \<open>%w\<close>.
\<close>

datatype err =
    Sentinel string
  | ErrText string
  | PathErr string path errno
  | LinkErr string path path errno
  | ExecErr string
  | Wrap string err string

fun errno_text :: "errno \<Rightarrow> string" where
  "errno_text ENOENT = ''no such file or directory''"
| "errno_text EEXIST = ''file exists''"
| "errno_text ENOTDIR = ''not a directory''"
| "errno_text EISDIR = ''is a directory''"
| "errno_text EINVAL = ''invalid argument''"
| "errno_text ENOTEMPTY = ''directory not empty''"
| "errno_text EIO = ''input/output error''"

text \<open>\<open>err.Error()\<close>, \<open>errors.Is(err, target)\<close> for a sentinel target, and
  \<open>errors.Is(err, os.ErrNotExist)\<close>.\<close>

fun err_text :: "err \<Rightarrow> string" where
  "err_text (Sentinel t) = t"
| "err_text (ErrText t) = t"
| "err_text (PathErr op p e) = op @ '' '' @ path_str p @ '': '' @ errno_text e"
| "err_text (LinkErr op p q e) =
     op @ '' '' @ path_str p @ '' '' @ path_str q @ '': '' @ errno_text e"
| "err_text (ExecErr t) = t"
| "err_text (Wrap a e b) = a @ err_text e @ b"

fun errors_is :: "err \<Rightarrow> err \<Rightarrow> bool" where
  "errors_is (Wrap a e b) t = errors_is e t"
| "errors_is e t = (e = t)"

fun is_not_exist :: "err \<Rightarrow> bool" where
  "is_not_exist (PathErr op p e) = (e = ENOENT)"
| "is_not_exist (LinkErr op p q e) = (e = ENOENT)"
| "is_not_exist (Wrap a e b) = is_not_exist e"
| "is_not_exist e = False"

section \<open>The world\<close>

text \<open>
  \<open>faults\<close> decides which of the coming system calls fail: an entry \<open>None\<close> lets the
  call through, \<open>Some n\<close> makes it fail with an I/O error, after \<open>n\<close> units of its work
  where the call is not atomic; past the end of the schedule every call is let through. A theorem
  over every world therefore covers a failure at every point. \<open>rand\<close> is the stream of random
  numbers temporary names are made of, \<open>umask\<close> the process's file mode creation mask.
\<close>

record world =
  files :: fsys
  faults :: "nat option list"
  rand :: "nat \<Rightarrow> nat"
  umask :: mode

type_synonym 'a io = "world \<Rightarrow> (err + 'a) \<times> world"

abbreviation at :: "world \<Rightarrow> path \<Rightarrow> node option" where
  "at w \<equiv> lookup (files w)"

definition returnE :: "'a \<Rightarrow> 'a io" where
  "returnE x w = (Inr x, w)"

definition throwE :: "err \<Rightarrow> 'a io" where
  "throwE e w = (Inl e, w)"

definition bindE :: "'a io \<Rightarrow> ('a \<Rightarrow> 'b io) \<Rightarrow> 'b io" where
  "bindE m f w = (case m w of (Inl e, w') \<Rightarrow> (Inl e, w') | (Inr x, w') \<Rightarrow> f x w')"

definition wrapE :: "string \<Rightarrow> 'a io \<Rightarrow> 'a io" where
  "wrapE msg m w =
     (case m w of (Inl e, w') \<Rightarrow> (Inl (Wrap (msg @ '': '') e []), w') | (Inr x, w') \<Rightarrow> (Inr x, w'))"

text \<open>The outcome as a value, for code that looks at the error itself.\<close>

definition tryE :: "'a io \<Rightarrow> (err + 'a) io" where
  "tryE m w = (case m w of (r, w') \<Rightarrow> (Inr r, w'))"

text \<open>\<open>m\<close> and then, whatever its outcome, \<open>c\<close>, whose own error is dropped.\<close>

definition deferE :: "'b io \<Rightarrow> 'a io \<Rightarrow> 'a io" where
  "deferE c m w = (case m w of (r, w') \<Rightarrow> (r, snd (c w')))"

text \<open>\<open>c\<close> after a failing \<open>m\<close> only, as in \<open>if err != nil { c(); return err }\<close>.\<close>

definition onErrorE :: "'b io \<Rightarrow> 'a io \<Rightarrow> 'a io" where
  "onErrorE c m w =
     (case m w of (Inl e, w') \<Rightarrow> (Inl e, snd (c w')) | (Inr x, w') \<Rightarrow> (Inr x, w'))"

definition checkE :: "bool \<Rightarrow> err \<Rightarrow> unit io" where
  "checkE b e = (if b then returnE () else throwE e)"

fun forE :: "'a list \<Rightarrow> ('a \<Rightarrow> unit io) \<Rightarrow> unit io" where
  "forE [] f = returnE ()"
| "forE (x # xs) f = bindE (f x) (\<lambda>_. forE xs f)"

text \<open>A loop that collects a value in each round.\<close>

fun mapE :: "('a \<Rightarrow> 'b io) \<Rightarrow> 'a list \<Rightarrow> 'b list io" where
  "mapE f [] = returnE []"
| "mapE f (x # xs) = bindE (f x) (\<lambda>y. bindE (mapE f xs) (\<lambda>ys. returnE (y # ys)))"

text \<open>A pure result, and a pure check whose nil error is \<open>None\<close>.\<close>

definition liftE :: "err + 'a \<Rightarrow> 'a io" where
  "liftE r = (case r of Inl e \<Rightarrow> throwE e | Inr x \<Rightarrow> returnE x)"

definition failE :: "err option \<Rightarrow> unit io" where
  "failE r = (case r of None \<Rightarrow> returnE () | Some e \<Rightarrow> throwE e)"

text \<open>\<open>range\<close> over a map literal visits its entries in an order drawn at random.\<close>

function permute :: "(nat \<Rightarrow> nat) \<Rightarrow> 'a list \<Rightarrow> 'a list" where
  "permute r xs =
     (if xs = [] then []
      else let i = r 0 mod length xs in
        xs ! i # permute (\<lambda>n. r (Suc n)) (take i xs @ drop (Suc i) xs))"
  by auto
termination
  by (relation "measure (\<lambda>(r, xs). length xs)") (auto simp: Suc_le_eq)

declare permute.simps [simp del]

definition range_map :: "'a list \<Rightarrow> 'a list io" where
  "range_map xs w =
     (Inr (permute (rand w) xs), w\<lparr>rand := (\<lambda>n. rand w (length xs + n))\<rparr>)"

text \<open>One entry of the fault schedule is consumed by each system call.\<close>

definition syscall :: "(nat \<Rightarrow> 'a io) \<Rightarrow> 'a io \<Rightarrow> 'a io" where
  "syscall bad good w =
     (case faults w of
        [] \<Rightarrow> good w
      | None # fs \<Rightarrow> good (w\<lparr>faults := fs\<rparr>)
      | Some n # fs \<Rightarrow> bad n (w\<lparr>faults := fs\<rparr>))"

lemmas io_defs = returnE_def throwE_def bindE_def wrapE_def tryE_def deferE_def onErrorE_def checkE_def

lemma bindE_Inr:
  "bindE m f w = (Inr y, w'') \<longleftrightarrow> (\<exists>x w'. m w = (Inr x, w') \<and> f x w' = (Inr y, w''))"
  by (auto simp: bindE_def split: prod.splits sum.splits)

lemma bindE_Inl:
  "bindE m f w = (Inl e, w'') \<longleftrightarrow>
     m w = (Inl e, w'') \<or> (\<exists>x w'. m w = (Inr x, w') \<and> f x w' = (Inl e, w''))"
  by (auto simp: bindE_def split: prod.splits sum.splits)

lemma wrapE_Inr [simp]: "wrapE msg m w = (Inr x, w') \<longleftrightarrow> m w = (Inr x, w')"
  by (auto simp: wrapE_def split: prod.splits sum.splits)

lemma wrapE_Inl:
  "wrapE msg m w = (Inl e, w') \<longleftrightarrow> (\<exists>e'. e = Wrap (msg @ '': '') e' [] \<and> m w = (Inl e', w'))"
  by (auto simp: wrapE_def split: prod.splits sum.splits)

lemma snd_wrapE [simp]: "snd (wrapE msg m w) = snd (m w)"
  by (auto simp: wrapE_def split: prod.splits sum.splits)

lemma returnE_eq [simp]: "returnE x w = (r, w') \<longleftrightarrow> r = Inr x \<and> w' = w"
  by (auto simp: returnE_def)

lemma throwE_eq [simp]: "throwE e w = (r, w') \<longleftrightarrow> r = Inl e \<and> w' = w"
  by (auto simp: throwE_def)

lemma tryE_eq: "tryE m w = (r, w') \<longleftrightarrow> (\<exists>s. m w = (s, w') \<and> r = Inr s)"
  by (auto simp: tryE_def split: prod.splits)

lemma snd_tryE [simp]: "snd (tryE m w) = snd (m w)"
  by (auto simp: tryE_def split: prod.splits)

lemma deferE_eq: "deferE c m w = (r, w'') \<longleftrightarrow> (\<exists>w'. m w = (r, w') \<and> w'' = snd (c w'))"
  by (auto simp: deferE_def split: prod.splits)

lemma onErrorE_Inr [simp]: "onErrorE c m w = (Inr x, w') \<longleftrightarrow> m w = (Inr x, w')"
  by (auto simp: onErrorE_def split: prod.splits sum.splits)

lemma onErrorE_Inl:
  "onErrorE c m w = (Inl e, w'') \<longleftrightarrow> (\<exists>w'. m w = (Inl e, w') \<and> w'' = snd (c w'))"
  by (auto simp: onErrorE_def split: prod.splits sum.splits)

lemma checkE_Inr [simp]: "checkE b e w = (Inr u, w') \<longleftrightarrow> b \<and> w' = w"
  by (auto simp: checkE_def)

lemma checkE_Inl [simp]: "checkE b e w = (Inl e', w') \<longleftrightarrow> \<not> b \<and> w' = w \<and> e' = e"
  by (auto simp: checkE_def)

lemma liftE_eq [simp]: "liftE r w = (r', w') \<longleftrightarrow> r = r' \<and> w' = w"
  by (cases r) (auto simp: liftE_def)

lemma failE_Inr [simp]: "failE r w = (Inr u, w') \<longleftrightarrow> r = None \<and> w' = w"
  by (cases r) (auto simp: failE_def)

lemma failE_Inl [simp]: "failE r w = (Inl e, w') \<longleftrightarrow> r = Some e \<and> w' = w"
  by (cases r) (auto simp: failE_def)

lemma mset_permute: "mset (permute r xs) = mset xs"
proof (induction r xs rule: permute.induct)
  case (1 r xs)
  show ?case
  proof (cases "xs = []")
    case False
    let ?i = "r 0 mod length xs"
    have "?i < length xs" using False by simp
    then have "mset xs = mset (take ?i xs @ xs ! ?i # drop (Suc ?i) xs)"
      by (simp add: id_take_nth_drop [symmetric])
    with 1 False show ?thesis by (subst permute.simps) (simp add: Let_def)
  qed (simp add: permute.simps)
qed

lemma range_map_Inr:
  assumes "range_map xs w = (r, w')"
  obtains ys where "r = Inr ys" and "mset ys = mset xs" and "files w' = files w"
  using assms mset_permute [where xs = xs and r = "rand w"] by (auto simp: range_map_def)

lemma forE_append: "forE (xs @ ys) f = bindE (forE xs f) (\<lambda>_. forE ys f)"
  by (induction xs) (auto simp: bindE_def returnE_def fun_eq_iff split: prod.splits sum.splits)

section \<open>Footprints\<close>

text \<open>
  \<open>changes A m\<close>: on every world, whether it fails or not, \<open>m\<close> leaves every path outside
  \<open>A\<close> as it was. \<open>gives P m\<close>: the value of \<open>m\<close>, when it has one, satisfies
  \<open>P\<close>. The rules follow the combinators; each system call adds its own to the collections
  \<open>footprint\<close> and \<open>outcome\<close>.
\<close>

definition changes :: "path set \<Rightarrow> 'a io \<Rightarrow> bool" where
  "changes A m \<longleftrightarrow> (\<forall>w p. p \<notin> A \<longrightarrow> at (snd (m w)) p = at w p)"

definition gives :: "('a \<Rightarrow> bool) \<Rightarrow> 'a io \<Rightarrow> bool" where
  "gives P m \<longleftrightarrow> (\<forall>w x w'. m w = (Inr x, w') \<longrightarrow> P x)"

lemma changesD: "changes A m \<Longrightarrow> m w = (r, w') \<Longrightarrow> p \<notin> A \<Longrightarrow> at w' p = at w p"
  unfolding changes_def by (metis snd_conv)

lemma changes_mono: "changes A m \<Longrightarrow> A \<subseteq> B \<Longrightarrow> changes B m"
  unfolding changes_def by blast

lemma givesD: "gives P m \<Longrightarrow> m w = (Inr x, w') \<Longrightarrow> P x"
  unfolding gives_def by blast

lemma gives_True [outcome]: "gives (\<lambda>_. True) m"
  by (simp add: gives_def)

lemma changes_returnE [footprint]: "changes A (returnE x)"
  by (simp add: changes_def returnE_def)

lemma changes_throwE [footprint]: "changes A (throwE e)"
  by (simp add: changes_def throwE_def)

lemma changes_liftE [footprint]: "changes A (liftE r)"
  by (cases r) (simp_all add: liftE_def changes_returnE changes_throwE)

lemma changes_failE [footprint]: "changes A (failE r)"
  by (cases r) (simp_all add: failE_def changes_returnE changes_throwE)

lemma changes_range_map [footprint]: "changes A (range_map xs)"
  by (simp add: changes_def range_map_def)

lemma changes_checkE [footprint]: "changes A (checkE b e)"
  by (simp add: checkE_def changes_returnE changes_throwE)

lemma changes_bindE_gives:
  assumes m: "changes A m" and P: "gives P m" and f: "\<And>x. P x \<Longrightarrow> changes A (f x)"
  shows "changes A (bindE m f)"
  unfolding changes_def
proof (intro allI impI)
  fix w p assume "p \<notin> A"
  moreover obtain r w' where "m w = (r, w')" by force
  ultimately show "at (snd (bindE m f w)) p = at w p"
    using changesD [OF m] givesD [OF P] f unfolding changes_def bindE_def
    by (cases r) auto
qed

lemma changes_bindE [footprint]:
  "changes A m \<Longrightarrow> (\<And>x. changes A (f x)) \<Longrightarrow> changes A (bindE m f)"
  by (rule changes_bindE_gives [where P = "\<lambda>_. True"]) (auto intro: outcome)

lemma changes_wrapE [footprint]: "changes A m \<Longrightarrow> changes A (wrapE msg m)"
  by (simp add: changes_def)

lemma changes_tryE [footprint]: "changes A m \<Longrightarrow> changes A (tryE m)"
  by (simp add: changes_def)

lemma changes_deferE [footprint]:
  "changes A c \<Longrightarrow> changes A m \<Longrightarrow> changes A (deferE c m)"
  by (auto simp: changes_def deferE_def split: prod.splits) (metis snd_conv)

lemma changes_onErrorE [footprint]:
  "changes A c \<Longrightarrow> changes A m \<Longrightarrow> changes A (onErrorE c m)"
  by (auto simp: changes_def onErrorE_def split: prod.splits sum.splits) (metis snd_conv)+

lemma changes_forE [footprint]:
  "(\<And>x. x \<in> set xs \<Longrightarrow> changes A (f x)) \<Longrightarrow> changes A (forE xs f)"
  by (induction xs) (auto intro!: changes_bindE changes_returnE)

lemma changes_mapE [footprint]:
  "(\<And>x. x \<in> set xs \<Longrightarrow> changes A (f x)) \<Longrightarrow> changes A (mapE f xs)"
  by (induction xs) (auto intro!: changes_bindE changes_returnE)

lemma changes_if [footprint]:
  "(b \<Longrightarrow> changes A m) \<Longrightarrow> (\<not> b \<Longrightarrow> changes A m') \<Longrightarrow> changes A (if b then m else m')"
  by simp

lemma changes_case_sum [footprint]:
  "(\<And>e. r = Inl e \<Longrightarrow> changes A (f e)) \<Longrightarrow> (\<And>x. r = Inr x \<Longrightarrow> changes A (g x)) \<Longrightarrow>
     changes A (case r of Inl e \<Rightarrow> f e | Inr x \<Rightarrow> g x)"
  by (cases r) auto

lemma changes_case_option [footprint]:
  "(r = None \<Longrightarrow> changes A f) \<Longrightarrow> (\<And>x. r = Some x \<Longrightarrow> changes A (g x)) \<Longrightarrow>
     changes A (case r of None \<Rightarrow> f | Some x \<Rightarrow> g x)"
  by (cases r) auto

lemma changes_case_prod [footprint]:
  "(\<And>a b. x = (a, b) \<Longrightarrow> changes A (f a b)) \<Longrightarrow> changes A (case x of (a, b) \<Rightarrow> f a b)"
  by (cases x) auto

lemma changes_let [footprint]: "changes A (f x) \<Longrightarrow> changes A (let y = x in f y)"
  by simp

lemma gives_returnE [outcome]: "P x \<Longrightarrow> gives P (returnE x)"
  by (simp add: gives_def)

lemma gives_throwE [outcome]: "gives P (throwE e)"
  by (simp add: gives_def)

lemma gives_bindE [outcome]: "(\<And>x. gives P (f x)) \<Longrightarrow> gives P (bindE m f)"
  by (fastforce simp: gives_def bindE_Inr)

lemma gives_wrapE [outcome]: "gives P m \<Longrightarrow> gives P (wrapE msg m)"
  by (simp add: gives_def)

lemma changes_syscall:
  assumes "\<And>n. changes A (bad n)" and "changes A good"
  shows "changes A (syscall bad good)"
  unfolding changes_def syscall_def
proof (intro allI impI)
  fix w :: world and p
  assume p: "p \<notin> A"
  have "at (snd (good w')) p = at w' p" "at (snd (bad n w')) p = at w' p" for w' n
    using assms p unfolding changes_def by auto
  then show "at (snd (case faults w of [] \<Rightarrow> good w | None # fs \<Rightarrow> good (w\<lparr>faults := fs\<rparr>)
      | Some n # fs \<Rightarrow> bad n (w\<lparr>faults := fs\<rparr>))) p = at w p"
    by (simp split: list.split option.split)
qed

lemma syscall_cases:
  assumes "syscall bad good w = (r, w')"
  obtains v where "files v = files w" and "rand v = rand w" and "umask v = umask w"
    and "good v = (r, w')"
  | v n where "files v = files w" and "rand v = rand w" and "umask v = umask w"
    and "bad n v = (r, w')"
proof (cases "faults w")
  case Nil
  with assms that(1) [of w] show ?thesis by (simp add: syscall_def)
next
  case (Cons h fs)
  with assms that(1) [of "w\<lparr>faults := fs\<rparr>"] that(2) [of "w\<lparr>faults := fs\<rparr>"] show ?thesis
    by (cases h) (simp_all add: syscall_def)
qed

section \<open>Reading\<close>

text \<open>\<open>reads_only m\<close>: whatever its outcome, \<open>m\<close> leaves the files as they were, down to
  their listing order, and the creation mask. Rounds of a loop that reads therefore all see the same
  files.\<close>

definition reads_only :: "'a io \<Rightarrow> bool" where
  "reads_only m \<longleftrightarrow> (\<forall>w. files (snd (m w)) = files w \<and> umask (snd (m w)) = umask w)"

lemma reads_onlyD: "reads_only m \<Longrightarrow> m w = (r, w') \<Longrightarrow> files w' = files w"
  and reads_only_umask: "reads_only m \<Longrightarrow> m w = (r, w') \<Longrightarrow> umask w' = umask w"
  unfolding reads_only_def by (metis snd_conv)+

lemma reads_onlyI:
  "(\<And>w r w'. m w = (r, w') \<Longrightarrow> files w' = files w \<and> umask w' = umask w) \<Longrightarrow> reads_only m"
  unfolding reads_only_def by (metis prod.collapse)

lemma reads_only_changes: "reads_only m \<Longrightarrow> changes A m"
  by (simp add: reads_only_def changes_def)

lemma reads_pure [quiet]:
  "reads_only (returnE x)" "reads_only (throwE e)" "reads_only (checkE b e)" "reads_only (range_map xs)"
  by (simp_all add: reads_only_def returnE_def throwE_def checkE_def range_map_def)

lemma reads_lift [quiet]: "reads_only (liftE r)" "reads_only (failE f)"
  by (cases r; cases f; simp add: liftE_def failE_def reads_pure)+

lemma reads_bindE [quiet]: "reads_only m \<Longrightarrow> (\<And>x. reads_only (f x)) \<Longrightarrow> reads_only (bindE m f)"
  by (auto simp: reads_only_def bindE_def split: prod.splits sum.splits) (metis snd_conv)+

lemma reads_wrapE [quiet]: "reads_only m \<Longrightarrow> reads_only (wrapE msg m)"
  by (simp add: reads_only_def)

lemma reads_tryE [quiet]: "reads_only m \<Longrightarrow> reads_only (tryE m)"
  by (simp add: reads_only_def)

lemma reads_forE [quiet]: "(\<And>x. x \<in> set xs \<Longrightarrow> reads_only (f x)) \<Longrightarrow> reads_only (forE xs f)"
  by (induction xs) (auto intro!: reads_bindE reads_pure)

lemma reads_mapE [quiet]: "(\<And>x. x \<in> set xs \<Longrightarrow> reads_only (f x)) \<Longrightarrow> reads_only (mapE f xs)"
  by (induction xs) (auto intro!: reads_bindE reads_pure)

lemma reads_if [quiet]: "(b \<Longrightarrow> reads_only m) \<Longrightarrow> (\<not> b \<Longrightarrow> reads_only m') \<Longrightarrow> reads_only (if b then m else m')"
  by simp

lemma reads_case_sum [quiet]:
  "(\<And>e. r = Inl e \<Longrightarrow> reads_only (f e)) \<Longrightarrow> (\<And>x. r = Inr x \<Longrightarrow> reads_only (g x)) \<Longrightarrow>
     reads_only (case r of Inl e \<Rightarrow> f e | Inr x \<Rightarrow> g x)"
  by (cases r) auto

lemma reads_case_option [quiet]:
  "(r = None \<Longrightarrow> reads_only f) \<Longrightarrow> (\<And>x. r = Some x \<Longrightarrow> reads_only (g x)) \<Longrightarrow>
     reads_only (case r of None \<Rightarrow> f | Some x \<Rightarrow> g x)"
  by (cases r) auto

lemma reads_case_prod [quiet]:
  "(\<And>a b. x = (a, b) \<Longrightarrow> reads_only (f a b)) \<Longrightarrow> reads_only (case x of (a, b) \<Rightarrow> f a b)"
  by (cases x) auto

lemma reads_let [quiet]: "reads_only (f x) \<Longrightarrow> reads_only (let y = x in f y)"
  by simp

lemma reads_syscall:
  assumes "\<And>n. reads_only (bad n)" and "reads_only good"
  shows "reads_only (syscall bad good)"
  using assms unfolding reads_only_def syscall_def
  by (auto split: list.split option.split)

lemma mapE_Inr_nth:
  assumes "mapE f xs w = (Inr ys, w')" and "\<And>x. x \<in> set xs \<Longrightarrow> reads_only (f x)"
  shows "length ys = length xs \<and> (\<forall>i < length xs. \<exists>v v'. files v = files w \<and> f (xs ! i) v = (Inr (ys ! i), v'))"
  using assms
proof (induction xs arbitrary: w ys)
  case (Cons x xs)
  from Cons.prems(1) obtain y w1 zs where h: "f x w = (Inr y, w1)" and t: "mapE f xs w1 = (Inr zs, w')"
    and ys: "ys = y # zs"
    by (auto simp: bindE_Inr)
  have fw: "files w1 = files w" using reads_onlyD [OF Cons.prems(2) h] by simp
  have IH: "length zs = length xs \<and>
    (\<forall>i < length xs. \<exists>v v'. files v = files w1 \<and> f (xs ! i) v = (Inr (zs ! i), v'))"
    by (rule Cons.IH [OF t]) (use Cons.prems(2) in simp)
  have "\<exists>v v'. files v = files w \<and> f ((x # xs) ! i) v = (Inr (ys ! i), v')" if i: "i < length (x # xs)" for i
  proof (cases i)
    case 0
    with h ys show ?thesis by auto
  next
    case (Suc j)
    with IH i ys fw show ?thesis by auto
  qed
  with IH ys show ?case by simp
qed simp

lemma mapE_Inl:
  assumes "mapE f xs w = (Inl e, w')" and "\<And>x. x \<in> set xs \<Longrightarrow> reads_only (f x)"
  shows "\<exists>x \<in> set xs. \<exists>v v'. files v = files w \<and> f x v = (Inl e, v')"
  using assms
proof (induction xs arbitrary: w)
  case (Cons x xs)
  from Cons.prems(1) consider (now) "f x w = (Inl e, w')"
    | (later) y w1 where "f x w = (Inr y, w1)" and "mapE f xs w1 = (Inl e, w')"
    by (auto simp: bindE_Inl)
  then show ?case
  proof cases
    case now
    then show ?thesis by auto
  next
    case later
    have "files w1 = files w" using reads_onlyD [OF Cons.prems(2) later(1)] by simp
    moreover have "\<exists>x \<in> set xs. \<exists>v v'. files v = files w1 \<and> f x v = (Inl e, v')"
      by (rule Cons.IH [OF later(2)]) (use Cons.prems(2) in simp)
    ultimately show ?thesis by auto
  qed
qed simp

end
