(* ===== verification/Os_Calls.thy ===== *)
theory Os_Calls
  imports Io_Monad
begin

text \<open>
  The system calls of Go's package \<open>os\<close> the sources use, on the world of \<open>Io_Monad\<close>.
  Each consumes one entry of the fault schedule; a call that fails by the schedule changes nothing,
  except a write, which may have written part of its data, and \<open>RemoveAll\<close>, which may have
  removed the deeper part of the tree only. For each call the rules give its footprint and what it
  did when it succeeded.
\<close>

section \<open>Looking and reading\<close>

definition fault :: "string \<Rightarrow> path \<Rightarrow> nat \<Rightarrow> 'a io" where
  "fault op p n = throwE (PathErr op p EIO)"

text \<open>\<open>os.Lstat\<close>\<close>

definition os_lstat :: "path \<Rightarrow> node io" where
  "os_lstat p = syscall (fault ''lstat'' p)
     (\<lambda>w. case stat (files w) p of
        Inl e \<Rightarrow> (Inl (PathErr ''lstat'' p e), w)
      | Inr n \<Rightarrow> (Inr n, w))"

text \<open>\<open>os.ReadFile\<close>\<close>

definition os_read_file :: "path \<Rightarrow> string io" where
  "os_read_file p = syscall (fault ''open'' p)
     (\<lambda>w. case stat (files w) p of
        Inl e \<Rightarrow> (Inl (PathErr ''open'' p e), w)
      | Inr (Regular m d) \<Rightarrow> (Inr d, w)
      | Inr (Directory m) \<Rightarrow> (Inl (PathErr ''read'' p EISDIR), w)
      | Inr (Irregular m (Some d)) \<Rightarrow> (Inr d, w)
      | Inr (Irregular m None) \<Rightarrow> (Inl (PathErr ''open'' p EIO), w))"

text \<open>\<open>os.ReadDir\<close>: names and nodes, sorted by name.\<close>

definition os_read_dir :: "path \<Rightarrow> (string \<times> node) list io" where
  "os_read_dir p = syscall (fault ''open'' p)
     (\<lambda>w. case stat (files w) p of
        Inl e \<Rightarrow> (Inl (PathErr ''open'' p e), w)
      | Inr (Directory m) \<Rightarrow> (Inr (children p (files w)), w)
      | Inr n \<Rightarrow> (Inl (PathErr ''readdirent'' p ENOTDIR), w))"

text \<open>\<open>os.Open\<close> of a directory and \<open>Sync\<close> on it.\<close>

definition os_open_dir :: "path \<Rightarrow> unit io" where
  "os_open_dir p = syscall (fault ''open'' p)
     (\<lambda>w. case stat (files w) p of
        Inl e \<Rightarrow> (Inl (PathErr ''open'' p e), w)
      | Inr n \<Rightarrow> (Inr (), w))"

definition file_sync :: "path \<Rightarrow> unit io" where
  "file_sync p = syscall (fault ''sync'' p) (returnE ())"

definition file_close :: "path \<Rightarrow> unit io" where
  "file_close p = syscall (fault ''close'' p) (returnE ())"

section \<open>Creating and writing\<close>

text \<open>\<open>os.Mkdir\<close> and \<open>os.MkdirAll\<close>\<close>

definition os_mkdir :: "path \<Rightarrow> mode \<Rightarrow> unit io" where
  "os_mkdir p m = syscall (fault ''mkdir'' p)
     (\<lambda>w. case blocked (files w) p of
        Some e \<Rightarrow> (Inl (PathErr ''mkdir'' p e), w)
      | None \<Rightarrow>
          if at w p \<noteq> None then (Inl (PathErr ''mkdir'' p EEXIST), w)
          else (Inr (), w\<lparr>files := fs_put p (Directory (m AND NOT (umask w))) (files w)\<rparr>))"

fun mkdirs :: "path list \<Rightarrow> mode \<Rightarrow> unit io" where
  "mkdirs [] m w = (Inr (), w)"
| "mkdirs (p # ps) m w =
     (case at w p of
        None \<Rightarrow> mkdirs ps m (w\<lparr>files := fs_put p (Directory (m AND NOT (umask w))) (files w)\<rparr>)
      | Some n \<Rightarrow> if is_directory n then mkdirs ps m w else (Inl (PathErr ''mkdir'' p ENOTDIR), w))"

definition os_mkdir_all :: "path \<Rightarrow> mode \<Rightarrow> unit io" where
  "os_mkdir_all p m = syscall (fault ''mkdir'' p) (mkdirs (parents p @ [p]) m)"

text \<open>\<open>os.Chmod\<close>, and \<open>Chmod\<close> on an open file.\<close>

definition os_chmod :: "path \<Rightarrow> mode \<Rightarrow> unit io" where
  "os_chmod p m = syscall (fault ''chmod'' p)
     (\<lambda>w. case stat (files w) p of
        Inl e \<Rightarrow> (Inl (PathErr ''chmod'' p e), w)
      | Inr n \<Rightarrow> (Inr (), w\<lparr>files := fs_put p (with_mode m n) (files w)\<rparr>))"

text \<open>
  \<open>os.WriteFile\<close> creates or truncates and then writes: a fault with \<open>n = 0\<close> is a failing
  open, one with \<open>n = Suc k\<close> a failing write after \<open>k\<close> bytes.
\<close>

definition store_file :: "path \<Rightarrow> string \<Rightarrow> mode \<Rightarrow> unit io" where
  "store_file p d m w =
     (case blocked (files w) p of
        Some e \<Rightarrow> (Inl (PathErr ''open'' p e), w)
      | None \<Rightarrow> (case at w p of
          None \<Rightarrow> (Inr (), w\<lparr>files := fs_put p (Regular (m AND NOT (umask w)) d) (files w)\<rparr>)
        | Some (Regular m' d') \<Rightarrow> (Inr (), w\<lparr>files := fs_put p (Regular m' d) (files w)\<rparr>)
        | Some (Directory m') \<Rightarrow> (Inl (PathErr ''open'' p EISDIR), w)
        | Some (Irregular m' d') \<Rightarrow> (Inl (PathErr ''open'' p EIO), w)))"

definition os_write_file :: "path \<Rightarrow> string \<Rightarrow> mode \<Rightarrow> unit io" where
  "os_write_file p d m = syscall
     (\<lambda>n. if n = 0 then fault ''open'' p n
          else bindE (store_file p (take (n - 1) d) m) (\<lambda>_. fault ''write'' p n))
     (store_file p d m)"

text \<open>\<open>Write\<close> on a file opened for writing: the bytes go to its end.\<close>

definition append_file :: "path \<Rightarrow> string \<Rightarrow> unit io" where
  "append_file p d w =
     (case at w p of
        Some (Regular m d') \<Rightarrow> (Inr (), w\<lparr>files := fs_put p (Regular m (d' @ d)) (files w)\<rparr>)
      | _ \<Rightarrow> (Inl (PathErr ''write'' p EIO), w))"

definition file_write :: "path \<Rightarrow> string \<Rightarrow> unit io" where
  "file_write p d = syscall
     (\<lambda>n. bindE (append_file p (take n d)) (\<lambda>_. fault ''write'' p n)) (append_file p d)"

text \<open>\<open>os.OpenFile\<close> with \<open>O_WRONLY|O_CREATE|O_APPEND\<close>.\<close>

definition os_open_append :: "path \<Rightarrow> mode \<Rightarrow> unit io" where
  "os_open_append p m = syscall (fault ''open'' p)
     (\<lambda>w. case blocked (files w) p of
        Some e \<Rightarrow> (Inl (PathErr ''open'' p e), w)
      | None \<Rightarrow> (case at w p of
          None \<Rightarrow> (Inr (), w\<lparr>files := fs_put p (Regular (m AND NOT (umask w)) []) (files w)\<rparr>)
        | Some (Regular m' d') \<Rightarrow> (Inr (), w)
        | Some (Directory m') \<Rightarrow> (Inl (PathErr ''open'' p EISDIR), w)
        | Some (Irregular m' d') \<Rightarrow> (Inl (PathErr ''open'' p EIO), w)))"

section \<open>Temporary names\<close>

text \<open>
  \<open>os.MkdirTemp\<close> and \<open>os.CreateTemp\<close> with the pattern \<open>pre*suf\<close> draw random
  32-bit numbers until a name is free, ten thousand times at most.
\<close>

fun pick_name :: "nat \<Rightarrow> path \<Rightarrow> string \<Rightarrow> string \<Rightarrow> path io" where
  "pick_name tries dir pre suf w =
     (if tries = 0 then (Inl (PathErr ''createtemp'' (dir @ [pre @ ''*'' @ suf]) EEXIST), w)
      else
        let p = dir @ [pre @ dec (rand w 0 mod 2 ^ 32) @ suf];
            w' = w\<lparr>rand := (\<lambda>i. rand w (Suc i))\<rparr>
        in if at w p = None then (Inr p, w') else pick_name (tries - 1) dir pre suf w')"

declare pick_name.simps [simp del]

definition create_temp :: "node \<Rightarrow> path \<Rightarrow> string \<Rightarrow> string \<Rightarrow> path io" where
  "create_temp n dir pre suf = syscall (fault ''createtemp'' (dir @ [pre @ ''*'' @ suf]))
     (\<lambda>w. case blocked (files w) (dir @ [pre]) of
        Some e \<Rightarrow> (Inl (PathErr ''open'' (dir @ [pre @ ''*'' @ suf]) e), w)
      | None \<Rightarrow> (case pick_name 10000 dir pre suf w of
          (Inl e, w') \<Rightarrow> (Inl e, w')
        | (Inr p, w') \<Rightarrow>
            (Inr p, w'\<lparr>files :=
               fs_put p (with_mode (node_mode n AND NOT (umask w')) n) (files w')\<rparr>)))"

definition os_mkdir_temp :: "path \<Rightarrow> string \<Rightarrow> path io" where
  "os_mkdir_temp dir pre = create_temp (Directory mode_0700) dir pre []"

definition os_create_temp :: "path \<Rightarrow> string \<Rightarrow> string \<Rightarrow> path io" where
  "os_create_temp dir pre suf = create_temp (Regular mode_0600 []) dir pre suf"

section \<open>Renaming and removing\<close>

text \<open>
  \<open>os.Rename\<close> is atomic and refuses an existing directory as its destination.
\<close>

definition rename_files :: "path \<Rightarrow> path \<Rightarrow> fsys \<Rightarrow> errno + fsys" where
  "rename_files src dst f =
     (case stat f src of
        Inl e \<Rightarrow> Inl e
      | Inr n \<Rightarrow> (case blocked f dst of
          Some e \<Rightarrow> Inl e
        | None \<Rightarrow> (case lookup f dst of
            None \<Rightarrow> if prefix src dst then Inl EINVAL else Inr (fs_move src dst f)
          | Some n' \<Rightarrow>
              if is_directory n' then Inl EEXIST
              else if is_directory n then Inl ENOTDIR
              else if src = dst then Inr f
              else Inr (fs_move src dst f))))"

definition os_rename :: "path \<Rightarrow> path \<Rightarrow> unit io" where
  "os_rename src dst = syscall (\<lambda>n. throwE (LinkErr ''rename'' src dst EIO))
     (\<lambda>w. case rename_files src dst (files w) of
        Inl e \<Rightarrow> (Inl (LinkErr ''rename'' src dst e), w)
      | Inr f \<Rightarrow> (Inr (), w\<lparr>files := f\<rparr>))"

text \<open>\<open>os.Remove\<close>\<close>

definition os_remove :: "path \<Rightarrow> unit io" where
  "os_remove p = syscall (fault ''remove'' p)
     (\<lambda>w. case stat (files w) p of
        Inl e \<Rightarrow> (Inl (PathErr ''remove'' p e), w)
      | Inr n \<Rightarrow>
          if is_directory n \<and> children p (files w) \<noteq> [] then (Inl (PathErr ''remove'' p ENOTEMPTY), w)
          else (Inr (), w\<lparr>files := keep_keys (\<lambda>q. q \<noteq> p) (files w)\<rparr>))"

text \<open>
  \<open>os.RemoveAll\<close> works from the leaves up: failing with \<open>Some n\<close> it has removed what
  lies more than \<open>n\<close> levels below \<open>p\<close>.
\<close>

definition os_remove_all :: "path \<Rightarrow> unit io" where
  "os_remove_all p = syscall
     (\<lambda>n w. (Inl (PathErr ''unlinkat'' p EIO),
        w\<lparr>files := keep_keys (\<lambda>q. prefix p q \<longrightarrow> length q \<le> length p + n) (files w)\<rparr>))
     (\<lambda>w. (Inr (), w\<lparr>files := keep_keys (\<lambda>q. \<not> prefix p q) (files w)\<rparr>))"

end
