(* ===== verification/Os_Rules.thy ===== *)
theory Os_Rules
  imports Os_Calls
begin

text \<open>
  What each system call may change (collection \<open>footprint\<close>) and what it did when it
  succeeded (the lemmas named \<open>_Inr\<close>).
\<close>

definition below :: "path \<Rightarrow> path set" where
  "below p = {q. prefix p q}"

text \<open>The names \<open>pre*suf\<close> can take in \<open>dir\<close>, and everything below them.\<close>

definition temp_name :: "path \<Rightarrow> string \<Rightarrow> string \<Rightarrow> path \<Rightarrow> bool" where
  "temp_name dir pre suf t \<longleftrightarrow> (\<exists>k. t = dir @ [pre @ dec k @ suf])"

definition scratch :: "path \<Rightarrow> string \<Rightarrow> string \<Rightarrow> path set" where
  "scratch dir pre suf = {q. \<exists>t. temp_name dir pre suf t \<and> prefix t q}"

lemma in_below [simp]: "q \<in> below p \<longleftrightarrow> prefix p q"
  by (simp add: below_def)

lemma below_scratch: "temp_name dir pre suf t \<Longrightarrow> below t \<subseteq> scratch dir pre suf"
  by (auto simp: scratch_def)

lemma temp_in_scratch [simp]:
  "temp_name dir pre suf t \<Longrightarrow> prefix t q \<Longrightarrow> q \<in> scratch dir pre suf"
  by (auto simp: scratch_def)

lemma not_scratch:
  assumes "\<not> prefix pre c"
  shows "dir @ c # r \<notin> scratch dir pre suf"
  using assms by (auto simp: scratch_def temp_name_def prefix_def)

lemma scratch_inside: "q \<in> scratch dir pre suf \<Longrightarrow> strict_prefix dir q"
  by (auto simp: scratch_def temp_name_def strict_prefix_def prefix_def)

lemma temp_name_parts:
  "temp_name dir pre suf t \<Longrightarrow> t \<noteq> [] \<and> butlast t = dir \<and> strict_prefix dir t"
  by (auto simp: temp_name_def strict_prefix_def)

section \<open>Footprints\<close>

lemma changes_fault [footprint]: "changes A (fault op p n)"
  by (simp add: fault_def footprint)

lemma changes_put:
  assumes "\<And>w. at (snd (m w)) = at w \<or> (\<exists>n. at (snd (m w)) = (at w)(p \<mapsto> n))" and "p \<in> A"
  shows "changes A m"
  unfolding changes_def
proof (intro allI impI)
  fix w q assume "q \<notin> A"
  with assms show "at (snd (m w)) q = at w q" by (metis fun_upd_other)
qed

lemma lookup_put_fun: "p \<noteq> [] \<Longrightarrow> lookup (fs_put p n f) = (lookup f)(p \<mapsto> n)"
  by (auto simp: lookup_put)

lemma lookup_put_cases:
  "lookup (fs_put p n f) = lookup f \<or> (\<exists>n. lookup (fs_put p n f) = (lookup f)(p \<mapsto> n))"
  by (cases "p = []") (auto simp: lookup_put_fun lookup_put)

lemma changes_read [footprint]:
  "changes A (os_lstat p)" "changes A (os_read_file p)" "changes A (os_read_dir p)"
  "changes A (os_open_dir p)" "changes A (file_sync p)" "changes A (file_close p)"
  unfolding os_lstat_def os_read_file_def os_read_dir_def os_open_dir_def file_sync_def file_close_def
  by (rule changes_syscall [OF changes_fault],
      (auto simp: changes_def returnE_def split: sum.split node.split option.split)[1])+

lemma changes_os_mkdir [footprint]: "p \<in> A \<Longrightarrow> changes A (os_mkdir p m)"
  unfolding os_mkdir_def
  by (rule changes_syscall changes_fault)+
    (auto simp: changes_def lookup_put split: option.split)

lemma changes_mkdirs: "set ps \<subseteq> A \<Longrightarrow> changes A (mkdirs ps m)"
proof (induction ps)
  case Nil
  then show ?case by (simp add: changes_def)
next
  case (Cons p ps)
  then have "changes A (mkdirs ps m)" and "p \<in> A" by auto
  then show ?case by (auto simp: changes_def lookup_put split: option.split)
qed

lemma changes_os_mkdir_all [footprint]:
  "{q. prefix q p} \<subseteq> A \<Longrightarrow> changes A (os_mkdir_all p m)"
  unfolding os_mkdir_all_def
  by (rule changes_syscall changes_fault changes_mkdirs)+
    (auto simp: set_parents strict_prefix_def)

lemma changes_os_chmod [footprint]: "p \<in> A \<Longrightarrow> changes A (os_chmod p m)"
  unfolding os_chmod_def
  by (rule changes_syscall changes_fault)+ (auto simp: changes_def lookup_put split: sum.split)

lemma changes_store_file [footprint]: "p \<in> A \<Longrightarrow> changes A (store_file p d m)"
  by (auto simp: changes_def store_file_def lookup_put split: option.split node.split)

lemma changes_os_write_file [footprint]: "p \<in> A \<Longrightarrow> changes A (os_write_file p d m)"
  unfolding os_write_file_def by (intro changes_syscall footprint)

lemma changes_append_file [footprint]: "p \<in> A \<Longrightarrow> changes A (append_file p d)"
  by (auto simp: changes_def append_file_def lookup_put split: option.split node.split)

lemma changes_file_write [footprint]: "p \<in> A \<Longrightarrow> changes A (file_write p d)"
  unfolding file_write_def by (intro changes_syscall footprint)

lemma changes_os_open_append [footprint]: "p \<in> A \<Longrightarrow> changes A (os_open_append p m)"
  unfolding os_open_append_def
  by (rule changes_syscall changes_fault)+
    (auto simp: changes_def lookup_put split: option.split node.split)

lemma pick_name_props:
  assumes "pick_name k dir pre suf w = (r, w')"
  shows "files w' = files w \<and> faults w' = faults w \<and> umask w' = umask w \<and>
    (case r of Inl e \<Rightarrow> True | Inr p \<Rightarrow> temp_name dir pre suf p \<and> at w p = None)"
  using assms
proof (induction k dir pre suf w rule: pick_name.induct)
  case (1 tries dir pre suf w)
  let ?p = "dir @ [pre @ dec (rand w 0 mod 2 ^ 32) @ suf]"
  show ?case
  proof (cases "tries = 0 \<or> at w ?p = None")
    case True
    with "1.prems" show ?thesis
      by (auto simp: pick_name.simps [of tries] temp_name_def Let_def split: if_splits)
  next
    case False
    with "1.prems" have "pick_name (tries - 1) dir pre suf (w\<lparr>rand := (\<lambda>i. rand w (Suc i))\<rparr>) = (r, w')"
      by (subst (asm) pick_name.simps) (auto simp: Let_def simp del: One_nat_def)
    from "1.IH" [OF _ refl refl _ this] False show ?thesis by (cases r) auto
  qed
qed

lemma create_temp_Inr:
  assumes "create_temp n dir pre suf w = (Inr p, w')"
  shows "temp_name dir pre suf p" and "at w p = None"
    and "\<exists>m. at w' = (at w)(p \<mapsto> with_mode m n)"
proof -
  from assms have "temp_name dir pre suf p \<and> at w p = None \<and>
    (\<exists>m. at w' = (at w)(p \<mapsto> with_mode m n))"
    unfolding create_temp_def
  proof (cases rule: syscall_cases)
    case (1 v)
    from 1(4) obtain v' where "pick_name 10000 dir pre suf v = (Inr p, v')"
      and "w' = v'\<lparr>files := fs_put p (with_mode (node_mode n AND NOT (umask v')) n) (files v')\<rparr>"
      by (auto split: option.splits prod.splits sum.splits)
    with pick_name_props [of 10000 dir pre suf v "Inr p" v'] show ?thesis
      by (auto simp: 1(1) temp_name_def lookup_put_fun)
  qed (simp add: fault_def)
  then show "temp_name dir pre suf p" and "at w p = None"
    and "\<exists>m. at w' = (at w)(p \<mapsto> with_mode m n)" by auto
qed

lemma create_temp_Inl:
  assumes "create_temp n dir pre suf w = (Inl e, w')"
  shows "files w' = files w"
  using assms unfolding create_temp_def
proof (cases rule: syscall_cases)
  case (1 v)
  then show ?thesis
    by (auto split: option.splits prod.splits sum.splits dest: pick_name_props)
qed (simp add: fault_def)

lemma changes_create_temp [footprint]:
  assumes "scratch dir pre suf \<subseteq> A"
  shows "changes A (create_temp n dir pre suf)"
  unfolding changes_def
proof (intro allI impI)
  fix w q assume q: "q \<notin> A"
  obtain r w' where r: "create_temp n dir pre suf w = (r, w')" by force
  show "at (snd (create_temp n dir pre suf w)) q = at w q"
  proof (cases r)
    case (Inl e)
    with r show ?thesis by (auto dest: create_temp_Inl)
  next
    case (Inr p)
    with r create_temp_Inr [of n dir pre suf w p w'] q assms show ?thesis
      by (auto simp: scratch_def)
  qed
qed

lemma changes_os_mkdir_temp [footprint]:
  "scratch dir pre [] \<subseteq> A \<Longrightarrow> changes A (os_mkdir_temp dir pre)"
  by (simp add: os_mkdir_temp_def footprint)

lemma changes_os_create_temp [footprint]:
  "scratch dir pre suf \<subseteq> A \<Longrightarrow> changes A (os_create_temp dir pre suf)"
  by (simp add: os_create_temp_def footprint)

lemma gives_temp [outcome]:
  "gives (temp_name dir pre []) (os_mkdir_temp dir pre)"
  "gives (temp_name dir pre suf) (os_create_temp dir pre suf)"
  by (auto simp: gives_def os_mkdir_temp_def os_create_temp_def dest: create_temp_Inr)

lemma rename_files_Inr:
  assumes "rename_files src dst f = Inr f'"
  shows "lookup f dst = None \<or> (\<exists>n. lookup f dst = Some n \<and> \<not> is_directory n)"
    and "lookup f src \<noteq> None"
    and "lookup f' q = (if src = dst then lookup f q
      else if prefix dst q then lookup f (src @ drop (length dst) q)
      else if prefix src q then None else lookup f q)"
proof -
  from assms show "lookup f dst = None \<or> (\<exists>n. lookup f dst = Some n \<and> \<not> is_directory n)"
    by (auto simp: rename_files_def split: sum.splits option.splits if_splits)
  from assms show "lookup f src \<noteq> None"
    by (auto simp: rename_files_def stat_Inr split: sum.splits)
  from assms obtain n where n: "stat f src = Inr n"
    by (auto simp: rename_files_def split: sum.splits)
  have f': "src = dst \<and> f' = f \<or> f' = fs_move src dst f \<and> src \<noteq> dst" and ne: "dst \<noteq> []"
    and pre: "src \<noteq> dst \<longrightarrow> \<not> prefix src dst"
    using assms n
    by (auto simp: rename_files_def stat_Inr blocked_None strict_prefix_def dir_at_def
        split: sum.splits option.splits if_splits)
  show "lookup f' q = (if src = dst then lookup f q
      else if prefix dst q then lookup f (src @ drop (length dst) q)
      else if prefix src q then None else lookup f q)"
  proof (cases "src = dst")
    case True
    with f' show ?thesis by auto
  next
    case False
    have "\<not> prefix dst src"
    proof
      assume "prefix dst src"
      with False n have "dir_at f dst" by (auto simp: stat_Inr blocked_None strict_prefix_def)
      with \<open>lookup f dst = None \<or> _\<close> show False by (auto simp: dir_at_def)
    qed
    moreover have "src \<noteq> []" using pre False by auto
    ultimately show ?thesis
      using f' pre ne False by (simp add: lookup_move)
  qed
qed

lemma os_rename_Inr:
  assumes "os_rename src dst w = (Inr u, w')"
  shows "at w dst = None \<or> (\<exists>n. at w dst = Some n \<and> \<not> is_directory n)"
    and "at w src \<noteq> None"
    and "at w' q = (if src = dst then at w q
      else if prefix dst q then at w (src @ drop (length dst) q)
      else if prefix src q then None else at w q)"
proof -
  from assms have "\<exists>f. rename_files src dst (files w) = Inr f \<and> files w' = f"
    unfolding os_rename_def
    by (cases rule: syscall_cases) (auto split: sum.splits)
  then show "at w dst = None \<or> (\<exists>n. at w dst = Some n \<and> \<not> is_directory n)"
    and "at w src \<noteq> None"
    and "at w' q = (if src = dst then at w q
      else if prefix dst q then at w (src @ drop (length dst) q)
      else if prefix src q then None else at w q)"
    using rename_files_Inr by auto
qed

lemma os_rename_Inl:
  assumes "os_rename src dst w = (Inl e, w')"
  shows "files w' = files w"
  using assms unfolding os_rename_def
  by (cases rule: syscall_cases) (auto split: sum.splits)

lemma changes_os_rename [footprint]:
  assumes "below src \<subseteq> A" and "below dst \<subseteq> A"
  shows "changes A (os_rename src dst)"
  unfolding changes_def
proof (intro allI impI)
  fix w q assume q: "q \<notin> A"
  obtain r w' where r: "os_rename src dst w = (r, w')" by force
  with q assms show "at (snd (os_rename src dst w)) q = at w q"
    by (cases r) (auto simp: os_rename_Inr(3) dest: os_rename_Inl)
qed

lemma changes_os_remove [footprint]: "p \<in> A \<Longrightarrow> changes A (os_remove p)"
  unfolding os_remove_def
  by (rule changes_syscall changes_fault)+
    (auto simp: changes_def lookup_def split: sum.split)

lemma changes_os_remove_all [footprint]: "below p \<subseteq> A \<Longrightarrow> changes A (os_remove_all p)"
  unfolding os_remove_all_def
  by (rule changes_syscall) (auto simp: changes_def lookup_def)

section \<open>Success\<close>

lemma os_lstat_Inr:
  assumes "os_lstat p w = (Inr n, w')"
  shows "at w p = Some n" and "files w' = files w"
  using assms unfolding os_lstat_def
  by (cases rule: syscall_cases; auto simp: fault_def stat_Inr split: sum.splits)+

lemma os_read_file_Inr:
  assumes "os_read_file p w = (Inr d, w')"
  shows "\<exists>n. at w p = Some n \<and> node_data n = Some d" and "files w' = files w"
  using assms unfolding os_read_file_def
  by (cases rule: syscall_cases;
      auto simp: fault_def stat_Inr split: sum.splits node.splits option.splits)+

lemma os_read_dir_Inr:
  assumes "os_read_dir p w = (Inr es, w')"
  shows "es = children p (files w)" and "files w' = files w"
  using assms unfolding os_read_dir_def
  by (cases rule: syscall_cases;
      auto simp: fault_def split: sum.splits node.splits)+

lemma os_chmod_Inr:
  assumes "os_chmod p m w = (Inr u, w')"
  shows "\<exists>n. at w p = Some n \<and> (p \<noteq> [] \<longrightarrow> at w' = (at w)(p \<mapsto> with_mode m n))"
  using assms unfolding os_chmod_def
  by (cases rule: syscall_cases) (auto simp: fault_def stat_Inr lookup_put_fun split: sum.splits)

lemma os_write_file_Inr:
  assumes "os_write_file p d m w = (Inr u, w')" and "p \<noteq> []"
  shows "\<exists>m'. at w' = (at w)(p \<mapsto> Regular m' d)"
proof -
  have store: "\<exists>m'. at w'' = (at v)(p \<mapsto> Regular m' d)"
    if "store_file p d m v = (Inr u', w'')" for v u' w''
    using that assms(2)
    by (auto simp: store_file_def lookup_put_fun split: option.splits node.splits)
  from assms(1) show ?thesis
    unfolding os_write_file_def
    by (cases rule: syscall_cases) (auto simp: fault_def bindE_Inr dest!: store split: if_splits)
qed

lemma file_write_Inr:
  assumes "file_write p d w = (Inr u, w')" and "p \<noteq> []"
  shows "\<exists>m d'. at w p = Some (Regular m d') \<and> at w' = (at w)(p \<mapsto> Regular m (d' @ d))"
  using assms unfolding file_write_def
  by (cases rule: syscall_cases)
    (auto simp: fault_def bindE_Inr append_file_def lookup_put_fun split: option.splits node.splits)

lemma file_sync_files: "file_sync p w = (r, w') \<Longrightarrow> files w' = files w"
  unfolding file_sync_def by (erule syscall_cases) (auto simp: fault_def)

lemma file_close_files: "file_close p w = (r, w') \<Longrightarrow> files w' = files w"
  unfolding file_close_def by (erule syscall_cases) (auto simp: fault_def)

lemma os_read_files:
  "os_lstat p w = (r, w') \<Longrightarrow> files w' = files w"
  "os_read_file p w = (r', w') \<Longrightarrow> files w' = files w"
  "os_read_dir p w = (r'', w') \<Longrightarrow> files w' = files w"
  "os_open_dir p w = (r3, w') \<Longrightarrow> files w' = files w"
  unfolding os_lstat_def os_read_file_def os_read_dir_def os_open_dir_def
  by (erule syscall_cases;
      auto simp: fault_def split: sum.splits node.splits option.splits)+

lemma reads_os [quiet]:
  "reads_only (fault op p n)" "reads_only (os_lstat p)" "reads_only (os_read_file p)"
  "reads_only (os_read_dir p)" "reads_only (os_open_dir p)" "reads_only (file_sync p)"
  "reads_only (file_close p)"
  unfolding os_lstat_def os_read_file_def os_read_dir_def os_open_dir_def file_sync_def file_close_def fault_def
  by (auto intro!: reads_onlyI elim!: syscall_cases split: sum.splits node.splits option.splits
      simp: throwE_def returnE_def)

text \<open>\<open>MkdirAll\<close> adds directories where nothing was, and nothing else.\<close>

lemma mkdirs_grows:
  assumes "mkdirs ps m w = (r, w')"
  shows "at w' q = at w q \<or> at w q = None \<and> dir_at (files w') q"
  using assms
proof (induction ps arbitrary: w)
  case (Cons p ps)
  show ?case
  proof (cases "at w p")
    case None
    let ?w = "w\<lparr>files := fs_put p (Directory (m AND NOT (umask w))) (files w)\<rparr>"
    from None have ne: "p \<noteq> []" by auto
    from Cons.IH [of ?w] Cons.prems None
    have "at w' q = at ?w q \<or> at ?w q = None \<and> dir_at (files w') q" by simp
    with None ne show ?thesis by (cases "q = p") (auto simp: lookup_put dir_at_def)
  next
    case (Some n)
    with Cons show ?thesis by (auto split: if_splits)
  qed
qed simp

lemma mkdirs_Inr: "mkdirs ps m w = (Inr u, w') \<Longrightarrow> q \<in> set ps \<Longrightarrow> dir_at (files w') q"
proof (induction ps arbitrary: w)
  case (Cons p ps)
  obtain v where v: "mkdirs ps m v = (Inr u, w')" and p: "dir_at (files v) p"
    using Cons.prems(1) by (auto simp: dir_at_def lookup_put split: option.splits if_splits)
  with mkdirs_grows [OF v, of p] have "dir_at (files w') p" by (auto simp: dir_at_def)
  with Cons v show ?case by auto
qed simp

lemma os_mkdir_all_grows:
  assumes "os_mkdir_all p m w = (r, w')"
  shows "at w' q = at w q \<or> at w q = None \<and> dir_at (files w') q"
  using assms unfolding os_mkdir_all_def
  by (cases rule: syscall_cases) (auto simp: fault_def dest: mkdirs_grows)

lemma os_mkdir_all_Inr:
  assumes "os_mkdir_all p m w = (Inr u, w')" and "prefix q p"
  shows "dir_at (files w') q"
proof -
  have "q \<in> set (parents p @ [p])"
    using assms(2) by (auto simp: set_parents strict_prefix_def)
  with assms(1) show ?thesis unfolding os_mkdir_all_def
    by (cases rule: syscall_cases) (auto simp: fault_def simp del: set_append dest: mkdirs_Inr)
qed

text \<open>An \<open>os.Lstat\<close> that reports \<open>os.ErrNotExist\<close> found nothing.\<close>

lemma os_lstat_not_exist:
  assumes "os_lstat p w = (Inl e, w')" and "is_not_exist e"
  shows "stat (files w) p = Inl ENOENT"
  using assms unfolding os_lstat_def
  by (cases rule: syscall_cases) (auto simp: fault_def split: sum.splits)

lemma os_read_file_not_exist:
  assumes "os_read_file p w = (Inl e, w')" and "is_not_exist e"
  shows "stat (files w) p = Inl ENOENT"
  using assms unfolding os_read_file_def
  by (cases rule: syscall_cases) (auto simp: fault_def split: sum.splits node.splits option.splits)

lemma os_read_file_stat:
  assumes "os_read_file p w = (Inr d, w')"
  shows "\<exists>n. stat (files w) p = Inr n \<and> node_data n = Some d"
  using assms unfolding os_read_file_def
  by (cases rule: syscall_cases) (auto simp: fault_def split: sum.splits node.splits option.splits)

text \<open>What \<open>stat\<close> finds depends on the path and the directories above it only.\<close>

lemma stat_cong:
  assumes "\<And>q. prefix q p \<Longrightarrow> lookup g q = lookup f q"
  shows "stat g p = stat f p"
proof -
  have l: "lookup g q = lookup f q" "dir_at g q = dir_at f q" if "q \<in> set (parents p)" for q
    using that assms [of q] by (simp_all add: set_parents dir_at_def)
  have "find (\<lambda>q. \<not> dir_at g q) (parents p) = find (\<lambda>q. \<not> dir_at f q) (parents p)"
    by (rule find_cong) (simp_all add: l)
  moreover have "q \<in> set (parents p)" if "find (\<lambda>q. \<not> dir_at f q) (parents p) = Some q" for q
    using that by (auto simp: find_Some_iff)
  ultimately have "blocked g p = blocked f p"
    using l(1) unfolding blocked_def by (simp split: option.split)
  then show ?thesis using assms [of p] by (simp add: stat_def split: option.split)
qed

text \<open>The test before a creation: \<open>p\<close> must not exist.\<close>

definition require_absent :: "path \<Rightarrow> err \<Rightarrow> string \<Rightarrow> unit io" where
  "require_absent p exists msg =
     bindE (tryE (os_lstat p)) (\<lambda>r.
       case r of
         Inr n \<Rightarrow> throwE exists
       | Inl e \<Rightarrow> if is_not_exist e then returnE () else throwE (Wrap (msg @ '': '') e []))"

lemma changes_require_absent [footprint]: "changes A (require_absent p e msg)"
  unfolding require_absent_def by (intro footprint)

lemma require_absent_files: "require_absent p e msg w = (r, w') \<Longrightarrow> files w' = files w"
  by (auto simp: require_absent_def bindE_def tryE_def throwE_def returnE_def
      split: prod.splits sum.splits if_splits dest: os_read_files)

lemma require_absent_Inr:
  assumes "require_absent p e msg w = (Inr u, w')"
  shows "stat (files w) p = Inl ENOENT"
proof -
  obtain r v where l: "os_lstat p w = (r, v)" by force
  with assms show ?thesis
    by (cases r)
      (auto simp: require_absent_def bindE_def tryE_def split: if_splits dest: os_lstat_not_exist)
qed

lemma require_absent_lookup:
  assumes "require_absent p e msg w = (Inr u, w')"
  shows "at w p = None \<or> blocked (files w) p = Some ENOENT"
  using require_absent_Inr [OF assms] by (auto simp: stat_def split: option.splits)

text \<open>Opening a directory and syncing it, with the messages of the two errors.\<close>

definition sync_dir :: "path \<Rightarrow> string \<Rightarrow> string \<Rightarrow> unit io" where
  "sync_dir dir open_msg sync_msg =
     bindE (wrapE open_msg (os_open_dir dir)) (\<lambda>_.
     deferE (file_close dir) (wrapE sync_msg (file_sync dir)))"

lemma changes_sync_dir [footprint]: "changes A (sync_dir dir a b)"
  unfolding sync_dir_def by (intro footprint)

lemma sync_dir_at:
  assumes "sync_dir dir a b w = (r, w')"
  shows "at w' = at w"
proof
  fix p
  have "changes {} (sync_dir dir a b)" by (intro footprint)
  from changesD [OF this assms, of p] show "at w' p = at w p" by simp
qed

text \<open>
  Publication: the rename moves the whole of \<open>t\<close> to \<open>p\<close> or nothing happens, and
  what follows the rename reads only.
\<close>

definition moved :: "path \<Rightarrow> path \<Rightarrow> world \<Rightarrow> world \<Rightarrow> bool" where
  "moved t p w w' \<longleftrightarrow> (\<forall>q. at w' q =
     (if prefix p q then at w (t @ drop (length p) q) else if prefix t q then None else at w q))"

lemma os_rename_moved: "os_rename t p w = (Inr u, w') \<Longrightarrow> t \<noteq> p \<Longrightarrow> moved t p w w'"
  using os_rename_Inr(3) unfolding moved_def by simp

lemma rename_then_sync:
  assumes "bindE (wrapE msg (os_rename t p)) (\<lambda>_. sync_dir dir a b) w = (r, w')" and "t \<noteq> p"
  shows "(\<exists>e. r = Inl e \<and> at w' = at w) \<or> moved t p w w'"
    and "r = Inr u \<Longrightarrow> moved t p w w'"
proof -
  obtain s v where ren: "os_rename t p w = (s, v)" by force
  show "(\<exists>e. r = Inl e \<and> at w' = at w) \<or> moved t p w w'"
  proof (cases s)
    case (Inl e)
    with assms(1) ren os_rename_Inl [of t p w e v] show ?thesis
      by (auto simp: bindE_def wrapE_def)
  next
    case (Inr x)
    with assms(1) ren have "sync_dir dir a b v = (r, w')" by (simp add: bindE_def wrapE_def)
    from sync_dir_at [OF this] os_rename_moved [of t p w x v] Inr ren assms(2) show ?thesis
      by (simp add: moved_def)
  qed
  then show "r = Inr u \<Longrightarrow> moved t p w w'" by auto
qed

lemma moved_target: "moved t p w w' \<Longrightarrow> at w' (p @ r) = at w (t @ r)"
  unfolding moved_def by simp

lemma moved_elsewhere: "moved t p w w' \<Longrightarrow> \<not> prefix p q \<Longrightarrow> \<not> prefix t q \<Longrightarrow> at w' q = at w q"
  unfolding moved_def by simp

end
