(* ===== verification/Os_Replace.thy ===== *)
theory Os_Replace
  imports Os_Rules
begin

text \<open>
  Replacing a file as a whole: a temporary file in the same directory is filled and renamed over the
  destination, and whatever is left at the temporary name removed. Every part of the program that
  keeps a file this way (the serial store, the certificate manifests, the backup artifact) rests on
  the two rules of this theory.
\<close>

definition via_temp :: "string \<Rightarrow> path \<Rightarrow> string \<Rightarrow> string \<Rightarrow> (path \<Rightarrow> unit io) \<Rightarrow> unit io" where
  "via_temp msg dir pre suf body =
     bindE (wrapE msg (os_create_temp dir pre suf)) (\<lambda>t. deferE (os_remove t) (body t))"

lemma bindE_return_unit [simp]: "bindE m (\<lambda>_. returnE ()) = (m :: unit io)"
  by (auto simp: bindE_def returnE_def fun_eq_iff split: prod.splits sum.splits)

lemma returnE_bindE [simp]: "bindE (returnE x) f = f x"
  by (auto simp: bindE_def returnE_def)

lemma changes_via_temp:
  assumes "scratch dir pre suf \<subseteq> A" and "\<And>t. temp_name dir pre suf t \<Longrightarrow> changes A (body t)"
  shows "changes A (via_temp msg dir pre suf body)"
  unfolding via_temp_def
proof (rule changes_bindE_gives [OF _ gives_wrapE [OF gives_temp(2)]])
  show "changes A (wrapE msg (os_create_temp dir pre suf))" using assms(1) by (intro footprint)
next
  fix t assume t: "temp_name dir pre suf t"
  then have "t \<in> A" using assms(1) by auto
  then show "changes A (deferE (os_remove t) (body t))" by (intro footprint assms(2) t)
qed

text \<open>
  Whatever fails, the destination holds its old node or all of the new one; a success means the
  new one is there.
\<close>

lemma via_temp_result:
  assumes run: "via_temp msg d pre suf
      (\<lambda>t. bindE (fill t) (\<lambda>_. bindE check (\<lambda>_. bindE (wrapE pub (os_rename t (d @ [c]))) (\<lambda>_. tail)))) w
      = (r, w')"
    and c: "\<not> prefix pre c"
    and fill_changes: "\<And>t. changes {t} (fill t)"
    and fill_Inr: "\<And>t w u w' m. fill t w = (Inr u, w') \<Longrightarrow> t \<noteq> [] \<Longrightarrow> at w t = Some (Regular m []) \<Longrightarrow>
      at w' = (at w)(t \<mapsto> n)"
    and check: "changes {} check" and tail: "changes {} tail"
  shows "at w' (d @ [c]) = at w (d @ [c]) \<and> (\<exists>e. r = Inl e) \<or> at w' (d @ [c]) = Some n"
proof -
  let ?p = "d @ [c]"
  let ?rest = "\<lambda>t. bindE (wrapE pub (os_rename t ?p)) (\<lambda>_. tail)"
  obtain r1 w1 where create: "os_create_temp d pre suf w = (r1, w1)" by force
  show ?thesis
  proof (cases r1)
    case (Inl e)
    with run create create_temp_Inl [of _ d pre suf w e w1] show ?thesis
      by (auto simp: via_temp_def os_create_temp_def bindE_def wrapE_def)
  next
    case (Inr t)
    note temp = create_temp_Inr [OF create [unfolded Inr os_create_temp_def]]
    have p: "?p \<notin> scratch d pre suf" using not_scratch [OF c] .
    have t: "t \<noteq> []" "t \<noteq> ?p" "\<not> prefix t ?p" "?p \<notin> {t}"
      using temp_name_parts [OF temp(1)] temp_in_scratch [OF temp(1), of ?p] p by auto
    from temp(3) t(1) obtain m where w1: "at w1 = (at w)(t \<mapsto> Regular m [])" by auto
    obtain w5 where body: "bindE (fill t) (\<lambda>_. bindE check (\<lambda>_. ?rest t)) w1 = (r, w5)"
      and w': "w' = snd (os_remove t w5)"
      using run create Inr
      by (auto simp: via_temp_def bindE_def wrapE_def deferE_def split: prod.splits)
    have "changes {t} (os_remove t)" by (intro footprint) simp
    then have last: "at w' ?p = at w5 ?p" using t(4) w' unfolding changes_def by simp
    obtain r2 w2 where fill: "fill t w1 = (r2, w2)" by force
    from changesD [OF fill_changes fill t(4)] t(2) w1 have w2: "at w2 ?p = at w ?p" by simp
    show ?thesis
    proof (cases r2)
      case (Inl e)
      with body fill last w2 show ?thesis by (auto simp: bindE_def)
    next
      case Inr2: (Inr u)
      from fill_Inr [OF fill [unfolded Inr2] t(1)] w1 have filled: "at w2 t = Some n" by simp
      obtain r3 w3 where chk: "check w2 = (r3, w3)" by force
      have w3: "at w3 = at w2" using changesD [OF check chk] by auto
      show ?thesis
      proof (cases r3)
        case (Inl e)
        with body fill Inr2 chk w3 last w2 show ?thesis by (auto simp: bindE_def)
      next
        case Inr3: (Inr u')
        with body fill Inr2 chk have rest: "?rest t w3 = (r, w5)" by (auto simp: bindE_def)
        obtain r4 w4 where ren: "os_rename t ?p w3 = (r4, w4)" by force
        show ?thesis
        proof (cases r4)
          case (Inl e)
          with rest ren os_rename_Inl [of t ?p w3 e w4] w3 last w2 show ?thesis
            by (auto simp: bindE_def wrapE_def)
        next
          case (Inr u2)
          with rest ren have tl: "tail w4 = (r, w5)" by (simp add: bindE_def wrapE_def)
          have "at w5 = at w4" using changesD [OF tail tl] by auto
          moreover have "at w4 ?p = at w3 t"
            using moved_target [OF os_rename_moved [OF ren [unfolded Inr] t(2)], of "[]"] by simp
          ultimately show ?thesis using last w3 filled by simp
        qed
      qed
    qed
  qed
qed

end
