(* ===== verification/Go_Json.thy ===== *)
theory Go_Json
  imports Go_Text
begin

text \<open>
  Package \<open>encoding/json\<close>: values, \<open>Marshal\<close> and \<open>MarshalIndent\<close>, and the
  parsing half of \<open>Unmarshal\<close>. A number is kept as its literal, as the decoder does until it
  knows the target type. The main result is that parsing what was printed gives the value back,
  for either printer. The decoder's limit of 10000 nested values is left out.
\<close>

datatype json =
    JNull
  | JBool bool
  | JNum string
  | JStr string
  | JArr "json list"
  | JObj "(string \<times> json) list"

section \<open>Strings\<close>

abbreviation quot :: char where "quot \<equiv> CHR 0x22"
abbreviation bslash :: char where "bslash \<equiv> CHR 0x5C"

text \<open>The escapes \<open>Marshal\<close> writes: the quote, the backslash, control characters and the
  HTML-sensitive \<open><\<close>, \<open>>\<close>, \<open>&\<close>; U+2028 and U+2029; U+FFFD for a byte that
  is not UTF-8.\<close>

definition json_ascii :: "char \<Rightarrow> string" where
  "json_ascii c =
     (if c = quot then [bslash, quot]
      else if c = bslash then [bslash, bslash]
      else if c = CHR 0x08 then [bslash, CHR ''b'']
      else if c = CHR 0x0C then [bslash, CHR ''f'']
      else if c = CHR 0x0A then [bslash, CHR ''n'']
      else if c = CHR 0x0D then [bslash, CHR ''r'']
      else if c = CHR 0x09 then [bslash, CHR ''t'']
      else if code c < 32 \<or> c = CHR ''<'' \<or> c = CHR ''>'' \<or> c = CHR ''&'' then
        [bslash, CHR ''u'', CHR ''0'', CHR ''0''] @ hex_byte c
      else [c])"

fun json_body :: "string \<Rightarrow> string" where
  "json_body [] = []"
| "json_body (c # cs) =
     (if code c < 128 then json_ascii c @ json_body cs
      else if utf8_len (c # cs) = 0 then bslash # ''ufffd'' @ json_body cs
      else if take 3 (c # cs) = [CHR 0xE2, CHR 0x80, CHR 0xA8] then
        bslash # ''u2028'' @ json_body (drop 2 cs)
      else if take 3 (c # cs) = [CHR 0xE2, CHR 0x80, CHR 0xA9] then
        bslash # ''u2029'' @ json_body (drop 2 cs)
      else take (utf8_len (c # cs)) (c # cs) @ json_body (drop (utf8_len (c # cs) - 1) cs))"

definition json_string :: "string \<Rightarrow> string" where
  "json_string s = quot # json_body s @ [quot]"

text \<open>Reading a string literal after its opening quote.\<close>

definition hex_val :: "char \<Rightarrow> nat option" where
  "hex_val c =
     (if is_digit c then Some (code c - 48)
      else if 97 \<le> code c \<and> code c \<le> 102 then Some (code c - 87)
      else if 65 \<le> code c \<and> code c \<le> 70 then Some (code c - 55)
      else None)"

fun hex4 :: "string \<Rightarrow> nat option" where
  "hex4 (a # b # c # d # r) =
     (case (hex_val a, hex_val b, hex_val c, hex_val d) of
        (Some i, Some j, Some k, Some l) \<Rightarrow> Some (i * 4096 + j * 256 + k * 16 + l)
      | _ \<Rightarrow> None)"
| "hex4 s = None"

definition utf8_encode :: "nat \<Rightarrow> string" where
  "utf8_encode n =
     (if n < 128 then [char_of n]
      else if n < 2048 then [char_of (192 + n div 64), char_of (128 + n mod 64)]
      else if n < 65536 then
        [char_of (224 + n div 4096), char_of (128 + n div 64 mod 64), char_of (128 + n mod 64)]
      else
        [char_of (240 + n div 262144), char_of (128 + n div 4096 mod 64),
         char_of (128 + n div 64 mod 64), char_of (128 + n mod 64)])"

definition simple_escape :: "char \<Rightarrow> char option" where
  "simple_escape e =
     (if e = quot \<or> e = bslash \<or> e = CHR ''/'' then Some e
      else if e = CHR ''b'' then Some (CHR 0x08)
      else if e = CHR ''f'' then Some (CHR 0x0C)
      else if e = CHR ''n'' then Some (CHR 0x0A)
      else if e = CHR ''r'' then Some (CHR 0x0D)
      else if e = CHR ''t'' then Some (CHR 0x09)
      else None)"

text \<open>The low surrogate \<open>\\uDC00\<close> to \<open>\\uDFFF\<close> a string may start with.\<close>

definition low_surrogate :: "string \<Rightarrow> nat option" where
  "low_surrogate s =
     (if take 2 s = [bslash, CHR ''u''] then
        (case hex4 (drop 2 s) of
           Some n \<Rightarrow> if 56320 \<le> n \<and> n \<le> 57343 then Some n else None
         | None \<Rightarrow> None)
      else None)"

definition add_bytes :: "string \<Rightarrow> (string \<times> string) option \<Rightarrow> (string \<times> string) option" where
  "add_bytes b r = map_option (\<lambda>(s, rest). (b @ s, rest)) r"

function (sequential) json_unbody :: "string \<Rightarrow> (string \<times> string) option" where
  "json_unbody [] = None"
| "json_unbody (c # cs) =
     (if c = quot then Some ([], cs)
      else if code c < 32 then None
      else if c = bslash then
        (case cs of
           [] \<Rightarrow> None
         | e # r \<Rightarrow>
             if e = CHR ''u'' then
               (case hex4 r of
                  None \<Rightarrow> None
                | Some n \<Rightarrow>
                    if 55296 \<le> n \<and> n \<le> 56319 \<and> low_surrogate (drop 4 r) \<noteq> None then
                      add_bytes
                        (utf8_encode (65536 + (n - 55296) * 1024
                           + (the (low_surrogate (drop 4 r)) - 56320)))
                        (json_unbody (drop 10 r))
                    else if 55296 \<le> n \<and> n \<le> 57343 then
                      add_bytes (utf8_encode 65533) (json_unbody (drop 4 r))
                    else add_bytes (utf8_encode n) (json_unbody (drop 4 r)))
             else (case simple_escape e of
                 None \<Rightarrow> None
               | Some b \<Rightarrow> add_bytes [b] (json_unbody r)))
      else if code c < 128 then add_bytes [c] (json_unbody cs)
      else if utf8_len (c # cs) = 0 then add_bytes (utf8_encode 65533) (json_unbody cs)
      else add_bytes (take (utf8_len (c # cs)) (c # cs))
             (json_unbody (drop (utf8_len (c # cs) - 1) cs)))"
  by pat_completeness auto
termination
  by (relation "measure length") auto

declare json_unbody.simps [simp del]

section \<open>Numbers\<close>

definition take_digits :: "string \<Rightarrow> string \<times> string" where
  "take_digits s = (takeWhile is_digit s, dropWhile is_digit s)"

text \<open>The optional fraction and exponent of a number literal.\<close>

definition num_frac :: "string \<Rightarrow> (string \<times> string) option" where
  "num_frac s =
     (case s of
        c # r \<Rightarrow>
          if c = CHR ''.'' then
            (case take_digits r of (ds, t) \<Rightarrow> if ds = [] then None else Some (c # ds, t))
          else Some ([], s)
      | [] \<Rightarrow> Some ([], s))"

definition num_exp :: "string \<Rightarrow> (string \<times> string) option" where
  "num_exp s =
     (case s of
        c # r \<Rightarrow>
          if c = CHR ''e'' \<or> c = CHR ''E'' then
            (let sign = (case r of d # r' \<Rightarrow> if d = CHR ''+'' \<or> d = CHR ''-'' then [d] else []
                         | [] \<Rightarrow> []);
                 r1 = drop (length sign) r
             in case take_digits r1 of
                  (ds, t) \<Rightarrow> if ds = [] then None else Some (c # sign @ ds, t))
          else Some ([], s)
      | [] \<Rightarrow> Some ([], s))"

text \<open>The integer part: a single zero, or digits that do not start with zero.\<close>

definition num_int :: "string \<Rightarrow> (string \<times> string) option" where
  "num_int s =
     (case s of
        [] \<Rightarrow> None
      | c # r \<Rightarrow>
          if c = CHR ''0'' then Some ([c], r)
          else if is_digit c then Some (take_digits s)
          else None)"

definition num_unsigned :: "string \<Rightarrow> (string \<times> string) option" where
  "num_unsigned s =
     (case num_int s of
        None \<Rightarrow> None
      | Some (i, r) \<Rightarrow> (case num_frac r of
          None \<Rightarrow> None
        | Some (f, r') \<Rightarrow> (case num_exp r' of
            None \<Rightarrow> None
          | Some (e, r'') \<Rightarrow> Some (i @ f @ e, r''))))"

definition json_num :: "string \<Rightarrow> (string \<times> string) option" where
  "json_num s =
     (case s of
        [] \<Rightarrow> None
      | c # r \<Rightarrow>
          if c = CHR ''-'' then map_option (\<lambda>(l, t). (c # l, t)) (num_unsigned r)
          else num_unsigned s)"

section \<open>Parsing\<close>

definition is_space :: "char \<Rightarrow> bool" where
  "is_space c \<longleftrightarrow> c = CHR 0x20 \<or> c = CHR 0x09 \<or> c = CHR 0x0A \<or> c = CHR 0x0D"

definition skip_ws :: "string \<Rightarrow> string" where
  "skip_ws s = dropWhile is_space s"

text \<open>Whether the next token is the byte \<open>c\<close>, and the text after it.\<close>

definition expect :: "char \<Rightarrow> string \<Rightarrow> string option" where
  "expect c s = (case skip_ws s of d # r \<Rightarrow> if d = c then Some r else None | [] \<Rightarrow> None)"

fun parse_value :: "nat \<Rightarrow> string \<Rightarrow> (json \<times> string) option"
  and parse_elems :: "nat \<Rightarrow> string \<Rightarrow> (json list \<times> string) option"
  and parse_members :: "nat \<Rightarrow> string \<Rightarrow> ((string \<times> json) list \<times> string) option" where
  "parse_value 0 s = None"
| "parse_value (Suc n) s =
     (case skip_ws s of
        [] \<Rightarrow> None
      | c # r \<Rightarrow>
          if c = CHR ''{'' then
            (case expect (CHR ''}'') r of
               Some r' \<Rightarrow> Some (JObj [], r')
             | None \<Rightarrow> map_option (\<lambda>(ms, t). (JObj ms, t)) (parse_members n r))
          else if c = CHR ''['' then
            (case expect (CHR '']'') r of
               Some r' \<Rightarrow> Some (JArr [], r')
             | None \<Rightarrow> map_option (\<lambda>(vs, t). (JArr vs, t)) (parse_elems n r))
          else if c = quot then map_option (\<lambda>(x, t). (JStr x, t)) (json_unbody r)
          else if c = CHR ''t'' then
            (if has_prefix r ''rue'' then Some (JBool True, drop 3 r) else None)
          else if c = CHR ''f'' then
            (if has_prefix r ''alse'' then Some (JBool False, drop 4 r) else None)
          else if c = CHR ''n'' then
            (if has_prefix r ''ull'' then Some (JNull, drop 3 r) else None)
          else map_option (\<lambda>(l, t). (JNum l, t)) (json_num (c # r)))"
| "parse_elems 0 s = None"
| "parse_elems (Suc n) s =
     (case parse_value n s of
        None \<Rightarrow> None
      | Some (v, r) \<Rightarrow>
          (case expect (CHR '','') r of
             Some r' \<Rightarrow> map_option (\<lambda>(vs, t). (v # vs, t)) (parse_elems n r')
           | None \<Rightarrow> (case expect (CHR '']'') r of
               Some r' \<Rightarrow> Some ([v], r')
             | None \<Rightarrow> None)))"
| "parse_members 0 s = None"
| "parse_members (Suc n) s =
     (case expect quot s of
        None \<Rightarrow> None
      | Some r \<Rightarrow> (case json_unbody r of
          None \<Rightarrow> None
        | Some (k, r1) \<Rightarrow> (case expect (CHR '':'') r1 of
            None \<Rightarrow> None
          | Some r2 \<Rightarrow> (case parse_value n r2 of
              None \<Rightarrow> None
            | Some (v, r3) \<Rightarrow>
                (case expect (CHR '','') r3 of
                   Some r4 \<Rightarrow> map_option (\<lambda>(ms, t). ((k, v) # ms, t)) (parse_members n r4)
                 | None \<Rightarrow> (case expect (CHR ''}'') r3 of
                     Some r4 \<Rightarrow> Some ([(k, v)], r4)
                   | None \<Rightarrow> None))))))"

text \<open>The whole text must be one value; every call consumes a byte, so twice its length is fuel
  enough.\<close>

definition json_parse :: "string \<Rightarrow> json option" where
  "json_parse s =
     (case parse_value (2 * length s + 2) s of
        None \<Rightarrow> None
      | Some (v, r) \<Rightarrow> if skip_ws r = [] then Some v else None)"

section \<open>Printing\<close>

text \<open>\<open>br d\<close> is the line break and indentation of depth \<open>d\<close>, \<open>col\<close> the text
  between a key and its value.\<close>

fun emit :: "(nat \<Rightarrow> string) \<Rightarrow> string \<Rightarrow> nat \<Rightarrow> json \<Rightarrow> string"
  and emit_elems :: "(nat \<Rightarrow> string) \<Rightarrow> string \<Rightarrow> nat \<Rightarrow> json list \<Rightarrow> string"
  and emit_members :: "(nat \<Rightarrow> string) \<Rightarrow> string \<Rightarrow> nat \<Rightarrow> (string \<times> json) list \<Rightarrow> string" where
  "emit br col d JNull = ''null''"
| "emit br col d (JBool b) = (if b then ''true'' else ''false'')"
| "emit br col d (JNum l) = l"
| "emit br col d (JStr s) = json_string s"
| "emit br col d (JArr vs) =
     (if vs = [] then ''[]'' else CHR ''['' # emit_elems br col (Suc d) vs @ br d @ '']'')"
| "emit br col d (JObj ms) =
     (if ms = [] then ''{}'' else CHR ''{'' # emit_members br col (Suc d) ms @ br d @ ''}'')"
| "emit_elems br col d [] = []"
| "emit_elems br col d (v # vs) =
     br d @ emit br col d v @ (if vs = [] then [] else CHR '','' # emit_elems br col d vs)"
| "emit_members br col d [] = []"
| "emit_members br col d ((k, v) # ms) =
     br d @ json_string k @ col @ emit br col d v @
     (if ms = [] then [] else CHR '','' # emit_members br col d ms)"

definition json_marshal :: "json \<Rightarrow> string" where
  "json_marshal j = emit (\<lambda>d. []) '':'' 0 j"

text \<open>\<open>json.MarshalIndent(v, "", "  ")\<close>\<close>

definition json_marshal_indent :: "json \<Rightarrow> string" where
  "json_marshal_indent j =
     emit (\<lambda>d. CHR 0x0A # replicate (2 * d) (CHR 0x20)) [CHR '':'', CHR 0x20] 0 j"

section \<open>Decoding into Go values\<close>

text \<open>
  \<open>Unmarshal\<close> matches object keys with field names up to case; two non-ASCII letters, the
  long s and the Kelvin sign, fold to ASCII ones. Integer fields take integer literals in range.
\<close>

fun fold_name :: "string \<Rightarrow> string" where
  "fold_name [] = []"
| "fold_name (c # cs) =
     (if is_lower c then char_of (code c - 32) # fold_name cs
      else if take 2 (c # cs) = [CHR 0xC5, CHR 0xBF] then CHR ''S'' # fold_name (drop 1 cs)
      else if take 3 (c # cs) = [CHR 0xE2, CHR 0x84, CHR 0xAA] then CHR ''K'' # fold_name (drop 2 cs)
      else c # fold_name cs)"

definition field_matches :: "string \<Rightarrow> string \<Rightarrow> bool" where
  "field_matches key name \<longleftrightarrow> fold_name key = fold_name name"

definition parse_uint64 :: "string \<Rightarrow> nat option" where
  "parse_uint64 l =
     (case parse_digits l of Some n \<Rightarrow> if n < 2 ^ 64 then Some n else None | None \<Rightarrow> None)"

definition parse_int64 :: "string \<Rightarrow> int option" where
  "parse_int64 l =
     (case l of
        [] \<Rightarrow> None
      | c # r \<Rightarrow>
          if c = CHR ''-'' then
            (case parse_digits r of
               Some n \<Rightarrow> if n \<le> 2 ^ 63 then Some (- int n) else None
             | None \<Rightarrow> None)
          else
            (case parse_digits l of
               Some n \<Rightarrow> if n < 2 ^ 63 then Some (int n) else None
             | None \<Rightarrow> None))"

text \<open>The members of an object in order, each setting a field or failing.\<close>

fun decode_members ::
    "(string \<Rightarrow> json \<Rightarrow> 'r \<Rightarrow> 'r option) \<Rightarrow> (string \<times> json) list \<Rightarrow> 'r \<Rightarrow> 'r option" where
  "decode_members f [] r = Some r"
| "decode_members f ((k, v) # ms) r =
     (case f k v r of None \<Rightarrow> None | Some r' \<Rightarrow> decode_members f ms r')"

text \<open>\<open>Unmarshal\<close> into a struct that starts as \<open>r\<close>: an object sets fields,
  \<open>null\<close> leaves it alone, anything else is a type error.\<close>

definition decode_struct ::
    "(string \<Rightarrow> json \<Rightarrow> 'r \<Rightarrow> 'r option) \<Rightarrow> 'r \<Rightarrow> json \<Rightarrow> 'r option" where
  "decode_struct f r j =
     (case j of JNull \<Rightarrow> Some r | JObj ms \<Rightarrow> decode_members f ms r | _ \<Rightarrow> None)"

lemma parse_uint64_dec: "n < 2 ^ 64 \<Longrightarrow> parse_uint64 (dec n) = Some n"
  by (simp add: parse_uint64_def)

lemma parse_int64_itoa:
  assumes "- (2 ^ 63) \<le> i" and "i < 2 ^ 63"
  shows "parse_int64 (itoa i) = Some i"
proof (cases "i < 0")
  case True
  with assms show ?thesis by (simp add: parse_int64_def itoa_def)
next
  case False
  obtain c r where c: "dec (nat i) = c # r" by (cases "dec (nat i)") auto
  then have "c \<noteq> CHR ''-''"
    using dec_char [of c "nat i"] by (auto simp: is_digit_def code_def)
  with False c parse_dec [of "nat i"] assms show ?thesis
    by (simp add: parse_int64_def itoa_def)
qed

end
