(* ===== verification/Go_Json_Rules.thy ===== *)
theory Go_Json_Rules
  imports Go_Json
begin

text \<open>
  Parsing inverts printing. The two printers of \<open>encoding/json\<close> differ in the white space
  they put between tokens only; the locale \<open>json_layout\<close> states that contract and proves the
  round trip once, and both printers interpret it.
\<close>

section \<open>String literals\<close>

lemma code_less_256: "code c < 256"
  by (simp add: code_def)

lemma char_of_code [simp]: "char_of (code c) = c"
  by (simp add: code_def)

lemma code_char_of: "n < 256 \<Longrightarrow> code (char_of n) = n"
  by (simp add: code_def)

lemma code_inject: "code c = code d \<longleftrightarrow> c = d"
  by (metis char_of_code)

lemma hex_val_hex_digit: "d < 16 \<Longrightarrow> hex_val (hex_digit d) = Some d"
  by (auto simp: hex_val_def hex_digit_def is_digit_def code_char_of)

lemma json_unbody_escape:
  assumes "simple_escape e = Some b" and "e \<noteq> CHR ''u''"
  shows "json_unbody (bslash # e # t) = add_bytes [b] (json_unbody t)"
  using assms by (subst json_unbody.simps) (simp add: code_def)

lemma json_unbody_u:
  assumes "hex4 (a # b # c # d # t) = Some n" and "n < 55296 \<or> 57343 < n"
  shows "json_unbody (bslash # CHR ''u'' # a # b # c # d # t) =
    add_bytes (utf8_encode n) (json_unbody t)"
  using assms by (subst json_unbody.simps) (auto simp: code_def split del: option.splits)

lemma json_unbody_plain:
  assumes "\<not> code c < 32" and "code c < 128" and "c \<noteq> quot" and "c \<noteq> bslash"
  shows "json_unbody (c # t) = add_bytes [c] (json_unbody t)"
  using assms by (subst json_unbody.simps) simp

lemma json_unbody_ascii:
  assumes "code c < 128"
  shows "json_unbody (json_ascii c @ t) = add_bytes [c] (json_unbody t)"
proof -
  have hex: "json_unbody (bslash # CHR ''u'' # CHR ''0'' # CHR ''0'' # hex_byte c @ t)
    = add_bytes [c] (json_unbody t)"
  proof -
    have z: "hex_val (CHR ''0'') = Some 0" by code_simp
    have "hex4 (CHR ''0'' # CHR ''0'' # hex_digit (code c div 16) # hex_digit (code c mod 16) # t)
      = Some (code c)"
      using assms by (simp add: z hex_val_hex_digit mult.commute [of _ 16])
    from json_unbody_u [OF this] assms show ?thesis
      by (simp add: hex_byte_def utf8_encode_def)
  qed
  have esc: "simple_escape quot = Some quot" "simple_escape bslash = Some bslash"
    "simple_escape (CHR ''b'') = Some (CHR 0x08)" "simple_escape (CHR ''f'') = Some (CHR 0x0C)"
    "simple_escape (CHR ''n'') = Some (CHR 0x0A)" "simple_escape (CHR ''r'') = Some (CHR 0x0D)"
    "simple_escape (CHR ''t'') = Some (CHR 0x09)"
    by (simp_all add: simple_escape_def)
  show ?thesis
    using assms hex json_unbody_plain [of c t]
    by (auto simp: json_ascii_def json_unbody_escape esc)
qed

lemma in_range_take:
  "i < n \<Longrightarrow> n \<le> length s \<Longrightarrow> in_range lo hi (take n s @ t) i = in_range lo hi s i"
  by (simp add: in_range_def nth_append)

lemma utf8_take:
  "1 \<le> n \<Longrightarrow> n \<le> length s \<Longrightarrow> in_range lo hi (take n s @ t) 0 = in_range lo hi s 0"
  "2 \<le> n \<Longrightarrow> n \<le> length s \<Longrightarrow> utf8_two (take n s @ t) = utf8_two s"
  "3 \<le> n \<Longrightarrow> n \<le> length s \<Longrightarrow> utf8_three (take n s @ t) = utf8_three s"
  "4 \<le> n \<Longrightarrow> n \<le> length s \<Longrightarrow> utf8_four (take n s @ t) = utf8_four s"
  unfolding utf8_defs by (simp_all only: in_range_take)

lemma utf8_len_take:
  assumes "utf8_len s = n" and "n \<noteq> 0"
  shows "utf8_len (take n s @ t) = n"
proof -
  have le: "n \<le> length s" using assms utf8_len_le [of s] by simp
  have cases: "n = 1 \<and> in_range 0 127 s 0
    \<or> n = 2 \<and> \<not> in_range 0 127 s 0 \<and> utf8_two s
    \<or> n = 3 \<and> \<not> in_range 0 127 s 0 \<and> \<not> utf8_two s \<and> utf8_three s
    \<or> n = 4 \<and> \<not> in_range 0 127 s 0 \<and> \<not> utf8_two s \<and> \<not> utf8_three s \<and> utf8_four s"
    using assms by (auto simp: utf8_len_def split: if_splits)
  note t = utf8_take(1) [OF _ le] utf8_take(2,3,4) [OF _ le]
  from cases show ?thesis
  proof (elim disjE conjE)
    assume n: "n = 1" and c: "in_range 0 127 s 0"
    have "1 \<le> n" by (simp add: n)
    from t(1) [OF this] c n show ?thesis by (simp only: utf8_len_def if_True)
  next
    assume n: "n = 2" and c: "\<not> in_range 0 127 s 0" "utf8_two s"
    have "1 \<le> n" "2 \<le> n" by (simp_all add: n)
    from t(1) [OF this(1)] t(2) [OF this(2)] c n show ?thesis
      by (simp only: utf8_len_def if_True if_False)
  next
    assume n: "n = 3" and c: "\<not> in_range 0 127 s 0" "\<not> utf8_two s" "utf8_three s"
    have "1 \<le> n" "2 \<le> n" "3 \<le> n" by (simp_all add: n)
    from t(1) [OF this(1)] t(2) [OF this(2)] t(3) [OF this(3)] c n show ?thesis
      by (simp only: utf8_len_def if_True if_False)
  next
    assume n: "n = 4"
      and c: "\<not> in_range 0 127 s 0" "\<not> utf8_two s" "\<not> utf8_three s" "utf8_four s"
    have "1 \<le> n" "2 \<le> n" "3 \<le> n" "4 \<le> n" by (simp_all add: n)
    from t(1) [OF this(1)] t(2) [OF this(2)] t(3) [OF this(3)] t(4) [OF this(4)] c n show ?thesis
      by (simp only: utf8_len_def if_True if_False)
  qed
qed

lemma json_unbody_multi:
  assumes "\<not> code c < 128" and n: "utf8_len (c # cs) = n" "n \<noteq> 0"
  shows "json_unbody (take n (c # cs) @ t) = add_bytes (take n (c # cs)) (json_unbody t)"
proof -
  obtain m where m: "n = Suc m" using n(2) by (cases n) auto
  have len: "utf8_len (c # take m cs @ t) = Suc m"
    using utf8_len_take [OF n] m by simp
  have "m \<le> length cs" using utf8_len_le [of "c # cs"] n m by simp
  moreover have "code c \<noteq> code quot" "code c \<noteq> code bslash"
    using assms(1) by (auto simp: code_def)
  ultimately show ?thesis
    using len assms(1) m by (simp add: json_unbody.simps(2) [of c] code_inject)
qed

lemma json_unbody_body:
  assumes "utf8_valid s"
  shows "json_unbody (json_body s @ quot # t) = Some (s, t)"
  using assms
proof (induction s rule: json_body.induct)
  case 1
  show ?case by (simp add: json_unbody.simps)
next
  case (2 c cs)
  let ?n = "utf8_len (c # cs)"
  have n: "?n \<noteq> 0" and v: "utf8_valid (drop (?n - 1) cs)" using "2.prems" by auto
  show ?case
  proof (cases "code c < 128")
    case True
    with "2.IH"(1) v show ?thesis
      by (simp add: utf8_len_ascii json_unbody_ascii add_bytes_def)
  next
    case False
    have ls: "take 3 (c # cs) = [CHR 0xE2, CHR 0x80, b] \<Longrightarrow> b = CHR 0xA8 \<or> b = CHR 0xA9 \<Longrightarrow> ?n = 3" for b
      by (cases cs; cases "tl cs") (auto simp: utf8_len_def utf8_defs in_range_def code_def)
    have u: "hex4 (CHR ''2'' # CHR ''0'' # CHR ''2'' # CHR ''8'' # r) = Some 8232"
      "hex4 (CHR ''2'' # CHR ''0'' # CHR ''2'' # CHR ''9'' # r) = Some 8233" for r
      by (simp_all add: hex_val_def is_digit_def code_def)
    have e: "utf8_encode 8232 = [CHR 0xE2, CHR 0x80, CHR 0xA8]"
      "utf8_encode 8233 = [CHR 0xE2, CHR 0x80, CHR 0xA9]"
      using char_of_code [of "CHR 0xE2"] char_of_code [of "CHR 0x80"]
        char_of_code [of "CHR 0xA8"] char_of_code [of "CHR 0xA9"]
      by (simp_all add: utf8_encode_def code_def del: char_of_code)
    consider (a8) "take 3 (c # cs) = [CHR 0xE2, CHR 0x80, CHR 0xA8]"
      | (a9) "take 3 (c # cs) = [CHR 0xE2, CHR 0x80, CHR 0xA9]"
      | (other) "take 3 (c # cs) \<noteq> [CHR 0xE2, CHR 0x80, CHR 0xA8]"
        "take 3 (c # cs) \<noteq> [CHR 0xE2, CHR 0x80, CHR 0xA9]"
      by blast
    then show ?thesis
    proof cases
      case a8
      with ls have "?n = 3" by blast
      moreover obtain r where r: "cs = CHR 0x80 # CHR 0xA8 # r" and "c = CHR 0xE2"
        using a8 by (cases cs; cases "tl cs") auto
      ultimately have "json_unbody (json_body r @ quot # t) = Some (r, t)"
        using "2.IH"(3) a8 False n v by simp
      moreover have "json_body (c # cs) = bslash # ''u2028'' @ json_body r"
        using False n a8 r by simp
      moreover have "json_unbody (bslash # ''u2028'' @ json_body r @ quot # t) =
          add_bytes [CHR 0xE2, CHR 0x80, CHR 0xA8] (json_unbody (json_body r @ quot # t))"
        using json_unbody_u [OF u(1)] e by simp
      ultimately show ?thesis
        using r \<open>c = CHR 0xE2\<close> by (simp add: add_bytes_def)
    next
      case a9
      with ls have "?n = 3" by blast
      moreover obtain r where r: "cs = CHR 0x80 # CHR 0xA9 # r" and "c = CHR 0xE2"
        using a9 by (cases cs; cases "tl cs") auto
      ultimately have "json_unbody (json_body r @ quot # t) = Some (r, t)"
        using "2.IH"(4) a9 False n v by simp
      moreover have "json_body (c # cs) = bslash # ''u2029'' @ json_body r"
        using False n a9 r by simp
      moreover have "json_unbody (bslash # ''u2029'' @ json_body r @ quot # t) =
          add_bytes [CHR 0xE2, CHR 0x80, CHR 0xA9] (json_unbody (json_body r @ quot # t))"
        using json_unbody_u [OF u(2)] e by simp
      ultimately show ?thesis
        using r \<open>c = CHR 0xE2\<close> by (simp add: add_bytes_def)
    next
      case other
      with "2.IH"(5) False n v have "json_unbody (json_body (drop (?n - 1) cs) @ quot # t) =
        Some (drop (?n - 1) cs, t)" by simp
      moreover have "json_body (c # cs) =
          take ?n (c # cs) @ json_body (drop (?n - 1) cs)"
        using False n other by (simp only: json_body.simps if_False)
      moreover have "take ?n (c # cs) @ drop (?n - 1) cs = c # cs"
        using n by (cases ?n) auto
      ultimately show ?thesis
        using json_unbody_multi [OF False refl n] by (simp add: add_bytes_def)
    qed
  qed
qed

lemma json_unbody_string:
  "utf8_valid s \<Longrightarrow> json_unbody (tl (json_string s) @ t) = Some (s, t)"
  using json_unbody_body by (simp add: json_string_def)

section \<open>Number literals\<close>

text \<open>What may follow a number: nothing that continues it.\<close>

definition num_stop :: "string \<Rightarrow> bool" where
  "num_stop s \<longleftrightarrow>
     (case s of [] \<Rightarrow> True
      | c # r \<Rightarrow> \<not> is_digit c \<and> c \<noteq> CHR ''.'' \<and> c \<noteq> CHR ''e'' \<and> c \<noteq> CHR ''E'')"

lemma dec_head_zero: "dec n = CHR ''0'' # r \<Longrightarrow> r = []"
proof (induction n arbitrary: r rule: dec.induct)
  case (1 n)
  show ?case
  proof (cases "n < 10")
    case True
    with "1.prems" show ?thesis by (simp add: dec.simps [of n])
  next
    case False
    with "1.prems" have eq: "dec (n div 10) @ [digit_char (n mod 10)] = CHR ''0'' # r"
      by (simp add: dec.simps [of n])
    then obtain s where s: "dec (n div 10) = CHR ''0'' # s"
      using dec_nonempty [of "n div 10"] by (cases "dec (n div 10)") auto
    with "1.IH" [OF False s] have "dec (n div 10) = ''0''" by simp
    then have "n div 10 = 0"
      using dec_value [of "n div 10"] by (simp add: digit_val_def code_def)
    with False show ?thesis by simp
  qed
qed

lemma num_unsigned_dec:
  assumes "num_stop t"
  shows "num_unsigned (dec n @ t) = Some (dec n, t)"
proof -
  have t: "takeWhile is_digit t = []" "dropWhile is_digit t = t"
    using assms by (cases t; simp add: num_stop_def)+
  have d: "\<forall>c \<in> set (dec n). is_digit c" using dec_digits by (simp add: list_all_iff)
  obtain c r where c: "dec n = c # r" using dec_nonempty [of n] by (cases "dec n") auto
  have "num_int (dec n @ t) = Some (dec n, t)"
  proof (cases "c = CHR ''0''")
    case True
    with c have "r = []" using dec_head_zero by simp
    with c True show ?thesis by (simp add: num_int_def)
  next
    case False
    have "take_digits (dec n @ t) = (dec n, t)"
      using d t by (simp add: take_digits_def takeWhile_append dropWhile_append)
    with c d False show ?thesis by (simp add: num_int_def)
  qed
  moreover have "num_frac t = Some ([], t)" and "num_exp t = Some ([], t)"
    using assms by (auto simp: num_frac_def num_exp_def num_stop_def split: list.splits)
  ultimately show ?thesis by (simp add: num_unsigned_def)
qed

lemma json_num_itoa:
  assumes "num_stop t"
  shows "json_num (itoa i @ t) = Some (itoa i, t)"
proof (cases "i < 0")
  case True
  with assms show ?thesis by (simp add: json_num_def itoa_def num_unsigned_dec)
next
  case False
  obtain c r where c: "dec (nat i) = c # r" by (cases "dec (nat i)") auto
  then have "c \<noteq> CHR ''-''"
    using dec_char [of c "nat i"] by (auto simp: is_digit_def code_def)
  with False c num_unsigned_dec [OF assms, of "nat i"] show ?thesis
    by (simp add: json_num_def itoa_def)
qed

lemma itoa_head: "\<exists>c r. itoa i = c # r \<and> (is_digit c \<or> c = CHR ''-'')"
proof (cases "i < 0")
  case False
  obtain c r where c: "dec (nat i) = c # r" by (cases "dec (nat i)") auto
  then have "is_digit c" using dec_char [of c "nat i"] by simp
  with c False show ?thesis by (simp add: itoa_def)
qed (simp add: itoa_def)

section \<open>White space\<close>

lemma skip_ws_spaces: "list_all is_space ws \<Longrightarrow> skip_ws (ws @ s) = skip_ws s"
  by (simp add: skip_ws_def list_all_iff dropWhile_append2)

lemma skip_ws_token: "\<not> is_space c \<Longrightarrow> skip_ws (c # s) = c # s"
  by (simp add: skip_ws_def)

lemma expect_spaces: "list_all is_space ws \<Longrightarrow> expect c (ws @ s) = expect c s"
  by (simp add: expect_def skip_ws_spaces)

lemma expect_token: "\<not> is_space d \<Longrightarrow> expect c (d # s) = (if d = c then Some s else None)"
  by (simp add: expect_def skip_ws_token)

lemma parse_value_spaces: "list_all is_space ws \<Longrightarrow> parse_value n (ws @ s) = parse_value n s"
  by (cases n) (simp_all add: skip_ws_spaces)

lemma parse_elems_spaces: "list_all is_space ws \<Longrightarrow> parse_elems n (ws @ s) = parse_elems n s"
  by (cases n) (simp_all add: parse_value_spaces)

lemma parse_members_spaces: "list_all is_space ws \<Longrightarrow> parse_members n (ws @ s) = parse_members n s"
  by (cases n) (simp_all add: expect_spaces)

lemma punctuation:
  "\<not> is_space quot" "\<not> is_space (CHR '','')" "\<not> is_space (CHR '']'')" "\<not> is_space (CHR ''}'')"
  "\<not> is_space (CHR ''['')" "\<not> is_space (CHR ''{'')" "\<not> is_space (CHR '':'')"
  "\<not> is_space (CHR ''t'')" "\<not> is_space (CHR ''f'')" "\<not> is_space (CHR ''n'')"
  by (simp_all add: is_space_def)

lemma num_char_props:
  assumes "is_digit c \<or> c = CHR ''-''"
  shows "\<not> is_space c \<and> c \<noteq> quot \<and> c \<noteq> CHR ''{'' \<and> c \<noteq> CHR ''['' \<and> c \<noteq> CHR '']'' \<and>
    c \<noteq> CHR ''}'' \<and> c \<noteq> CHR ''t'' \<and> c \<noteq> CHR ''f'' \<and> c \<noteq> CHR ''n''"
  using assms by (auto simp: is_digit_def is_space_def code_def)

section \<open>Values\<close>

text \<open>The values whose print is their own text: integer literals and valid UTF-8 strings.\<close>

fun json_ok :: "json \<Rightarrow> bool"
  and elems_ok :: "json list \<Rightarrow> bool"
  and members_ok :: "(string \<times> json) list \<Rightarrow> bool" where
  "json_ok JNull = True"
| "json_ok (JBool b) = True"
| "json_ok (JNum l) = (\<exists>i. l = itoa i)"
| "json_ok (JStr s) = utf8_valid s"
| "json_ok (JArr vs) = elems_ok vs"
| "json_ok (JObj ms) = members_ok ms"
| "elems_ok [] = True"
| "elems_ok (v # vs) = (json_ok v \<and> elems_ok vs)"
| "members_ok [] = True"
| "members_ok ((k, v) # ms) = (utf8_valid k \<and> json_ok v \<and> members_ok ms)"

text \<open>The fuel the parser needs for a value.\<close>

fun weight :: "json \<Rightarrow> nat"
  and elems_weight :: "json list \<Rightarrow> nat"
  and members_weight :: "(string \<times> json) list \<Rightarrow> nat" where
  "weight JNull = 1"
| "weight (JBool b) = 1"
| "weight (JNum l) = 1"
| "weight (JStr s) = 1"
| "weight (JArr vs) = 1 + elems_weight vs"
| "weight (JObj ms) = 1 + members_weight ms"
| "elems_weight [] = 0"
| "elems_weight (v # vs) = 1 + weight v + elems_weight vs"
| "members_weight [] = 0"
| "members_weight ((k, v) # ms) = 1 + weight v + members_weight ms"

locale json_layout =
  fixes br :: "nat \<Rightarrow> string" and col :: string
  assumes br_space: "list_all is_space (br d)"
    and col_form: "\<exists>ws. col = CHR '':'' # ws \<and> list_all is_space ws"
begin

lemma emit_head:
  assumes "json_ok j"
  shows "\<exists>c r. emit br col d j = c # r \<and> \<not> is_space c \<and> c \<noteq> CHR '']'' \<and> c \<noteq> CHR ''}''"
proof (cases j)
  case (JNum l)
  with assms obtain i where "l = itoa i" by auto
  with itoa_head [of i] num_char_props JNum show ?thesis by fastforce
qed (auto simp: punctuation json_string_def)

lemma emit_members_head:
  assumes "ms \<noteq> []"
  shows "\<exists>r. emit_members br col d ms = br d @ quot # r"
  using assms by (cases ms) (auto simp: json_string_def)

lemma emit_length:
  "json_ok j \<Longrightarrow> weight j \<le> length (emit br col d j)"
  "elems_ok vs \<Longrightarrow> elems_weight vs \<le> length (emit_elems br col d vs) + 1"
  "members_ok ms \<Longrightarrow> members_weight ms \<le> length (emit_members br col d ms)"
proof (induction br col d j and br col d vs and br col d ms
    rule: emit_emit_elems_emit_members.induct)
  case (3 br col d l)
  then obtain i where i: "l = itoa i" by auto
  with itoa_head [of i] show ?case by auto
next
  case (8 br col d v vs)
  then show ?case by (cases vs) auto
next
  case (10 br col d k v ms)
  then show ?case by (cases ms) (auto simp: json_string_def)
qed (auto simp: json_string_def)

lemma expect_break: "expect c (br d @ s) = expect c s"
  by (rule expect_spaces) (rule br_space)

lemma num_stop_break: "\<not> is_space c \<Longrightarrow> num_stop (c # s) \<Longrightarrow> num_stop (br d @ c # s)"
proof (cases "br d")
  case (Cons x xs)
  with br_space [of d] have "is_space x" by simp
  with Cons show ?thesis by (auto simp: num_stop_def is_space_def is_digit_def code_def)
qed simp

lemma expect_elems: "elems_ok vs \<Longrightarrow> vs \<noteq> [] \<Longrightarrow> expect (CHR '']'') (emit_elems br col d vs @ s) = None"
  using emit_head [of "hd vs" d] by (cases vs) (auto simp: expect_break expect_token)

lemma expect_members: "ms \<noteq> [] \<Longrightarrow> expect (CHR ''}'') (emit_members br col d ms @ s) = None"
  using emit_members_head [of ms d] by (auto simp: expect_break expect_token punctuation)

lemma num_stop_tokens:
  "num_stop (CHR '','' # s)" "num_stop (br d @ CHR '']'' # s)" "num_stop (br d @ CHR ''}'' # s)"
  using num_stop_break [of "CHR '']''" s d] num_stop_break [of "CHR ''}''" s d]
  by (auto simp: num_stop_def punctuation is_digit_def code_def)

lemma parse_emit:
  "json_ok j \<Longrightarrow> weight j \<le> n \<Longrightarrow> num_stop t \<Longrightarrow> parse_value n (emit br col d j @ t) = Some (j, t)"
  "elems_ok vs \<Longrightarrow> vs \<noteq> [] \<Longrightarrow> elems_weight vs \<le> n \<Longrightarrow>
     parse_elems n (emit_elems br col d vs @ br e @ CHR '']'' # t) = Some (vs, t)"
  "members_ok ms \<Longrightarrow> ms \<noteq> [] \<Longrightarrow> members_weight ms \<le> n \<Longrightarrow>
     parse_members n (emit_members br col d ms @ br e @ CHR ''}'' # t) = Some (ms, t)"
proof (induction j and vs and ms arbitrary: n t d and n t d e and n t d e
    rule: json_ok_elems_ok_members_ok.induct)
  case 1
  then show ?case by (cases n) (auto simp: skip_ws_token punctuation has_prefix_def)
next
  case (2 b)
  then show ?case by (cases n) (auto simp: skip_ws_token punctuation has_prefix_def)
next
  case (3 l)
  then obtain i m where l: "l = itoa i" and n: "n = Suc m" by (cases n) auto
  obtain c r where c: "itoa i = c # r" "is_digit c \<or> c = CHR ''-''" using itoa_head by blast
  from num_char_props [OF c(2)] json_num_itoa [OF 3(3), of i] c(1) show ?case
    by (simp add: l n skip_ws_token)
next
  case (4 x)
  then obtain m where n: "n = Suc m" by (cases n) auto
  have "json_string x = quot # tl (json_string x)" by (simp add: json_string_def)
  with json_unbody_string [of x t] 4 show ?case
    by (simp add: n json_string_def skip_ws_token punctuation)
next
  case (5 vs)
  then obtain m where n: "n = Suc m" by (cases n) auto
  show ?case
  proof (cases "vs = []")
    case True
    then show ?thesis by (simp add: n skip_ws_token expect_token punctuation)
  next
    case False
    with 5 n have "parse_elems m (emit_elems br col (Suc d) vs @ br d @ CHR '']'' # t) = Some (vs, t)"
      by simp
    with False 5 n expect_elems [of vs "Suc d" "br d @ CHR '']'' # t"] show ?thesis
      by (simp add: skip_ws_token punctuation)
  qed
next
  case (6 ms)
  then obtain m where n: "n = Suc m" by (cases n) auto
  show ?case
  proof (cases "ms = []")
    case True
    then show ?thesis by (simp add: n skip_ws_token expect_token punctuation)
  next
    case False
    with 6 n have "parse_members m (emit_members br col (Suc d) ms @ br d @ CHR ''}'' # t) = Some (ms, t)"
      by simp
    with False 6 n expect_members [of ms "Suc d" "br d @ CHR ''}'' # t"] show ?thesis
      by (simp add: skip_ws_token punctuation)
  qed
next
  case 7
  then show ?case by simp
next
  case (8 v vs)
  then obtain m where n: "n = Suc m" by (cases n) auto
  show ?case
  proof (cases "vs = []")
    case True
    have "parse_value m (emit br col d v @ br e @ CHR '']'' # t) = Some (v, br e @ CHR '']'' # t)"
      using 8 n by (intro "8.IH"(1)) (auto simp: num_stop_tokens)
    with True show ?thesis
      by (simp add: n parse_value_spaces br_space expect_break expect_token punctuation)
  next
    case False
    let ?s = "CHR '','' # emit_elems br col d vs @ br e @ CHR '']'' # t"
    have "parse_value m (emit br col d v @ ?s) = Some (v, ?s)"
      using 8 n by (intro "8.IH"(1)) (auto simp: num_stop_tokens)
    moreover have "parse_elems m (emit_elems br col d vs @ br e @ CHR '']'' # t) = Some (vs, t)"
      using 8 n False by (intro "8.IH"(2)) auto
    ultimately show ?thesis using False
      by (simp add: n parse_value_spaces br_space expect_token punctuation)
  qed
next
  case 9
  then show ?case by simp
next
  case (10 k v ms)
  then obtain m where n: "n = Suc m" by (cases n) auto
  obtain ws where col: "col = CHR '':'' # ws" and ws: "list_all is_space ws" using col_form by blast
  have key: "expect quot (json_string k @ s) = Some (tl (json_string k) @ s)"
    "json_unbody (tl (json_string k) @ s) = Some (k, s)"
    "expect (CHR '':'') (col @ s) = Some (ws @ s)" for s
    using json_unbody_string [of k] 10
    by (simp_all add: expect_token punctuation json_string_def col)
  show ?case
  proof (cases "ms = []")
    case True
    have "parse_value m (emit br col d v @ br e @ CHR ''}'' # t) = Some (v, br e @ CHR ''}'' # t)"
      using 10 n by (intro "10.IH"(1)) (auto simp: num_stop_tokens)
    with True show ?thesis
      by (simp add: n key parse_value_spaces ws expect_break expect_token punctuation)
  next
    case False
    let ?s = "CHR '','' # emit_members br col d ms @ br e @ CHR ''}'' # t"
    have "parse_value m (emit br col d v @ ?s) = Some (v, ?s)"
      using 10 n by (intro "10.IH"(1)) (auto simp: num_stop_tokens)
    moreover have "parse_members m (emit_members br col d ms @ br e @ CHR ''}'' # t) = Some (ms, t)"
      using 10 n False by (intro "10.IH"(2)) auto
    ultimately show ?thesis using False
      by (simp add: n key parse_value_spaces ws expect_break expect_token punctuation)
  qed
qed

text \<open>The text of a value, also when white space follows, parses to the value.\<close>

lemma parse_printed:
  assumes "json_ok j" and "list_all is_space ws"
  shows "json_parse (emit br col 0 j @ ws) = Some j"
proof -
  have "num_stop ws"
    using assms(2) by (cases ws) (auto simp: num_stop_def is_space_def is_digit_def code_def)
  moreover have "weight j \<le> 2 * length (emit br col 0 j @ ws) + 2"
    using emit_length(1) [OF assms(1), of 0] by simp
  ultimately have "parse_value (2 * length (emit br col 0 j @ ws) + 2) (emit br col 0 j @ ws) = Some (j, ws)"
    using assms(1) by (intro parse_emit(1))
  moreover have "skip_ws ws = []" using skip_ws_spaces [OF assms(2), of "[]"] by (simp add: skip_ws_def)
  ultimately show ?thesis by (simp add: json_parse_def)
qed

end

interpretation compact: json_layout "\<lambda>d. []" "'':''"
  by unfold_locales (simp_all add: list_all_iff)

interpretation indented:
  json_layout "\<lambda>d. CHR 0x0A # replicate (2 * d) (CHR 0x20)" "[CHR '':'', CHR 0x20]"
  by unfold_locales (simp_all add: list_all_iff is_space_def)

lemma json_parse_marshal:
  "json_ok j \<Longrightarrow> list_all is_space ws \<Longrightarrow> json_parse (json_marshal j @ ws) = Some j"
  unfolding json_marshal_def by (rule compact.parse_printed)

lemma json_parse_marshal_indent:
  "json_ok j \<Longrightarrow> list_all is_space ws \<Longrightarrow> json_parse (json_marshal_indent j @ ws) = Some j"
  unfolding json_marshal_indent_def by (rule indented.parse_printed)

end
