(* ===== verification/Pki_Store.thy ===== *)
theory Pki_Store
  imports Os_Replace Go_Json_Rules
begin

text \<open>
  The durable serial counter of internal/pki/pki.go: the file \<open>state.json\<close>, its atomic
  replacement (\<open>writeStateAtomic\<close>), \<open>Store.Initialize\<close> and
  \<open>Store.NextSerial\<close>. The store's mutex makes every operation one step, so the model has
  no other concurrency.
\<close>

section \<open>Data\<close>

record Store =
  root :: path

record state =
  Version :: int
  NextSerial :: "64 word"

definition ErrAlreadyInitialized :: err where
  "ErrAlreadyInitialized = Sentinel ''PKI state already initialized''"

definition encode_state :: "state \<Rightarrow> json" where
  "encode_state v =
     JObj [(''version'', JNum (itoa (Version v))),
           (''next_serial'', JNum (dec (unat (NextSerial v))))]"

definition set_state_field :: "string \<Rightarrow> json \<Rightarrow> state \<Rightarrow> state option" where
  "set_state_field k v st =
     (if field_matches k ''version'' then
        (case v of
           JNull \<Rightarrow> Some st
         | JNum l \<Rightarrow> map_option (\<lambda>i. st\<lparr>Version := i\<rparr>) (parse_int64 l)
         | _ \<Rightarrow> None)
      else if field_matches k ''next_serial'' then
        (case v of
           JNull \<Rightarrow> Some st
         | JNum l \<Rightarrow> map_option (\<lambda>n. st\<lparr>NextSerial := of_nat n\<rparr>) (parse_uint64 l)
         | _ \<Rightarrow> None)
      else Some st)"

definition decode_state :: "string \<Rightarrow> state option" where
  "decode_state data =
     (case json_parse data of
        None \<Rightarrow> None
      | Some j \<Rightarrow> decode_struct set_state_field \<lparr>Version = 0, NextSerial = 0\<rparr> j)"

text \<open>The bytes of the file: the indented object and a line break.\<close>

definition state_bytes :: "state \<Rightarrow> string" where
  "state_bytes v = json_marshal_indent (encode_state v) @ [CHR 0x0A]"

section \<open>Reading and replacing the file\<close>

definition readState :: "path \<Rightarrow> state io" where
  "readState p =
     bindE (wrapE ''read state'' (os_read_file p)) (\<lambda>data.
       case decode_state data of
         None \<Rightarrow> throwE (Wrap ''decode state: '' (ErrText ''invalid JSON'') [])
       | Some value \<Rightarrow>
           if Version value \<noteq> 1 then
             throwE (ErrText (''unsupported state version '' @ itoa (Version value)))
           else returnE value)"

text \<open>Filling an open temporary file: mode, bytes, sync, close; closed again on an error.\<close>

definition fill_temp :: "path \<Rightarrow> string \<Rightarrow> string \<Rightarrow> unit io" where
  "fill_temp t data noun =
     bindE (onErrorE (file_close t) (wrapE (''secure '' @ noun) (os_chmod t mode_0600))) (\<lambda>_.
     bindE (onErrorE (file_close t) (wrapE (''write '' @ noun) (file_write t data))) (\<lambda>_.
     bindE (onErrorE (file_close t) (wrapE (''sync '' @ noun) (file_sync t))) (\<lambda>_.
     wrapE (''close '' @ noun) (file_close t))))"

definition writeStateAtomic :: "path \<Rightarrow> state \<Rightarrow> bool \<Rightarrow> unit io" where
  "writeStateAtomic p value exclusive =
     (let data = state_bytes value; dir = butlast p in
      bindE (wrapE ''create temporary state'' (os_create_temp dir ''.state-'' ''.tmp'')) (\<lambda>tempName.
      deferE (os_remove tempName) (
        bindE (fill_temp tempName data ''temporary state'') (\<lambda>_.
        bindE (if exclusive
               then require_absent p ErrAlreadyInitialized ''inspect destination state''
               else returnE ()) (\<lambda>_.
        bindE (wrapE ''publish state'' (os_rename tempName p)) (\<lambda>_.
        sync_dir dir ''open state directory'' ''sync state directory''))))))"

section \<open>The store\<close>

definition pki_dir :: "Store \<Rightarrow> path" where
  "pki_dir s = root s @ [''pki'']"

definition state_path :: "Store \<Rightarrow> path" where
  "state_path s = pki_dir s @ [''state.json'']"

definition Store_Initialize :: "Store \<Rightarrow> unit io" where
  "Store_Initialize s =
     bindE (require_absent (state_path s) ErrAlreadyInitialized ''inspect state'') (\<lambda>_.
     bindE (wrapE ''create PKI directory'' (os_mkdir_all (pki_dir s) mode_0700)) (\<lambda>_.
     bindE (wrapE ''secure PKI directory'' (os_chmod (pki_dir s) mode_0700)) (\<lambda>_.
     writeStateAtomic (state_path s) \<lparr>Version = 1, NextSerial = 1\<rparr> True)))"

definition Store_NextSerial :: "Store \<Rightarrow> 64 word io" where
  "Store_NextSerial s =
     bindE (readState (state_path s)) (\<lambda>current.
       let serial = NextSerial current in
       if serial = 0 \<or> serial = NOT 0 then
         throwE (ErrText ''serial counter is invalid or exhausted'')
       else
         bindE (writeStateAtomic (state_path s) (current\<lparr>NextSerial := NextSerial current + 1\<rparr>) False)
           (\<lambda>_. returnE serial))"

section \<open>Encoding\<close>

lemma encode_state_ok: "json_ok (encode_state v)"
proof -
  have "utf8_valid ''version''" "utf8_valid ''next_serial''"
    by (rule utf8_valid_ascii, simp add: code_def)+
  moreover have "\<exists>i. dec n = itoa i" for n
    by (rule exI [of _ "int n"]) (simp add: itoa_def)
  ultimately show ?thesis by (auto simp: encode_state_def)
qed

definition storable :: "state \<Rightarrow> bool" where
  "storable v \<longleftrightarrow> - (2 ^ 63) \<le> Version v \<and> Version v < 2 ^ 63"

lemma decode_state_bytes:
  assumes "storable v"
  shows "decode_state (state_bytes v) = Some v"
proof -
  have "json_parse (state_bytes v) = Some (encode_state v)"
    unfolding state_bytes_def
    by (rule json_parse_marshal_indent) (simp_all add: encode_state_ok is_space_def)
  moreover have m: "field_matches ''version'' ''version''"
    "\<not> field_matches ''next_serial'' ''version''" "field_matches ''next_serial'' ''next_serial''"
    by (simp_all add: field_matches_def is_lower_def code_def)
  moreover have "unat (NextSerial v) < 2 ^ 64" using unsigned_less [of "NextSerial v"] by simp
  ultimately show ?thesis
    using assms
    by (simp add: decode_state_def decode_struct_def encode_state_def set_state_field_def m
        parse_int64_itoa parse_uint64_dec storable_def)
qed

section \<open>Replacing the file\<close>

lemma changes_fill_temp [footprint]: "t \<in> A \<Longrightarrow> changes A (fill_temp t data noun)"
  unfolding fill_temp_def by (intro footprint)

lemma fill_temp_Inr:
  assumes "fill_temp t data noun w = (Inr u, w')" and t: "t \<noteq> []"
    and new: "at w t = Some (Regular m [])"
  shows "at w' = (at w)(t \<mapsto> Regular mode_0600 data)"
proof -
  from assms(1) obtain w1 w2 w3 where
    c: "os_chmod t mode_0600 w = (Inr (), w1)" and wr: "file_write t data w1 = (Inr (), w2)"
    and s: "file_sync t w2 = (Inr (), w3)" and cl: "file_close t w3 = (Inr u, w')"
    by (auto simp: fill_temp_def bindE_Inr)
  from os_chmod_Inr [OF c] new t have w1: "at w1 = (at w)(t \<mapsto> Regular mode_0600 [])" by auto
  with file_write_Inr [OF wr t] have "at w2 = (at w)(t \<mapsto> Regular mode_0600 data)" by auto
  then show ?thesis using file_sync_files [OF s] file_close_files [OF cl] by simp
qed

lemma writeStateAtomic_via_temp:
  "writeStateAtomic p v ex =
     via_temp ''create temporary state'' (butlast p) ''.state-'' ''.tmp''
      (\<lambda>t. bindE (fill_temp t (state_bytes v) ''temporary state'') (\<lambda>_.
        bindE (if ex then require_absent p ErrAlreadyInitialized ''inspect destination state''
               else returnE ()) (\<lambda>_.
        bindE (wrapE ''publish state'' (os_rename t p)) (\<lambda>_.
        sync_dir (butlast p) ''open state directory'' ''sync state directory''))))"
  by (simp add: writeStateAtomic_def via_temp_def Let_def)

lemma changes_writeStateAtomic [footprint]:
  assumes "scratch (butlast p) ''.state-'' ''.tmp'' \<subseteq> A" and "below p \<subseteq> A"
  shows "changes A (writeStateAtomic p v ex)"
  unfolding writeStateAtomic_via_temp
proof (rule changes_via_temp [OF assms(1)])
  fix t assume t: "temp_name (butlast p) ''.state-'' ''.tmp'' t"
  have "below t \<subseteq> A" and "t \<in> A" using below_scratch [OF t] assms(1) by auto
  with assms(2) show "changes A (bindE (fill_temp t (state_bytes v) ''temporary state'') (\<lambda>_.
      bindE (if ex then require_absent p ErrAlreadyInitialized ''inspect destination state'' else returnE ()) (\<lambda>_.
      bindE (wrapE ''publish state'' (os_rename t p)) (\<lambda>_.
      sync_dir (butlast p) ''open state directory'' ''sync state directory''))))"
    by (intro footprint)
qed

text \<open>
  Whatever fails, the file holds its old node or all of the new bytes; success means the new bytes
  are there.
\<close>

lemma writeStateAtomic_result:
  assumes "writeStateAtomic (d @ [c]) v ex w = (r, w')" and "\<not> prefix ''.state-'' c"
  shows "at w' (d @ [c]) = at w (d @ [c]) \<and> (\<forall>u. r \<noteq> Inr u) \<or>
    at w' (d @ [c]) = Some (Regular mode_0600 (state_bytes v))"
proof -
  have "changes {} (if ex then require_absent (d @ [c]) ErrAlreadyInitialized ''inspect destination state''
      else returnE ())"
    by (intro footprint)
  moreover have "changes {} (sync_dir d ''open state directory'' ''sync state directory'')"
    by (intro footprint)
  moreover have "changes {t} (fill_temp t (state_bytes v) ''temporary state'')" for t
    by (intro footprint) simp
  ultimately show ?thesis
    using via_temp_result [OF assms(1) [unfolded writeStateAtomic_via_temp butlast_snoc] assms(2)] fill_temp_Inr
    by blast
qed

section \<open>What the file holds\<close>

definition stored_state :: "Store \<Rightarrow> world \<Rightarrow> state option" where
  "stored_state s w =
     (case at w (state_path s) of
        None \<Rightarrow> None
      | Some n \<Rightarrow> (case node_data n of None \<Rightarrow> None | Some d \<Rightarrow> decode_state d))"

text \<open>The counter: the next serial of a readable state of version 1.\<close>

definition stored_serial :: "Store \<Rightarrow> world \<Rightarrow> 64 word option" where
  "stored_serial s w =
     (case stored_state s w of
        None \<Rightarrow> None
      | Some st \<Rightarrow> if Version st = 1 then Some (NextSerial st) else None)"

lemma stored_state_cong: "at w' (state_path s) = at w (state_path s) \<Longrightarrow> stored_state s w' = stored_state s w"
  by (simp add: stored_state_def)

lemma stored_serial_cong: "at w' (state_path s) = at w (state_path s) \<Longrightarrow> stored_serial s w' = stored_serial s w"
  using stored_state_cong [of w' s w] by (simp add: stored_serial_def)

lemma state_path_not_temp: "\<not> prefix ''.state-'' ''state.json''"
  by simp

lemma writeStateAtomic_stored:
  assumes "writeStateAtomic (state_path s) v ex w = (r, w')" and "storable v"
  shows "stored_state s w' = stored_state s w \<and> (\<forall>u. r \<noteq> Inr u) \<or> stored_state s w' = Some v"
  using writeStateAtomic_result [OF assms(1) [unfolded state_path_def] state_path_not_temp]
    decode_state_bytes [OF assms(2)]
  by (auto simp: stored_state_def state_path_def)

lemma readState_Inr:
  assumes "readState (state_path s) w = (Inr st, w')"
  shows "stored_state s w = Some st" and "Version st = 1" and "files w' = files w"
proof -
  from assms obtain d v where rd: "os_read_file (state_path s) w = (Inr d, v)"
    and k: "(case decode_state d of
         None \<Rightarrow> throwE (Wrap ''decode state: '' (ErrText ''invalid JSON'') [])
       | Some value \<Rightarrow>
           if Version value \<noteq> 1 then
             throwE (ErrText (''unsupported state version '' @ itoa (Version value)))
           else returnE value) v = (Inr st, w')"
    unfolding readState_def bindE_Inr wrapE_Inr by blast
  have d: "decode_state d = Some st \<and> Version st = 1 \<and> w' = v"
  proof (cases "decode_state d")
    case None
    with k show ?thesis by simp
  next
    case (Some x)
    with k show ?thesis by (cases "Version x = 1") simp_all
  qed
  from os_read_file_Inr [OF rd] d show "stored_state s w = Some st" and "files w' = files w"
    by (auto simp: stored_state_def)
  from d show "Version st = 1" by simp
qed

lemma changes_readState [footprint]: "changes A (readState p)"
  unfolding readState_def by (intro footprint)

lemma readState_files:
  assumes "readState p w = (r, w')"
  shows "files w' = files w"
proof -
  obtain r1 w1 where rd: "os_read_file p w = (r1, w1)" by force
  with assms have "w' = w1"
    by (cases r1) (auto simp: readState_def bindE_def wrapE_def split: option.splits if_splits)
  with os_read_files(2) [OF rd] show ?thesis by simp
qed

section \<open>Contracts\<close>

text \<open>
  A value kept in a file that is replaced as a whole. Whatever sequence of replacements runs, and
  whichever of them fail, a reader finds the initial value or one that was written.
\<close>

fun put_all :: "('v \<Rightarrow> unit io) \<Rightarrow> 'v list \<Rightarrow> world \<Rightarrow> world" where
  "put_all put [] w = w"
| "put_all put (v # vs) w = put_all put vs (snd (put v w))"

locale atomic_file =
  fixes put :: "'v \<Rightarrow> unit io" and view :: "world \<Rightarrow> 'v option" and good :: "'v \<Rightarrow> bool"
  assumes put_result: "put v w = (r, w') \<Longrightarrow> good v \<Longrightarrow>
    view w' = view w \<and> (\<forall>u. r \<noteq> Inr u) \<or> view w' = Some v"
begin

lemma never_torn: "list_all good vs \<Longrightarrow> view (put_all put vs w) \<in> insert (view w) (Some ` set vs)"
proof (induction vs arbitrary: w)
  case (Cons v vs)
  obtain r w' where p: "put v w = (r, w')" by force
  with put_result [OF p] Cons.prems have "view w' \<in> {view w, Some v}" by auto
  moreover have "view (put_all put vs w') \<in> insert (view w') (Some ` set vs)"
    using Cons by simp
  ultimately show ?case using p by auto
qed simp

lemma put_then_view: "put v w = (Inr u, w') \<Longrightarrow> good v \<Longrightarrow> view w' = Some v"
  using put_result by blast

end

interpretation state_file: atomic_file
  "\<lambda>v. writeStateAtomic (state_path s) v ex" "stored_state s" storable for s ex
  by unfold_locales (rule writeStateAtomic_stored)

text \<open>
  A source of serial numbers: an operation that, when it succeeds, returns the counter and leaves
  it one higher, and when it fails leaves it where it was or one higher. Between two calls
  anything may happen that leaves the counter alone.
\<close>

fun draw_all :: "('w \<Rightarrow> (err + 64 word) \<times> 'w) \<Rightarrow> ('w \<Rightarrow> 'w) list \<Rightarrow> 'w \<Rightarrow> 64 word list" where
  "draw_all nxt [] w = []"
| "draw_all nxt (g # gs) w =
     (case nxt (g w) of
        (Inl e, w') \<Rightarrow> draw_all nxt gs w'
      | (Inr n, w') \<Rightarrow> n # draw_all nxt gs w')"

definition advanced :: "64 word option \<Rightarrow> 64 word option \<Rightarrow> bool" where
  "advanced c c' \<longleftrightarrow> (\<exists>n. c = Some n \<and> n \<noteq> 0 \<and> n \<noteq> NOT 0 \<and> c' = Some (n + 1))"

lemma word_step: "n \<noteq> NOT (0 :: 64 word) \<Longrightarrow> unat (n + 1) = unat n + 1"
proof -
  assume "n \<noteq> NOT 0"
  then have "1 + n \<noteq> 0" by (metis add.commute add_eq_0_iff2 bit.compl_zero)
  then show ?thesis using unatSuc [of n] by (simp add: add.commute)
qed

locale serial_source =
  fixes nxt :: "'w \<Rightarrow> (err + 64 word) \<times> 'w" and counter :: "'w \<Rightarrow> 64 word option"
  assumes next_ok: "nxt w = (Inr n, w') \<Longrightarrow> counter w = Some n \<and> advanced (counter w) (counter w')"
    and next_err: "nxt w = (Inl e, w') \<Longrightarrow>
      counter w' = counter w \<or> advanced (counter w) (counter w')"
begin

lemma drawn_above:
  "(\<And>g v. g \<in> set gs \<Longrightarrow> counter (g v) = counter v) \<Longrightarrow> counter w = Some c \<Longrightarrow>
     m \<in> set (draw_all nxt gs w) \<Longrightarrow> unat c \<le> unat m"
proof (induction gs arbitrary: w c)
  case (Cons g gs)
  obtain r w' where n: "nxt (g w) = (r, w')" by force
  have g: "counter (g w) = Some c" using Cons.prems by simp
  have step: "counter w' = Some c' \<Longrightarrow> unat c \<le> unat c' \<Longrightarrow> m \<in> set (draw_all nxt gs w') \<Longrightarrow>
      unat c \<le> unat m" for c'
    using Cons.IH [of w' c'] Cons.prems(1) by force
  show ?case
  proof (cases r)
    case (Inl e)
    with n Cons.prems(3) have m: "m \<in> set (draw_all nxt gs w')" by simp
    from next_err [OF n [unfolded Inl]] g consider "counter w' = Some c"
      | "counter w' = Some (c + 1)" "unat (c + 1) = unat c + 1"
      by (auto simp: advanced_def word_step)
    then show ?thesis using step m by cases auto
  next
    case (Inr k)
    with n Cons.prems(3) have m: "m = k \<or> m \<in> set (draw_all nxt gs w')" by auto
    from next_ok [OF n [unfolded Inr]] g have "k = c" "counter w' = Some (c + 1)"
      "unat (c + 1) = unat c + 1"
      by (auto simp: advanced_def word_step)
    with step m show ?thesis by auto
  qed
qed simp

lemma strictly_increasing:
  "(\<And>g v. g \<in> set gs \<Longrightarrow> counter (g v) = counter v) \<Longrightarrow> sorted_wrt (<) (draw_all nxt gs w)"
proof (induction gs arbitrary: w)
  case (Cons g gs)
  obtain r w' where n: "nxt (g w) = (r, w')" by force
  have rest: "sorted_wrt (<) (draw_all nxt gs w')" using Cons by simp
  show ?case
  proof (cases r)
    case (Inl e)
    with n rest show ?thesis by simp
  next
    case (Inr k)
    from next_ok [OF n [unfolded Inr]] have "counter w' = Some (k + 1)"
      and "unat (k + 1) = unat k + 1"
      by (auto simp: advanced_def word_step)
    then have "k < m" if "m \<in> set (draw_all nxt gs w')" for m
      using drawn_above [of gs w' "k + 1" m] that Cons.prems by (force simp: word_less_nat_alt)
    with n rest Inr show ?thesis by simp
  qed
qed simp

end

lemma NextSerial_result:
  assumes "Store_NextSerial s w = (r, w')"
  shows "(\<exists>e. r = Inl e) \<and> stored_serial s w' = stored_serial s w \<or>
    advanced (stored_serial s w) (stored_serial s w') \<and> (\<forall>n. r = Inr n \<longrightarrow> stored_serial s w = Some n)"
proof -
  obtain r1 w1 where rd: "readState (state_path s) w = (r1, w1)" by force
  note f = readState_files [OF rd]
  show ?thesis
  proof (cases r1)
    case (Inl e)
    with assms rd f show ?thesis
      by (auto simp: Store_NextSerial_def bindE_def intro: stored_serial_cong)
  next
    case (Inr st)
    note st = readState_Inr [OF rd [unfolded Inr]]
    have ser: "stored_serial s w = Some (NextSerial st)" using st by (simp add: stored_serial_def)
    show ?thesis
    proof (cases "NextSerial st = 0 \<or> NextSerial st = NOT 0")
      case True
      with assms rd Inr f show ?thesis
        by (auto simp: Store_NextSerial_def Let_def bindE_def throwE_def intro: stored_serial_cong)
    next
      case False
      let ?v = "st\<lparr>NextSerial := NextSerial st + 1\<rparr>"
      obtain r2 w2 where wr: "writeStateAtomic (state_path s) ?v False w1 = (r2, w2)" by force
      have "storable ?v" using st(2) by (simp add: storable_def)
      from writeStateAtomic_stored [OF wr this] f st(1) stored_state_cong [of w1 s w]
      have "stored_state s w2 = Some st \<and> (\<forall>u. r2 \<noteq> Inr u) \<or> stored_state s w2 = Some ?v" by simp
      moreover have "w' = w2" "r = (case r2 of Inl e \<Rightarrow> Inl e | Inr u \<Rightarrow> Inr (NextSerial st))"
        using assms rd Inr False wr
        by (auto simp: Store_NextSerial_def Let_def bindE_def returnE_def split: sum.splits)
      ultimately show ?thesis
        using ser False st by (cases r2) (auto simp: stored_serial_def advanced_def)
    qed
  qed
qed

interpretation store_serials: serial_source "Store_NextSerial s" "stored_serial s" for s
  by unfold_locales (auto dest: NextSerial_result)


section \<open>Initialisation\<close>

lemma Initialize_existing:
  assumes "Store_Initialize s w = (r, w')" and "stat (files w) (state_path s) = Inr n"
  shows "(\<exists>e. r = Inl e) \<and> files w' = files w"
proof -
  obtain r1 w1 where ra: "require_absent (state_path s) ErrAlreadyInitialized ''inspect state'' w = (r1, w1)"
    by force
  have "r1 \<noteq> Inr u" for u
    using require_absent_Inr [of "state_path s" ErrAlreadyInitialized "''inspect state''" w u w1]
      assms(2) ra by auto
  then obtain e where e: "r1 = Inl e" by (cases r1) auto
  with require_absent_files [OF ra] ra assms(1) show ?thesis
    by (auto simp: Store_Initialize_def bindE_def)
qed

lemma Initialize_Inr:
  assumes "Store_Initialize s w = (Inr u, w')"
  shows "at w' (state_path s) = Some (Regular mode_0600 (state_bytes \<lparr>Version = 1, NextSerial = 1\<rparr>))"
    and "at w' (pki_dir s) = Some (Directory mode_0700)"
proof -
  let ?v = "\<lparr>Version = 1, NextSerial = 1\<rparr>"
  from assms obtain w1 w2 w3 where mk: "os_mkdir_all (pki_dir s) mode_0700 w1 = (Inr (), w2)"
    and ch: "os_chmod (pki_dir s) mode_0700 w2 = (Inr (), w3)"
    and wr: "writeStateAtomic (state_path s) ?v True w3 = (Inr u, w')"
    by (auto simp: Store_Initialize_def bindE_Inr)
  from writeStateAtomic_result [OF wr [unfolded state_path_def] state_path_not_temp]
  show "at w' (state_path s) = Some (Regular mode_0600 (state_bytes ?v))"
    by (auto simp: state_path_def)
  have ne: "pki_dir s \<noteq> []" by (simp add: pki_dir_def)
  from os_chmod_Inr [OF ch] ne obtain n where n: "at w2 (pki_dir s) = Some n"
    and w3: "at w3 (pki_dir s) = Some (with_mode mode_0700 n)" by auto
  have "changes (scratch (pki_dir s) ''.state-'' ''.tmp'' \<union> below (state_path s))
      (writeStateAtomic (state_path s) ?v True)"
    by (rule changes_writeStateAtomic) (auto simp: state_path_def)
  from changesD [OF this wr, of "pki_dir s"] w3
  have last: "at w' (pki_dir s) = Some (with_mode mode_0700 n)"
    by (auto simp: state_path_def dest: scratch_inside)
  moreover have "is_directory n"
    using os_mkdir_all_Inr [OF mk, of "pki_dir s"] n by (auto simp: dir_at_def)
  ultimately show "at w' (pki_dir s) = Some (Directory mode_0700)" by (cases n) auto
qed

section \<open>Properties\<close>


text \<open>C6. Replacing the state file, whatever call fails in it: a reader finds the old state or
  the new one, the new one if no error was reported, and nothing but the file and the temporary
  names of its directory has changed.\<close>

theorem state_replacement_is_atomic:
  assumes "writeStateAtomic (state_path s) v ex w = (r, w')" and "storable v"
  shows "(stored_state s w' = stored_state s w \<or> stored_state s w' = Some v) \<and>
    (r = Inr () \<longrightarrow> stored_state s w' = Some v) \<and>
    (\<forall>p. p \<notin> scratch (pki_dir s) ''.state-'' ''.tmp'' \<union> below (state_path s) \<longrightarrow> at w' p = at w p)"
proof (intro conjI allI impI)
  fix p assume p: "p \<notin> scratch (pki_dir s) ''.state-'' ''.tmp'' \<union> below (state_path s)"
  have "changes (scratch (pki_dir s) ''.state-'' ''.tmp'' \<union> below (state_path s))
      (writeStateAtomic (state_path s) v ex)"
    by (rule changes_writeStateAtomic) (auto simp: state_path_def)
  from changesD [OF this assms(1) p] show "at w' p = at w p" .
qed (use state_file.put_result [OF assms] in auto)

text \<open>A data directory right after its initialisation, for the examples.\<close>

definition demo_store :: Store where
  "demo_store = \<lparr>root = [''data'']\<rparr>"

definition demo_state :: string where
  "demo_state = state_bytes \<lparr>Version = 1, NextSerial = 7\<rparr>"

definition demo_world :: world where
  "demo_world = \<lparr>files =
      [([''data''], Directory mode_0700), ([''data'', ''pki''], Directory mode_0700),
       ([''data'', ''pki'', ''state.json''], Regular mode_0600 demo_state)],
     faults = [], rand = (\<lambda>i. i), umask = 18\<rparr>"

theorem state_replacement_is_atomic_witness:
  "stored_state demo_store (snd (writeStateAtomic (state_path demo_store)
     \<lparr>Version = 1, NextSerial = 8\<rparr> False demo_world)) = Some \<lparr>Version = 1, NextSerial = 8\<rparr>"
proof -
  let ?v = "\<lparr>Version = 1, NextSerial = 8\<rparr>"
  have "storable ?v" by (simp add: storable_def)
  moreover have "fst (writeStateAtomic (state_path demo_store) ?v False demo_world) = Inr ()"
    by code_simp
  ultimately show ?thesis
    using state_replacement_is_atomic [of demo_store ?v False demo_world] by (metis prod.collapse)
qed

text \<open>C5. Serial numbers never repeat: over any run of \<open>NextSerial\<close> calls, failing ones
  included, with anything in between that leaves the counter alone, the numbers handed out are
  strictly increasing.\<close>

theorem serials_strictly_increase:
  assumes "\<And>g v. g \<in> set gs \<Longrightarrow> stored_serial s (g v) = stored_serial s v"
  shows "sorted_wrt (<) (draw_all (Store_NextSerial s) gs w)"
  using assms by (rule store_serials.strictly_increasing)

theorem serials_strictly_increase_witness:
  "sorted_wrt (<) (draw_all (Store_NextSerial demo_store) [id, id, id] demo_world) \<and>
   draw_all (Store_NextSerial demo_store) [id, id, id] demo_world = [7, 8, 9]"
proof
  show "sorted_wrt (<) (draw_all (Store_NextSerial demo_store) [id, id, id] demo_world)"
    by (rule serials_strictly_increase) auto
  show "draw_all (Store_NextSerial demo_store) [id, id, id] demo_world = [7, 8, 9]" by code_simp
qed

text \<open>\<open>NextSerial\<close> on every branch: it returns the counter it found, never 0 and
  never the largest value, and stores the successor; when it fails the counter is unchanged or one
  further, so a number is lost at worst and never handed out twice.\<close>

theorem next_serial_branches:
  assumes "Store_NextSerial s w = (r, w')"
  shows "case r of
      Inr n \<Rightarrow> stored_serial s w = Some n \<and> n \<noteq> 0 \<and> n \<noteq> NOT 0 \<and> stored_serial s w' = Some (n + 1)
    | Inl e \<Rightarrow> stored_serial s w' = stored_serial s w \<or>
        (\<exists>n. stored_serial s w = Some n \<and> n \<noteq> NOT 0 \<and> stored_serial s w' = Some (n + 1))"
  using NextSerial_result [OF assms] by (cases r) (auto simp: advanced_def)

theorem next_serial_branches_witness:
  "stored_serial demo_store (snd (Store_NextSerial demo_store demo_world)) = Some 8"
proof -
  have r: "fst (Store_NextSerial demo_store demo_world) = Inr 7" by code_simp
  obtain w' where "Store_NextSerial demo_store demo_world = (Inr 7, w')"
    using r by (cases "Store_NextSerial demo_store demo_world") auto
  with next_serial_branches [OF this] show ?thesis by simp
qed

text \<open>C20. Initialisation happens once: with a state in place it fails and changes no file; when
  it succeeds the counter stands at 1, the file is readable by its owner only and so is the
  directory.\<close>

theorem initialize_once:
  assumes "Store_Initialize s w = (r, w')"
  shows "(stat (files w) (state_path s) = Inr n \<longrightarrow> (\<exists>e. r = Inl e) \<and> files w' = files w) \<and>
    (r = Inr () \<longrightarrow> stored_serial s w' = Some 1 \<and>
       at w' (state_path s) = Some (Regular mode_0600 (state_bytes \<lparr>Version = 1, NextSerial = 1\<rparr>)) \<and>
       at w' (pki_dir s) = Some (Directory mode_0700))"
proof (intro conjI impI)
  assume "r = Inr ()"
  with assms have i: "Store_Initialize s w = (Inr (), w')" by simp
  have "decode_state (state_bytes \<lparr>Version = 1, NextSerial = 1\<rparr>) = Some \<lparr>Version = 1, NextSerial = 1\<rparr>"
    by (rule decode_state_bytes) (simp add: storable_def)
  with Initialize_Inr(1) [OF i] show "stored_serial s w' = Some 1"
    by (simp add: stored_serial_def stored_state_def)
  from Initialize_Inr [OF i]
  show "at w' (state_path s) = Some (Regular mode_0600 (state_bytes \<lparr>Version = 1, NextSerial = 1\<rparr>))"
    and "at w' (pki_dir s) = Some (Directory mode_0700)" by auto
qed (use Initialize_existing [OF assms] in auto)

theorem initialize_once_witness:
  "fst (Store_Initialize demo_store demo_world) = Inl ErrAlreadyInitialized \<and>
   files (snd (Store_Initialize demo_store demo_world)) = files demo_world \<and>
   stored_serial demo_store (snd (Store_Initialize demo_store (demo_world\<lparr>files := []\<rparr>))) = Some 1"
proof (intro conjI)
  show "fst (Store_Initialize demo_store demo_world) = Inl ErrAlreadyInitialized" by code_simp
  have "stat (files demo_world) (state_path demo_store) = Inr (Regular mode_0600 demo_state)"
    by code_simp
  with initialize_once [of demo_store demo_world, OF prod.collapse [symmetric]]
  show "files (snd (Store_Initialize demo_store demo_world)) = files demo_world" by blast
  have "fst (Store_Initialize demo_store (demo_world\<lparr>files := []\<rparr>)) = Inr ()" by code_simp
  with initialize_once [of demo_store "demo_world\<lparr>files := []\<rparr>", OF prod.collapse [symmetric]]
  show "stored_serial demo_store (snd (Store_Initialize demo_store (demo_world\<lparr>files := []\<rparr>))) = Some 1"
    by blast
qed

end
