(* ===== verification/Go_Net.thy ===== *)
theory Go_Net
  imports Go_Text "HOL-Library.Word"
begin

text \<open>
  Package \<open>net\<close>: an \<open>IP\<close> is its bytes, the nil slice the empty list; \<open>To4\<close>,
  \<open>To16\<close> and \<open>String\<close>.
\<close>

type_synonym ip = "8 word list"

definition ip_to16_ok :: "ip \<Rightarrow> bool" where
  "ip_to16_ok a \<longleftrightarrow> length a = 4 \<or> length a = 16"

definition ip_to4 :: "ip \<Rightarrow> ip option" where
  "ip_to4 a =
     (if length a = 4 then Some a
      else if length a = 16 \<and> take 12 a = replicate 10 0 @ [255, 255] then Some (drop 12 a)
      else None)"

text \<open>The eight 16-bit groups of an IPv6 address.\<close>

fun ip_groups :: "ip \<Rightarrow> nat list" where
  "ip_groups (a # b # r) = (256 * unat a + unat b) # ip_groups r"
| "ip_groups r = []"

text \<open>The first longest run of at least two zero groups, as its bounds; \<open>(255, 255)\<close> if none.\<close>

definition zero_run :: "nat list \<Rightarrow> nat \<times> nat" where
  "zero_run gs =
     foldl (\<lambda>(s, e) i. let l = length (takeWhile (\<lambda>g. g = 0) (drop i gs)) in
              if 2 \<le> l \<and> e - s < l then (i, i + l) else (s, e))
       (255, 255) [0..<8]"

definition ip6_string :: "nat list \<Rightarrow> string" where
  "ip6_string gs =
     (case zero_run gs of (s, e) \<Rightarrow>
        if s = 255 then join_with '':'' (map hex gs)
        else join_with '':'' (map hex (take s gs)) @ ''::'' @ join_with '':'' (map hex (drop e gs)))"

definition ip_string :: "ip \<Rightarrow> string" where
  "ip_string a =
     (if a = [] then ''<nil>''
      else if \<not> ip_to16_ok a then ''?'' @ concat (map (\<lambda>b. hex_byte (char_of (unat b))) a)
      else (case ip_to4 a of
          Some q \<Rightarrow> join_with ''.'' (map (\<lambda>b. dec (unat b)) q)
        | None \<Rightarrow> ip6_string (ip_groups a)))"

text \<open>The text of a valid address is made of hexadecimal digits, dots and colons.\<close>

definition ip_char :: "char \<Rightarrow> bool" where
  "ip_char c \<longleftrightarrow> is_hex c \<or> c = CHR ''.'' \<or> c = CHR '':''"

lemma set_join_with: "set (join_with sep xs) \<subseteq> set sep \<union> (\<Union>x \<in> set xs. set x)"
  by (induction sep xs rule: join_with.induct) auto

lemma ip_string_chars:
  assumes "ip_to16_ok a" and "c \<in> set (ip_string a)"
  shows "ip_char c"
proof -
  have hex: "x \<in> set (hex n) \<Longrightarrow> ip_char x" for x n
    using hex_chars [of n] by (auto simp: ip_char_def list_all_iff)
  have dec: "x \<in> set (dec n) \<Longrightarrow> ip_char x" for x n
    using dec_char by (auto simp: ip_char_def is_hex_def)
  have hexs: "x \<in> set (join_with '':'' (map hex gs)) \<Longrightarrow> ip_char x" for x gs
    using set_join_with [of "'':''" "map hex gs"] hex by (auto simp: ip_char_def)
  have decs: "x \<in> set (join_with ''.'' (map (\<lambda>b. dec (unat b)) q)) \<Longrightarrow> ip_char x"
    for x and q :: "8 word list"
    using set_join_with [of "''.''" "map (\<lambda>b. dec (unat b)) q"] dec by (auto simp: ip_char_def)
  from assms show ?thesis
    by (auto simp: ip_string_def ip_to16_ok_def ip6_string_def ip_char_def
        dest: hexs decs split: option.splits prod.splits if_splits)
qed

lemma ip_string_example4: "ip_string [192, 0, 2, 20] = ''192.0.2.20''"
  by code_simp

end
