(* ===== verification/Pki_Request.thy ===== *)
theory Pki_Request
  imports Io_Monad Go_Net
begin

text \<open>
  Certificate requests: \<open>Request\<close>, \<open>ValidateRequest\<close> and \<open>validDNSName\<close> of
  internal/pki/pki.go, \<open>CertificateKind\<close> and \<open>BuildExtensionConfig\<close> of
  internal/pki/profile.go. The lemmas characterise the accepted names by a grammar and show that
  the generated OpenSSL configuration has exactly the intended lines, so that no accepted value
  can add a line or a section of its own.
\<close>

section \<open>Data\<close>

record Request =
  Name :: string
  CommonName :: string
  DNSNames :: "string list"
  IPAddresses :: "ip list"
  ValidDays :: int

section \<open>Validation\<close>

text \<open>The regular expression \<open>^[A-Za-z0-9][A-Za-z0-9._-]{0,63}$\<close>.\<close>

definition safe_name_char :: "char \<Rightarrow> bool" where
  "safe_name_char c \<longleftrightarrow> is_alnum c \<or> c = CHR ''.'' \<or> c = CHR ''_'' \<or> c = CHR ''-''"

definition safeName :: "string \<Rightarrow> bool" where
  "safeName s =
     (case s of [] \<Rightarrow> False
      | c # cs \<Rightarrow> is_alnum c \<and> length cs \<le> 63 \<and> list_all safe_name_char cs)"

text \<open>The bytes a subject may not contain: NUL, CR, LF, slash, backslash and the equals sign.\<close>

definition subject_unsafe :: "char list" where
  "subject_unsafe =
     [CHR 0x00, CHR 0x0D, CHR 0x0A, CHR ''/'', CHR 0x5C, CHR ''='']"

definition dns_char :: "char \<Rightarrow> bool" where
  "dns_char c \<longleftrightarrow> is_alnum c \<or> c = CHR ''-''"

definition valid_label :: "string \<Rightarrow> bool" where
  "valid_label l \<longleftrightarrow>
     \<not> (l = [] \<or> 63 < length l \<or> hd l = CHR ''-'' \<or> last l = CHR ''-'') \<and> list_all dns_char l"

definition validDNSName :: "string \<Rightarrow> bool" where
  "validDNSName name =
     (if name = [] \<or> 253 < length name \<or> has_suffix name ''.'' then False
      else list_all valid_label
        (split_on (CHR ''.'') (if has_prefix name ''*.'' then drop 2 name else name)))"

fun check_dns_names :: "string list \<Rightarrow> err option" where
  "check_dns_names [] = None"
| "check_dns_names (n # ns) =
     (if \<not> validDNSName n then Some (ErrText (''DNS name '' @ go_quote n @ '' is invalid''))
      else check_dns_names ns)"

text \<open>\<open>None\<close> is the nil error.\<close>

definition ValidateRequest :: "Request \<Rightarrow> err option" where
  "ValidateRequest req =
     (if \<not> safeName (Name req) \<or> Name req = ''.'' \<or> Name req = ''..'' then
        Some (ErrText ''name must be 1-64 safe filename characters'')
      else if CommonName req = [] \<or> 253 < length (CommonName req)
              \<or> contains_any (CommonName req) subject_unsafe then
        Some (ErrText ''common name is empty, too long, or unsafe'')
      else case check_dns_names (DNSNames req) of
        Some e \<Rightarrow> Some e
      | None \<Rightarrow>
          if list_ex (\<lambda>a. \<not> ip_to16_ok a) (IPAddresses req) then
            Some (ErrText ''IP address is invalid'')
          else if ValidDays req < 1 \<or> 825 < ValidDays req then
            Some (ErrText ''validity must be between 1 and 825 days'')
          else None)"

section \<open>Extension profiles\<close>

type_synonym CertificateKind = string

definition KindRSA :: CertificateKind where "KindRSA = ''rsa-server''"
definition KindTLCPSign :: CertificateKind where "KindTLCPSign = ''tlcp-sign''"
definition KindTLCPEnc :: CertificateKind where "KindTLCPEnc = ''tlcp-enc''"

definition keyUsage :: "CertificateKind \<Rightarrow> string option" where
  "keyUsage kind =
     (if kind = KindRSA then Some ''digitalSignature,keyEncipherment''
      else if kind = KindTLCPSign then Some ''digitalSignature''
      else if kind = KindTLCPEnc then Some ''keyEncipherment,dataEncipherment,keyAgreement''
      else None)"

abbreviation nl :: string where "nl \<equiv> [CHR 0x0A]"

text \<open>The numbered lines of the section of alternative names, from \<open>i\<close> on.\<close>

fun alt_lines :: "string \<Rightarrow> nat \<Rightarrow> string list \<Rightarrow> string" where
  "alt_lines key i [] = []"
| "alt_lines key i (v # vs) = key @ ''.'' @ dec i @ ''='' @ v @ nl @ alt_lines key (i + 1) vs"

definition BuildExtensionConfig :: "Request \<Rightarrow> CertificateKind \<Rightarrow> err + string" where
  "BuildExtensionConfig req kind =
     (case ValidateRequest req of
        Some e \<Rightarrow> Inl e
      | None \<Rightarrow> (case keyUsage kind of
          None \<Rightarrow> Inl (ErrText (''unknown certificate kind '' @ go_quote kind))
        | Some usage \<Rightarrow> Inr (
            ''[req]'' @ nl @
            ''distinguished_name=req_dn'' @ nl @
            ''prompt=no'' @ nl @ nl @
            ''[req_dn]'' @ nl @ nl @
            ''[server_cert]'' @ nl @
            ''basicConstraints=critical,CA:FALSE'' @ nl @
            ''subjectKeyIdentifier=hash'' @ nl @
            ''authorityKeyIdentifier=keyid,issuer'' @ nl @
            ''keyUsage=critical,'' @ usage @ nl @
            ''extendedKeyUsage=serverAuth'' @ nl @
            (if 0 < length (DNSNames req) + length (IPAddresses req) then
               ''subjectAltName=@alt_names'' @ nl @ nl @ ''[alt_names]'' @ nl @
               alt_lines ''DNS'' 1 (DNSNames req) @
               alt_lines ''IP'' 1 (map ip_string (IPAddresses req))
             else []))))"

section \<open>Safe names\<close>

lemma safe_name_chars: "safeName s \<Longrightarrow> c \<in> set s \<Longrightarrow> safe_name_char c"
  by (auto simp: safeName_def safe_name_char_def list_all_iff split: list.splits)

lemma safe_name_char_slash: "\<not> safe_name_char (CHR ''/'')"
  by (simp add: safe_name_char_def char_class_defs)

lemma safe_name_head: "safeName s \<Longrightarrow> \<exists>c cs. s = c # cs \<and> is_alnum c"
  by (auto simp: safeName_def split: list.splits)

lemma not_alnum: "\<not> is_alnum (CHR ''.'')" "\<not> is_alnum (CHR ''*'')" "\<not> is_alnum (CHR ''-'')"
  by (simp_all add: char_class_defs)

lemma safe_name_not_hidden: "safeName s \<Longrightarrow> \<not> prefix (CHR ''.'' # p) s"
  using not_alnum by (auto dest: safe_name_head)

lemma safe_name_plain: "safeName s \<Longrightarrow> plain_segment s"
  using safe_name_chars [of s "CHR ''/''"] safe_name_char_slash not_alnum
  by (auto simp: plain_segment_def dest: safe_name_head)

lemma validate_None:
  "ValidateRequest req = None \<longleftrightarrow>
     safeName (Name req) \<and> CommonName req \<noteq> [] \<and> length (CommonName req) \<le> 253 \<and>
     \<not> contains_any (CommonName req) subject_unsafe \<and>
     list_all validDNSName (DNSNames req) \<and> list_all ip_to16_ok (IPAddresses req) \<and>
     1 \<le> ValidDays req \<and> ValidDays req \<le> 825"
proof -
  have dns: "check_dns_names ns = None \<longleftrightarrow> list_all validDNSName ns" for ns
    by (induction ns) auto
  have dots: "safeName (Name req) \<Longrightarrow> Name req \<noteq> ''.'' \<and> Name req \<noteq> ''..''"
    using safe_name_plain by (auto simp: plain_segment_def)
  have ips: "list_ex (\<lambda>a. \<not> ip_to16_ok a) xs \<longleftrightarrow> \<not> list_all ip_to16_ok xs" for xs
    by (auto simp: list_ex_iff list_all_iff)
  show ?thesis
    using dots by (auto simp: ValidateRequest_def dns [symmetric] ips split: option.splits if_splits)
qed

section \<open>Domain names\<close>

text \<open>
  The language of accepted names, written as a grammar of its own, without the functions of the
  code: a label is a letter or digit, or begins and ends with one and has letters, digits and
  hyphens between; a name is a list of labels joined by dots, with an optional wildcard in front.
\<close>

definition let_digs :: "char list" where
  "let_digs = ''ABCDEFGHIJKLMNOPQRSTUVWXYZabcdefghijklmnopqrstuvwxyz0123456789''"

definition dns_label :: "string \<Rightarrow> bool" where
  "dns_label l \<longleftrightarrow> length l \<le> 63 \<and>
     ((\<exists>a. l = [a] \<and> a \<in> set let_digs) \<or>
      (\<exists>a m z. l = a # m @ [z] \<and> a \<in> set let_digs \<and> z \<in> set let_digs \<and>
         set m \<subseteq> set (CHR ''-'' # let_digs)))"

definition dns_grammar :: "string \<Rightarrow> bool" where
  "dns_grammar name \<longleftrightarrow> length name \<le> 253 \<and>
     (\<exists>labels. labels \<noteq> [] \<and> (\<forall>l \<in> set labels. dns_label l) \<and>
        (name = join_with ''.'' labels \<or> name = ''*.'' @ join_with ''.'' labels))"

lemma let_digs_codes: "let_digs = map char_of ([65..<91] @ [97..<123] @ [48..<58 :: nat])"
  by code_simp

lemma is_alnum_iff: "is_alnum c \<longleftrightarrow> c \<in> set let_digs"
proof -
  have codes: "set let_digs = char_of ` ({65..<91} \<union> {97..<123} \<union> {48..<58 :: nat})"
    unfolding let_digs_codes by (simp only: set_map set_append set_upt Un_assoc)
  have "is_alnum c \<longleftrightarrow> code c \<in> {65..<91} \<union> {97..<123} \<union> {48..<58}"
    by (auto simp: char_class_defs)
  also have "\<dots> \<longleftrightarrow> c \<in> char_of ` ({65..<91} \<union> {97..<123} \<union> {48..<58 :: nat})"
  proof
    assume "code c \<in> {65..<91} \<union> {97..<123} \<union> {48..<58}"
    moreover have "c = char_of (code c)" by (simp add: code_def)
    ultimately show "c \<in> char_of ` ({65..<91} \<union> {97..<123} \<union> {48..<58 :: nat})" by (rule rev_image_eqI)
  next
    assume "c \<in> char_of ` ({65..<91} \<union> {97..<123} \<union> {48..<58 :: nat})"
    then obtain n :: nat where "c = char_of n" and n: "n \<in> {65..<91} \<union> {97..<123} \<union> {48..<58}" by blast
    then have "code c = n" by (auto simp: code_def)
    with n show "code c \<in> {65..<91} \<union> {97..<123} \<union> {48..<58}" by simp
  qed
  finally show ?thesis by (simp only: codes)
qed

lemma valid_label_iff: "valid_label l \<longleftrightarrow> dns_label l"
proof
  assume v: "valid_label l"
  then have c: "c \<in> set (CHR ''-'' # let_digs)" if "c \<in> set l" for c
    using that by (auto simp: valid_label_def list_all_iff dns_char_def is_alnum_iff)
  obtain a t where l: "l = a # t" using v by (cases l) (auto simp: valid_label_def)
  with v c [of a] have a: "a \<in> set let_digs" by (auto simp: valid_label_def)
  show "dns_label l"
  proof (cases t rule: rev_cases)
    case Nil
    with l a v show ?thesis by (simp add: dns_label_def)
  next
    case (snoc m z)
    with v l have "length l \<le> 63" and "z \<noteq> CHR ''-''" by (auto simp: valid_label_def)
    moreover have "z \<in> set let_digs" and "set m \<subseteq> set (CHR ''-'' # let_digs)"
      using c [of z] c snoc l \<open>z \<noteq> CHR ''-''\<close> by auto
    ultimately show ?thesis using a l snoc unfolding dns_label_def by blast
  qed
next
  assume "dns_label l"
  moreover have "CHR ''-'' \<notin> set let_digs" by (simp add: let_digs_def)
  ultimately show "valid_label l"
    by (auto simp: dns_label_def valid_label_def list_all_iff dns_char_def is_alnum_iff)
qed

lemma dns_grammar_iff:
  "dns_grammar name \<longleftrightarrow> length name \<le> 253 \<and>
     (\<exists>labels. labels \<noteq> [] \<and> list_all valid_label labels \<and>
        (name = join_with ''.'' labels \<or> name = ''*.'' @ join_with ''.'' labels))"
  by (simp add: dns_grammar_def valid_label_iff list_all_iff)

lemma valid_label_no_dot: "valid_label l \<Longrightarrow> CHR ''.'' \<notin> set l"
  by (auto simp: valid_label_def list_all_iff dns_char_def not_alnum)

lemma valid_label_no_star: "valid_label l \<Longrightarrow> CHR ''*'' \<notin> set l"
  by (auto simp: valid_label_def list_all_iff dns_char_def not_alnum)

lemma join_labels_last:
  "labels \<noteq> [] \<Longrightarrow> list_all valid_label labels \<Longrightarrow>
     join_with ''.'' labels \<noteq> [] \<and> last (join_with ''.'' labels) \<noteq> CHR ''.''"
proof (induction labels rule: induct_list012)
  case (2 l)
  then show ?case
    using valid_label_no_dot [of l] by (auto simp: valid_label_def) (metis last_in_set)
qed auto

lemma join_labels_head:
  assumes "labels \<noteq> []" and "list_all valid_label labels"
  shows "\<not> has_prefix (join_with ''.'' labels) ''*.''"
proof -
  obtain l ls where l: "labels = l # ls" using assms(1) by (cases labels) auto
  then have "l \<noteq> []" and "CHR ''*'' \<notin> set l"
    using assms(2) valid_label_no_star [of l] by (auto simp: valid_label_def)
  then obtain c cs where "l = c # cs" and "c \<noteq> CHR ''*''" by (cases l) auto
  with l show ?thesis by (cases ls) (auto simp: has_prefix_def)
qed

lemma has_suffix_dot: "s \<noteq> [] \<Longrightarrow> has_suffix s ''.'' \<longleftrightarrow> last s = CHR ''.''"
  by (auto simp: has_suffix_iff suffix_def) (metis append_butlast_last_id)

lemma validDNSName_grammar: "validDNSName name \<longleftrightarrow> dns_grammar name"
proof
  assume v: "validDNSName name"
  define body where "body = (if has_prefix name ''*.'' then drop 2 name else name)"
  from v have "length name \<le> 253" and "list_all valid_label (split_on (CHR ''.'') body)"
    by (auto simp: validDNSName_def body_def split: if_splits)
  moreover have "name = body \<or> name = ''*.'' @ body"
    by (auto simp: body_def has_prefix_iff prefix_def)
  moreover have "body = join_with ''.'' (split_on (CHR ''.'') body)" by simp
  ultimately show "dns_grammar name"
    unfolding dns_grammar_iff by (metis split_on_nonempty)
next
  assume "dns_grammar name"
  then obtain labels where len: "length name \<le> 253" and ne: "labels \<noteq> []"
    and v: "list_all valid_label labels"
    and n: "name = join_with ''.'' labels \<or> name = ''*.'' @ join_with ''.'' labels"
    by (auto simp: dns_grammar_iff)
  let ?j = "join_with ''.'' labels"
  have split: "split_on (CHR ''.'') ?j = labels"
    using ne v by (intro split_join) (auto simp: list_all_iff valid_label_no_dot)
  have j: "?j \<noteq> []" "last ?j \<noteq> CHR ''.''" using join_labels_last [OF ne v] by auto
  have drop: "(if has_prefix name ''*.'' then drop 2 name else name) = ?j"
    using n join_labels_head [OF ne v] by (auto simp: has_prefix_def)
  have "name \<noteq> []" and "last name \<noteq> CHR ''.''" using n j by auto
  with len split v drop show "validDNSName name"
    by (simp add: validDNSName_def has_suffix_dot)
qed

lemma valid_dns_chars:
  assumes "validDNSName n" and "c \<in> set n"
  shows "dns_char c \<or> c = CHR ''.'' \<or> c = CHR ''*''"
proof -
  from assms(1) obtain labels where v: "list_all valid_label labels"
    and n: "n = join_with ''.'' labels \<or> n = ''*.'' @ join_with ''.'' labels"
    by (auto simp: validDNSName_grammar dns_grammar_iff)
  have "set (join_with ''.'' labels) \<subseteq> {CHR ''.''} \<union> (\<Union>l \<in> set labels. set l)"
    using set_join_with [of "''.''" labels] by simp
  moreover have "dns_char d" if "l \<in> set labels" and "d \<in> set l" for l d
    using v that by (auto simp: list_all_iff valid_label_def)
  ultimately show ?thesis using n assms(2) by auto
qed

section \<open>The generated configuration\<close>

text \<open>
  A reader of the configuration format: the entries of the sections named \<open>sec\<close>, from the
  lines of a text.
\<close>

fun ini_section :: "string \<Rightarrow> bool \<Rightarrow> string list \<Rightarrow> (string \<times> string) list" where
  "ini_section sec inside [] = []"
| "ini_section sec inside (l # ls) =
     (if l = [] then ini_section sec inside ls
      else if hd l = CHR ''['' then ini_section sec (l = ''['' @ sec @ '']'') ls
      else if inside then
        (hd (split_on (CHR ''='') l), join_with ''='' (tl (split_on (CHR ''='') l)))
          # ini_section sec inside ls
      else ini_section sec inside ls)"

definition config_section :: "string \<Rightarrow> string \<Rightarrow> (string \<times> string) list" where
  "config_section sec cfg = ini_section sec False (split_on (CHR 0x0A) cfg)"

text \<open>The entries \<open>key.i = v\<close> the alternative names should become.\<close>

fun numbered :: "string \<Rightarrow> nat \<Rightarrow> string list \<Rightarrow> (string \<times> string) list" where
  "numbered key i [] = []"
| "numbered key i (v # vs) = (key @ ''.'' @ dec i, v) # numbered key (i + 1) vs"

definition entry_line :: "string \<times> string \<Rightarrow> string" where
  "entry_line e = fst e @ ''='' @ snd e"

definition plain_value :: "string \<Rightarrow> bool" where
  "plain_value v \<longleftrightarrow> CHR 0x0A \<notin> set v"

lemma split_alt_lines:
  assumes "CHR 0x0A \<notin> set key" and "list_all plain_value vs"
  shows "split_on (CHR 0x0A) (alt_lines key i vs @ s) =
    map entry_line (numbered key i vs) @ split_on (CHR 0x0A) s"
  using assms(2)
proof (induction vs arbitrary: i)
  case (Cons v vs)
  have "CHR 0x0A \<notin> set (dec i)"
    using dec_char [of "CHR 0x0A" i] by (auto simp: char_class_defs)
  with Cons assms(1) have "CHR 0x0A \<notin> set (key @ ''.'' @ dec i @ ''='' @ v)"
    by (simp add: plain_value_def)
  from split_on_append_sep [OF this] Cons show ?case by (simp add: entry_line_def)
qed simp

lemma ini_numbered:
  assumes "key \<noteq> []" and "hd key \<noteq> CHR ''[''" and "CHR ''='' \<notin> set key"
  shows "ini_section sec True (map entry_line (numbered key i vs) @ ls) =
    numbered key i vs @ ini_section sec True ls"
proof (induction vs arbitrary: i)
  case (Cons v vs)
  let ?k = "key @ ''.'' @ dec i"
  have "CHR ''='' \<notin> set ?k"
    using assms(3) dec_char [of "CHR ''=''" i] by (auto simp: char_class_defs)
  then have "split_on (CHR ''='') (?k @ CHR ''='' # v) = ?k # split_on (CHR ''='') v"
    by (rule split_on_append_sep)
  moreover have "hd (?k @ s) = hd key" "?k @ s \<noteq> []" for s using assms(1) by auto
  ultimately show ?case using Cons assms(2) by (simp add: entry_line_def)
qed simp

text \<open>The entries of the certificate section, and the alternative names of a request.\<close>

definition server_cert_entries :: "string \<Rightarrow> bool \<Rightarrow> (string \<times> string) list" where
  "server_cert_entries usage sans =
     [(''basicConstraints'', ''critical,CA:FALSE''), (''subjectKeyIdentifier'', ''hash''),
      (''authorityKeyIdentifier'', ''keyid,issuer''), (''keyUsage'', ''critical,'' @ usage),
      (''extendedKeyUsage'', ''serverAuth'')] @
     (if sans then [(''subjectAltName'', ''@alt_names'')] else [])"

definition san_entries :: "Request \<Rightarrow> (string \<times> string) list" where
  "san_entries req =
     numbered ''DNS'' 1 (DNSNames req) @ numbered ''IP'' 1 (map ip_string (IPAddresses req))"

lemma keyUsage_plain: "keyUsage kind = Some u \<Longrightarrow> CHR 0x0A \<notin> set u \<and> CHR ''='' \<notin> set u"
  by (auto simp: keyUsage_def split: if_splits)

lemma valid_dns_plain: "list_all validDNSName ns \<Longrightarrow> list_all plain_value ns"
  using valid_dns_chars [of _ "CHR 0x0A"]
  by (force simp: list_all_iff plain_value_def dns_char_def char_class_defs)

lemma ip_string_plain: "list_all ip_to16_ok ips \<Longrightarrow> list_all plain_value (map ip_string ips)"
  using ip_string_chars [of _ "CHR 0x0A"]
  by (force simp: list_all_iff plain_value_def ip_char_def is_hex_def char_class_defs)

lemma split_line: "CHR 0x0A \<notin> set l \<Longrightarrow> split_on (CHR 0x0A) (l @ CHR 0x0A # s) = l # split_on (CHR 0x0A) s"
  by (rule split_on_append_sep)

lemma BuildExtensionConfig_Inr:
  assumes "BuildExtensionConfig req kind = Inr cfg"
  obtains u where "ValidateRequest req = None" and "keyUsage kind = Some u"
  using assms by (auto simp: BuildExtensionConfig_def split: option.splits)

lemma config_lines:
  assumes cfg: "BuildExtensionConfig req kind = Inr cfg" and u: "keyUsage kind = Some u"
  shows "split_on (CHR 0x0A) cfg =
    [''[req]'', ''distinguished_name=req_dn'', ''prompt=no'', [], ''[req_dn]'', [], ''[server_cert]''] @
    map entry_line (server_cert_entries u (san_entries req \<noteq> [])) @
    (if san_entries req \<noteq> [] then [[], ''[alt_names]''] @ map entry_line (san_entries req) else []) @
    [[]]"
proof -
  from cfg have v: "ValidateRequest req = None" by (rule BuildExtensionConfig_Inr)
  then have dns: "list_all plain_value (DNSNames req)"
    and ips: "list_all plain_value (map ip_string (IPAddresses req))"
    by (simp_all add: validate_None valid_dns_plain ip_string_plain)
  have sans: "0 < length (DNSNames req) + length (IPAddresses req) \<longleftrightarrow> san_entries req \<noteq> []"
    by (cases "DNSNames req"; cases "IPAddresses req") (auto simp: san_entries_def)
  have alt: "split_on (CHR 0x0A) (alt_lines ''DNS'' 1 (DNSNames req) @
      alt_lines ''IP'' 1 (map ip_string (IPAddresses req))) =
    map entry_line (san_entries req) @ [[]]"
    using split_alt_lines [of "''IP''" _ 1 "[]"] split_alt_lines [of "''DNS''", OF _ dns] ips
    by (simp add: san_entries_def)
  have usage: "CHR 0x0A \<notin> set (''keyUsage=critical,'' @ u)"
    using keyUsage_plain [OF u] by simp
  note shape = cfg [unfolded BuildExtensionConfig_def v option.case u sum.inject sans, symmetric]
  show ?thesis
  proof (cases "san_entries req = []")
    case True
    show ?thesis
      unfolding shape server_cert_entries_def append_assoc
      using split_line [OF usage]
      by (simp add: split_line True entry_line_def)
  next
    case False
    show ?thesis
      unfolding shape server_cert_entries_def append_assoc
      using split_line [OF usage] alt
      by (simp add: split_line False entry_line_def)
  qed
qed

section \<open>Properties\<close>

text \<open>C25. \<open>validDNSName\<close> accepts exactly the names of the grammar: at most 253 bytes,
  dot-separated labels of 1 to 63 letters, digits and inner hyphens, optionally after a wildcard
  label \<open>*.\<close>.\<close>

theorem dns_names_are_the_grammar: "validDNSName name \<longleftrightarrow> dns_grammar name"
  by (rule validDNSName_grammar)

text \<open>C24. The configuration of an accepted request reads back as it was meant: the section of
  alternative names holds the requested names and addresses, numbered from 1, and the certificate
  section the profile of its kind, with nothing added by a value of the request.\<close>

theorem extension_config_reads_back:
  assumes "BuildExtensionConfig req kind = Inr cfg"
  shows "config_section ''alt_names'' cfg = san_entries req \<and>
    (\<exists>usage. keyUsage kind = Some usage \<and>
       config_section ''server_cert'' cfg = server_cert_entries usage (san_entries req \<noteq> []))"
proof -
  from assms obtain u where u: "keyUsage kind = Some u" by (rule BuildExtensionConfig_Inr)
  have "CHR ''='' \<notin> set u" using keyUsage_plain [OF u] by simp
  then have usage: "split_on (CHR ''='') u = [u]" by (rule split_on_none)
  have sans: "ini_section ''alt_names'' True (map entry_line (san_entries req) @ [[]]) = san_entries req"
    by (simp add: san_entries_def ini_numbered)
  have "ini_section sec False (map entry_line es @ ls) = ini_section sec False ls"
    if "list_all (\<lambda>e. fst e \<noteq> [] \<and> hd (fst e) \<noteq> CHR ''['') es" for sec es ls
    using that by (induction es) (auto simp: entry_line_def)
  note skip = this
  have "list_all (\<lambda>e. fst e \<noteq> [] \<and> hd (fst e) \<noteq> CHR ''['') (numbered ''DNS'' i vs @ numbered ''IP'' j ws)"
    for i j vs ws
  proof -
    have "list_all (\<lambda>e. fst e \<noteq> [] \<and> hd (fst e) \<noteq> CHR ''['') (numbered (c # k) i vs)"
      if "c \<noteq> CHR ''[''" for c k i vs
      using that by (induction vs arbitrary: i) auto
    then show ?thesis by simp
  qed
  then have other: "ini_section ''server_cert'' False (map entry_line (san_entries req) @ [[]]) = []"
    by (simp add: skip san_entries_def)
  show ?thesis
    using config_lines [OF assms u] u usage sans other
    by (auto simp: config_section_def server_cert_entries_def entry_line_def)
qed


text \<open>A request with every kind of alternative name, for the examples.\<close>

definition demo_request :: Request where
  "demo_request = \<lparr>Name = ''web-1'', CommonName = ''web.example'',
     DNSNames = [''web.example'', ''*.web.example''], IPAddresses = [[192, 0, 2, 20]],
     ValidDays = 365\<rparr>"

theorem extension_config_reads_back_witness:
  "\<exists>cfg. BuildExtensionConfig demo_request KindTLCPSign = Inr cfg \<and>
     config_section ''alt_names'' cfg =
       [(''DNS.1'', ''web.example''), (''DNS.2'', ''*.web.example''), (''IP.1'', ''192.0.2.20'')] \<and>
     (\<exists>usage. keyUsage KindTLCPSign = Some usage \<and>
        config_section ''server_cert'' cfg = server_cert_entries usage True)"
proof -
  obtain cfg where cfg: "BuildExtensionConfig demo_request KindTLCPSign = Inr cfg"
  proof -
    have "case BuildExtensionConfig demo_request KindTLCPSign of Inl e \<Rightarrow> False | Inr c \<Rightarrow> True"
      by code_simp
    then show thesis using that by (auto split: sum.splits)
  qed
  moreover have "san_entries demo_request =
    [(''DNS.1'', ''web.example''), (''DNS.2'', ''*.web.example''), (''IP.1'', ''192.0.2.20'')]"
    by code_simp
  ultimately show ?thesis using extension_config_reads_back [OF cfg] by auto
qed

text \<open>C26. The name of an accepted request is one component of a path, whatever directory it is
  joined to: it cannot climb, descend, or take the place of a hidden name, which all temporary
  directories have.\<close>

theorem accepted_names_are_one_component:
  assumes "ValidateRequest req = None"
  shows "join_path p (Name req) = p @ [Name req] \<and> (\<forall>s. Name req \<noteq> CHR ''.'' # s) \<and>
    length (Name req) \<le> 64 \<and> (\<forall>c \<in> set (Name req). safe_name_char c)"
proof -
  from assms have safe: "safeName (Name req)" by (simp add: validate_None)
  then have "length (Name req) \<le> 64" by (auto simp: safeName_def split: list.splits)
  with safe safe_name_plain [OF safe] safe_name_not_hidden [OF safe, of "[]"] safe_name_chars [OF safe]
  show ?thesis by auto
qed

theorem accepted_names_are_one_component_witness:
  "join_path [''data'', ''pki'', ''issued''] (Name demo_request) =
     [''data'', ''pki'', ''issued'', ''web-1'']"
proof -
  have "ValidateRequest demo_request = None" by code_simp
  from accepted_names_are_one_component [OF this, of "[''data'', ''pki'', ''issued'']"]
  show ?thesis by (simp add: demo_request_def)
qed

end
