(* ===== verification/Pki_Runner.thy ===== *)
theory Pki_Runner
  imports Io_Monad
begin

text \<open>
  The command runner of internal/pki/runner.go: the output buffer, \<open>CommandRunner.Run\<close>
  and the interface \<open>Runner\<close> the engine calls. Running a process is a parameter
  (\<open>exec\<close>): it gives what the process wrote, what became of the two contexts and of the
  process, and the world it leaves.
\<close>

section \<open>The interface\<close>

text \<open>
  An argument of a command: text, or a path the code has built with \<open>filepath.Join\<close>; the
  command line holds its string either way. A runner gives its output and its error, nil being
  \<open>None\<close>.
\<close>

datatype arg = Lit string | Pth path

fun arg_str :: "arg \<Rightarrow> string" where
  "arg_str (Lit s) = s"
| "arg_str (Pth p) = path_str p"

type_synonym Runner = "arg list \<Rightarrow> world \<Rightarrow> (string \<times> err option) \<times> world"

section \<open>The output buffer\<close>

abbreviation maxCommandOutput :: nat where "maxCommandOutput \<equiv> 65536"

text \<open>\<open>Write\<close> on the buffer: the count it reports, and the buffer it leaves.\<close>

definition capped_Write :: "string \<Rightarrow> string \<Rightarrow> nat \<times> string" where
  "capped_Write b p =
     (let original = length p; remaining = int maxCommandOutput - int (length b) in
      if 0 < remaining then
        (original, b @ (if remaining < int (length p) then take (nat remaining) p else p))
      else (original, b))"

text \<open>
  The buffer embeds \<open>bytes.Buffer\<close>, so beside its own \<open>Write\<close> it has every other
  method of that type, \<open>ReadFrom\<close> among them, which appends what a reader gives up to its
  end. \<open>os/exec\<close> fills the two outputs of a process with \<open>io.Copy\<close>, which calls
  \<open>ReadFrom\<close> of a destination that has it and \<open>Write\<close> only of one that has not. A
  destination is given by its two methods; a reader by the pieces it gives.
\<close>

fun buffer_ReadFrom :: "string \<Rightarrow> string list \<Rightarrow> string" where
  "buffer_ReadFrom b [] = b"
| "buffer_ReadFrom b (p # ps) = buffer_ReadFrom (b @ p) ps"

record writer =
  write_method :: "string \<Rightarrow> string \<Rightarrow> nat \<times> string"
  read_from :: "(string \<Rightarrow> string list \<Rightarrow> string) option"

fun io_Copy :: "writer \<Rightarrow> string \<Rightarrow> string list \<Rightarrow> string" where
  "io_Copy d b ps =
     (case read_from d of
        Some rf \<Rightarrow> rf b ps
      | None \<Rightarrow> foldl (\<lambda>b p. snd (write_method d b p)) b ps)"

definition cappedBuffer :: writer where
  "cappedBuffer = \<lparr>write_method = capped_Write, read_from = Some buffer_ReadFrom\<rparr>"

text \<open>What is in \<open>output\<close> when the process has written \<open>chunks\<close>.\<close>

definition command_output :: "string list \<Rightarrow> string" where
  "command_output chunks = io_Copy cappedBuffer [] chunks"

section \<open>Running a command\<close>

text \<open>
  A run of a process: the pieces it wrote to its two outputs in their order, whether the deadline
  of the derived context has passed (\<open>timed.Err()\<close>), the error of the caller's context
  (\<open>ctx.Err()\<close>), and the error of \<open>cmd.Run\<close>.
\<close>

record exec_result =
  Chunks :: "string list"
  DeadlineExceeded :: bool
  CtxErr :: "err option"
  RunErr :: "err option"

text \<open>Executable, arguments, environment and time limit of a process.\<close>

type_synonym exec = "string \<Rightarrow> string list \<Rightarrow> string list \<Rightarrow> int \<Rightarrow> world \<Rightarrow> exec_result \<times> world"

record CommandRunner =
  Executable :: string
  Timeout :: int
  Env :: "string list"

definition ErrCommandTimeout :: err where
  "ErrCommandTimeout = Sentinel ''cryptographic command timed out''"

definition CommandRunner_Run :: "exec \<Rightarrow> string list \<Rightarrow> CommandRunner \<Rightarrow> Runner" where
  "CommandRunner_Run exec environ r args w =
     (if Executable r = [] then
        (([], Some (ErrText ''cryptographic executable is not configured'')), w)
      else if Timeout r \<le> 0 then
        (([], Some (ErrText ''cryptographic command timeout must be positive'')), w)
      else (case exec (Executable r) (map arg_str args) (environ @ Env r) (Timeout r) w of (x, w') \<Rightarrow>
        let output = command_output (Chunks x) in
        if DeadlineExceeded x \<and> CtxErr x = None then ((output, Some ErrCommandTimeout), w')
        else (case CtxErr x of
            Some e \<Rightarrow> ((output, Some e), w')
          | None \<Rightarrow> (case RunErr x of
              Some e \<Rightarrow>
                ((output, Some (Wrap ''cryptographic command failed: '' e ('': '' @ output))), w')
            | None \<Rightarrow> ((output, None), w')))))"

text \<open>The runner as the engine uses it: the error decides.\<close>

definition runE :: "Runner \<Rightarrow> arg list \<Rightarrow> string io" where
  "runE r args w =
     (case r args w of ((out, None), w') \<Rightarrow> (Inr out, w') | ((out, Some e), w') \<Rightarrow> (Inl e, w'))"

lemma runE_Inr: "runE r args w = (Inr out, w') \<longleftrightarrow> r args w = ((out, None), w')"
  by (auto simp: runE_def split: prod.splits option.splits)

lemma runE_world: "runE r args w = (s, w') \<Longrightarrow> \<exists>res. r args w = (res, w')"
  by (auto simp: runE_def split: prod.splits option.splits)

lemma capped_Write_snd: "snd (capped_Write b p) = b @ take (maxCommandOutput - length b) p"
  by (auto simp: capped_Write_def Let_def nat_diff_distrib)

lemma capped_writes:
  "length b \<le> maxCommandOutput \<Longrightarrow>
     foldl (\<lambda>b p. snd (capped_Write b p)) b chunks = take maxCommandOutput (b @ concat chunks)"
proof (induction chunks arbitrary: b)
  case (Cons p chunks)
  let ?b = "b @ take (maxCommandOutput - length b) p"
  have "length ?b \<le> maxCommandOutput" using Cons.prems by simp
  from Cons.IH [OF this] Cons.prems show ?case
    by (cases "length p \<le> maxCommandOutput - length b") (auto simp: capped_Write_snd)
qed simp

lemma buffer_ReadFrom_eq: "buffer_ReadFrom b ps = b @ concat ps"
  by (induction b ps rule: buffer_ReadFrom.induct) auto

lemma command_output_eq: "command_output chunks = concat chunks"
  by (simp add: command_output_def cappedBuffer_def buffer_ReadFrom_eq)

section \<open>Properties\<close>

text \<open>C33. The limit of the buffer and its effect. Through \<open>Write\<close> the buffer accepts every piece
  in full and keeps exactly the first 64 KiB, however the output is cut into pieces; but that is
  not the way the output of a process takes: what \<open>Run\<close> returns of a process it has started
  is everything the process wrote, whatever its length.\<close>

theorem output_passes_the_cap:
  "fst (capped_Write b p) = length p \<and>
   foldl (\<lambda>b p. snd (capped_Write b p)) [] chunks = take maxCommandOutput (concat chunks) \<and>
   (Executable r \<noteq> [] \<and> 0 < Timeout r \<longrightarrow>
      fst (fst (CommandRunner_Run exec environ r args w)) =
        concat (Chunks (fst (exec (Executable r) (map arg_str args) (environ @ Env r) (Timeout r) w))))"
  using capped_writes [of "[]" chunks]
  by (simp add: capped_Write_def Let_def CommandRunner_Run_def command_output_eq split: prod.split option.split)

text \<open>A process that writes one byte more than the limit, and one that outruns its time limit after
  some output.\<close>

definition talkative_exec :: exec where
  "talkative_exec executable args env limit w =
     (\<lparr>Chunks = [replicate maxCommandOutput CHR ''x'', ''y''], DeadlineExceeded = False, CtxErr = None,
       RunErr = None\<rparr>, w)"

definition demo_exec :: exec where
  "demo_exec executable args env limit w =
     (\<lparr>Chunks = [''working'', ''.''], DeadlineExceeded = limit < 100, CtxErr = None,
       RunErr = (if limit < 100 then Some (ExecErr ''signal: killed'') else None)\<rparr>, w)"

theorem output_passes_the_cap_witness:
  "\<forall>w. maxCommandOutput < length (fst (fst (CommandRunner_Run talkative_exec []
     \<lparr>Executable = ''openssl'', Timeout = 25, Env = []\<rparr> [Lit ''help''] w)))"
  using output_passes_the_cap [of "[]" "[]" "[]" "\<lparr>Executable = ''openssl'', Timeout = 25, Env = []\<rparr>"
    talkative_exec "[]" "[Lit ''help'']"]
  by (simp add: talkative_exec_def)

text \<open>C29. The outcome of a run: an unusable configuration starts no process; a passed deadline is
  \<open>ErrCommandTimeout\<close> unless the caller has cancelled, whose error comes first; any other
  failure wraps the error of the process and ends with its output; success returns the output, and
  only when nothing went wrong. The output returned is all the process has written.\<close>

theorem run_outcome:
  "CommandRunner_Run exec environ r args w = ((out, e), w') \<longleftrightarrow>
     (if Executable r = [] \<or> Timeout r \<le> 0 then
        out = [] \<and> w' = w \<and>
        e = Some (ErrText (if Executable r = [] then ''cryptographic executable is not configured''
          else ''cryptographic command timeout must be positive''))
      else
        \<exists>x. exec (Executable r) (map arg_str args) (environ @ Env r) (Timeout r) w = (x, w') \<and>
          out = concat (Chunks x) \<and>
          (e = None \<longleftrightarrow> \<not> DeadlineExceeded x \<and> CtxErr x = None \<and> RunErr x = None) \<and>
          (CtxErr x \<noteq> None \<longrightarrow> e = CtxErr x) \<and>
          (CtxErr x = None \<and> DeadlineExceeded x \<longrightarrow> e = Some ErrCommandTimeout) \<and>
          (\<forall>c. CtxErr x = None \<and> \<not> DeadlineExceeded x \<and> RunErr x = Some c \<longrightarrow>
             e = Some (Wrap ''cryptographic command failed: '' c ('': '' @ out))))"
  by (auto simp: CommandRunner_Run_def command_output_eq Let_def split: prod.splits option.splits)

theorem run_outcome_witness:
  "\<forall>w. CommandRunner_Run demo_exec [] \<lparr>Executable = ''openssl'', Timeout = 25, Env = []\<rparr> [Lit ''sleep''] w =
     ((''working.'', Some ErrCommandTimeout), w)"
proof
  fix w
  let ?r = "\<lparr>Executable = ''openssl'', Timeout = 25, Env = []\<rparr>"
  obtain out e w' where run: "CommandRunner_Run demo_exec [] ?r [Lit ''sleep''] w = ((out, e), w')"
    by (metis prod.collapse)
  with run_outcome [of demo_exec "[]" ?r "[Lit ''sleep'']" w out e w'] show "CommandRunner_Run demo_exec [] ?r [Lit ''sleep''] w =
      ((''working.'', Some ErrCommandTimeout), w)"
    by (simp add: demo_exec_def)
qed

end
