(* ===== verification/Pki_Engine.thy ===== *)
theory Pki_Engine
  imports Pki_Store Pki_Request Pki_Runner
begin

text \<open>
  The certificate engine of internal/pki/engine.go: its data, the command lines it builds and its
  operations. The engine's mutex makes every operation one step. The proofs about them are in the
  theories that import this one.
\<close>

section \<open>Data\<close>

record Engine =
  store :: Store
  runner :: Runner
  passphrase :: bool

record Bundle =
  CertificatePath :: path
  KeyPath :: path
  Serial :: "64 word"

record TLCPBundle =
  Signing :: Bundle
  Encryption :: Bundle

record caFiles =
  cert :: path
  key :: path

definition NewEngine :: "Store \<Rightarrow> Runner \<Rightarrow> Engine" where
  "NewEngine s r = \<lparr>store = s, runner = r, passphrase = False\<rparr>"

text \<open>The runner handed to the engine: a \<open>CommandRunner\<close> or some other implementation.\<close>

datatype any_runner = Command CommandRunner | Other Runner

definition passphrase_var :: string where
  "passphrase_var = ''CERTARIUM_CA_PASSPHRASE=''"

definition NewEngineWithPassphrase ::
    "exec \<Rightarrow> string list \<Rightarrow> Store \<Rightarrow> any_runner \<Rightarrow> string \<Rightarrow> Engine" where
  "NewEngineWithPassphrase exec environ s r pass =
     \<lparr>store = s,
      runner = (case r of
          Command c \<Rightarrow>
            CommandRunner_Run exec environ
              (c\<lparr>Env := filter (\<lambda>v. \<not> has_prefix v passphrase_var) (Env c) @ [passphrase_var @ pass]\<rparr>)
        | Other f \<Rightarrow> f),
      passphrase = pass \<noteq> []\<rparr>"

section \<open>Names and command lines\<close>

abbreviation engine_pki :: "Engine \<Rightarrow> path" where
  "engine_pki e \<equiv> pki_dir (store e)"

definition issued_dir :: "Engine \<Rightarrow> path" where
  "issued_dir e = engine_pki e @ [''issued'']"

definition caPaths :: "Engine \<Rightarrow> string \<Rightarrow> caFiles" where
  "caPaths e kind =
     (let dir = engine_pki e @ [''ca'', kind] in
      \<lparr>cert = dir @ [''root-ca.crt''], key = dir @ [''root-ca.key'']\<rparr>)"

definition withPassin :: "Engine \<Rightarrow> arg list \<Rightarrow> arg list" where
  "withPassin e args =
     args @ (if passphrase e then [Lit ''-passin'', Lit ''env:CERTARIUM_CA_PASSPHRASE''] else [])"

definition hasArgument :: "arg list \<Rightarrow> string \<Rightarrow> bool" where
  "hasArgument args v = list_ex (\<lambda>a. arg_str a = v) args"

definition bundleFiles :: "path \<Rightarrow> string \<Rightarrow> path \<times> path \<times> path" where
  "bundleFiles dir p = (dir @ [p @ ''.key''], dir @ [p @ ''.csr''], dir @ [p @ ''.crt''])"

definition sm2CertificateCommands ::
    "Request \<Rightarrow> path \<Rightarrow> path \<Rightarrow> path \<Rightarrow> path \<Rightarrow> 64 word \<Rightarrow> caFiles \<Rightarrow> arg list list" where
  "sm2CertificateCommands req keyp csr crt ext serial ca =
     [[Lit ''genpkey'', Lit ''-algorithm'', Lit ''EC'', Lit ''-pkeyopt'',
       Lit ''ec_paramgen_curve:SM2'', Lit ''-out'', Pth keyp],
      [Lit ''req'', Lit ''-new'', Lit ''-sm3'', Lit ''-config'', Pth ext, Lit ''-key'', Pth keyp,
       Lit ''-subj'', Lit (''/CN='' @ CommonName req), Lit ''-out'', Pth csr],
      [Lit ''x509'', Lit ''-req'', Lit ''-sm3'', Lit ''-in'', Pth csr, Lit ''-CA'', Pth (cert ca),
       Lit ''-CAkey'', Pth (key ca), Lit ''-set_serial'', Lit (dec (unat serial)), Lit ''-days'',
       Lit (itoa (ValidDays req)), Lit ''-extfile'', Pth ext, Lit ''-extensions'',
       Lit ''server_cert'', Lit ''-out'', Pth crt]]"

definition verify_command :: "path \<Rightarrow> path \<Rightarrow> arg list" where
  "verify_command ca crt = [Lit ''verify'', Lit ''-CAfile'', Pth ca, Pth crt]"

definition caSubject :: "string \<Rightarrow> string \<Rightarrow> string" where
  "caSubject organization algorithm =
     ''/C=CN/O='' @ organization @ ''/CN='' @ organization @ '' '' @ algorithm @ '' Root CA''"

definition rootCAConfig :: string where
  "rootCAConfig = concat (map (\<lambda>l. l @ nl)
     [''[req]'', ''distinguished_name=req_dn'', ''prompt=no'', [], ''[req_dn]'', [], ''[v3_ca]'',
      ''basicConstraints=critical,CA:TRUE'', ''keyUsage=critical,keyCertSign,cRLSign'',
      ''subjectKeyIdentifier=hash'', ''authorityKeyIdentifier=keyid:always''])"

definition caDatabaseConfig :: "path \<Rightarrow> path \<Rightarrow> string" where
  "caDatabaseConfig databaseDir caDir = concat (map (\<lambda>l. l @ nl)
     [''[ca]'', ''default_ca=certarium_ca'', [], ''[certarium_ca]'',
      ''database='' @ path_str databaseDir @ ''/index.txt'', ''unique_subject=no'',
      ''new_certs_dir='' @ path_str databaseDir @ ''/newcerts'',
      ''certificate='' @ path_str caDir @ ''/root-ca.crt'',
      ''private_key='' @ path_str caDir @ ''/root-ca.key'',
      ''crlnumber='' @ path_str databaseDir @ ''/crlnumber'', ''default_md=default'',
      ''default_crl_days=7'', ''policy=policy_any'', [], ''[policy_any]'',
      ''commonName=supplied'', ''countryName=optional'', ''stateOrProvinceName=optional'',
      ''localityName=optional'', ''organizationName=optional'',
      ''organizationalUnitName=optional'', ''emailAddress=optional''])"

section \<open>Steps the operations share\<close>

definition runCommand :: "Engine \<Rightarrow> string \<Rightarrow> arg list \<Rightarrow> unit io" where
  "runCommand e msg args = bindE (wrapE msg (runE (runner e) args)) (\<lambda>_. returnE ())"

definition runAll :: "Engine \<Rightarrow> arg list list \<Rightarrow> unit io" where
  "runAll e commands = forE commands (runCommand e ''certificate operation failed'')"

definition generated_mode :: "path \<Rightarrow> mode" where
  "generated_mode p =
     (if path_ext p = ''.key'' \<or> path_ext p = ''.csr'' \<or> path_ext p = ''.cnf''
      then mode_0600 else mode_0644)"

definition secureGeneratedFiles :: "path list \<Rightarrow> unit io" where
  "secureGeneratedFiles paths = forE paths (\<lambda>p.
     wrapE (''secure generated file '' @ go_quote (path_base p)) (os_chmod p (generated_mode p)))"

definition syncDirectory :: "path \<Rightarrow> unit io" where
  "syncDirectory p = sync_dir p ''open directory for sync'' ''sync directory''"

definition publishBundle :: "path \<Rightarrow> path \<Rightarrow> unit io" where
  "publishBundle temp final =
     bindE (wrapE ''publish certificate bundle'' (os_rename temp final)) (\<lambda>_.
     syncDirectory (butlast final))"

definition replaceFile :: "path \<Rightarrow> path \<Rightarrow> unit io" where
  "replaceFile source destination =
     wrapE (''publish '' @ go_quote (path_base destination)) (os_rename source destination)"

definition beginBundle :: "Engine \<Rightarrow> string \<Rightarrow> (path \<times> path) io" where
  "beginBundle e name =
     (let issued = issued_dir e; final = join_path issued name in
      bindE (wrapE ''create issued directory'' (os_mkdir_all issued mode_0700)) (\<lambda>_.
      bindE (require_absent final
        (ErrText (''certificate bundle '' @ go_quote name @ '' already exists''))
        ''inspect certificate bundle'') (\<lambda>_.
      bindE (wrapE ''create temporary bundle'' (os_mkdir_temp issued (''.'' @ name @ ''-''))) (\<lambda>temp.
      bindE (onErrorE (os_remove_all temp)
        (wrapE ''secure temporary bundle'' (os_chmod temp mode_0700))) (\<lambda>_.
      returnE (temp, final))))))"

section \<open>Issuing\<close>

definition rsa_commands :: "Engine \<Rightarrow> Request \<Rightarrow> path \<Rightarrow> 64 word \<Rightarrow> arg list list" where
  "rsa_commands e req temp serial =
     (let ext = temp @ [''rsa-ext.cnf'']; keyp = temp @ [''server-rsa.key''];
          csr = temp @ [''server-rsa.csr'']; crt = temp @ [''server-rsa.crt''];
          ca = caPaths e ''rsa'' in
      [[Lit ''genpkey'', Lit ''-algorithm'', Lit ''RSA'', Lit ''-pkeyopt'',
        Lit ''rsa_keygen_bits:2048'', Lit ''-out'', Pth keyp],
       [Lit ''req'', Lit ''-new'', Lit ''-sha256'', Lit ''-config'', Pth ext, Lit ''-key'', Pth keyp,
        Lit ''-subj'', Lit (''/CN='' @ CommonName req), Lit ''-out'', Pth csr],
       withPassin e
         [Lit ''x509'', Lit ''-req'', Lit ''-sha256'', Lit ''-in'', Pth csr, Lit ''-CA'', Pth (cert ca),
          Lit ''-CAkey'', Pth (key ca), Lit ''-set_serial'', Lit (dec (unat serial)), Lit ''-days'',
          Lit (itoa (ValidDays req)), Lit ''-extfile'', Pth ext, Lit ''-extensions'',
          Lit ''server_cert'', Lit ''-out'', Pth crt],
       verify_command (cert ca) crt])"

text \<open>Everything between the creation of the temporary directory and its publication.\<close>

definition fill_rsa :: "Engine \<Rightarrow> Request \<Rightarrow> path \<Rightarrow> 64 word io" where
  "fill_rsa e req temp =
     (let ext = temp @ [''rsa-ext.cnf'']; keyp = temp @ [''server-rsa.key''];
          csr = temp @ [''server-rsa.csr'']; crt = temp @ [''server-rsa.crt''] in
      bindE (Store_NextSerial (store e)) (\<lambda>serial.
      bindE (liftE (BuildExtensionConfig req KindRSA)) (\<lambda>config.
      bindE (wrapE ''write RSA extensions'' (os_write_file ext config mode_0600)) (\<lambda>_.
      bindE (runAll e (rsa_commands e req temp serial)) (\<lambda>_.
      bindE (secureGeneratedFiles [keyp, csr, crt, ext]) (\<lambda>_.
      returnE serial))))))"

definition IssueRSA :: "Engine \<Rightarrow> Request \<Rightarrow> Bundle io" where
  "IssueRSA e req =
     bindE (failE (ValidateRequest req)) (\<lambda>_.
     bindE (beginBundle e (Name req)) (\<lambda>(temp, final).
     deferE (os_remove_all temp)
      (bindE (fill_rsa e req temp) (\<lambda>serial.
       bindE (publishBundle temp final) (\<lambda>_.
       returnE
         \<lparr>CertificatePath = join_path final (path_base (temp @ [''server-rsa.crt''])),
          KeyPath = join_path final (path_base (temp @ [''server-rsa.key''])),
          Serial = serial\<rparr>)))))"

definition tlcp_commands ::
    "Engine \<Rightarrow> Request \<Rightarrow> path \<Rightarrow> 64 word \<Rightarrow> 64 word \<Rightarrow> arg list list" where
  "tlcp_commands e req temp signSerial encSerial =
     (let ca = caPaths e ''sm2'' in
      case bundleFiles temp ''server-sign'' of (signKey, signCSR, signCert) \<Rightarrow>
      case bundleFiles temp ''server-enc'' of (encKey, encCSR, encCert) \<Rightarrow>
        map (\<lambda>c. if hasArgument c ''-CAkey'' then withPassin e c else c)
          (sm2CertificateCommands req signKey signCSR signCert (temp @ [''sign-ext.cnf'']) signSerial ca @
           sm2CertificateCommands req encKey encCSR encCert (temp @ [''enc-ext.cnf'']) encSerial ca @
           [verify_command (cert ca) signCert, verify_command (cert ca) encCert]))"

definition fill_tlcp :: "Engine \<Rightarrow> Request \<Rightarrow> path \<Rightarrow> (64 word \<times> 64 word) io" where
  "fill_tlcp e req temp =
     (let signExtPath = temp @ [''sign-ext.cnf'']; encExtPath = temp @ [''enc-ext.cnf''] in
      case bundleFiles temp ''server-sign'' of (signKey, signCSR, signCert) \<Rightarrow>
      case bundleFiles temp ''server-enc'' of (encKey, encCSR, encCert) \<Rightarrow>
      bindE (Store_NextSerial (store e)) (\<lambda>signSerial.
      bindE (Store_NextSerial (store e)) (\<lambda>encSerial.
      bindE (liftE (BuildExtensionConfig req KindTLCPSign)) (\<lambda>signExt.
      bindE (liftE (BuildExtensionConfig req KindTLCPEnc)) (\<lambda>encExt.
      bindE (wrapE ''write signing extensions'' (os_write_file signExtPath signExt mode_0600)) (\<lambda>_.
      bindE (wrapE ''write encryption extensions'' (os_write_file encExtPath encExt mode_0600)) (\<lambda>_.
      bindE (runAll e (tlcp_commands e req temp signSerial encSerial)) (\<lambda>_.
      bindE (secureGeneratedFiles
        [signKey, signCSR, signCert, encKey, encCSR, encCert, signExtPath, encExtPath]) (\<lambda>_.
      returnE (signSerial, encSerial))))))))))"

definition IssueTLCP :: "Engine \<Rightarrow> Request \<Rightarrow> TLCPBundle io" where
  "IssueTLCP e req =
     bindE (failE (ValidateRequest req)) (\<lambda>_.
     bindE (beginBundle e (Name req)) (\<lambda>(temp, final).
     deferE (os_remove_all temp)
      (bindE (fill_tlcp e req temp) (\<lambda>(signSerial, encSerial).
       bindE (publishBundle temp final) (\<lambda>_.
       returnE
         \<lparr>Signing =
            \<lparr>CertificatePath = join_path final (path_base (temp @ [''server-sign.crt''])),
             KeyPath = join_path final (path_base (temp @ [''server-sign.key''])),
             Serial = signSerial\<rparr>,
          Encryption =
            \<lparr>CertificatePath = join_path final (path_base (temp @ [''server-enc.crt''])),
             KeyPath = join_path final (path_base (temp @ [''server-enc.key''])),
             Serial = encSerial\<rparr>\<rparr>)))))"

section \<open>Creating the authorities\<close>

text \<open>The literal map of the initial database files, visited in any order.\<close>

definition database_files :: "(string \<times> string) list" where
  "database_files =
     [(''index.txt'', []), (''index.txt.attr'', ''unique_subject = no'' @ nl), (''crlnumber'', ''1000'' @ nl)]"

definition make_ca_dir :: "path \<Rightarrow> unit io" where
  "make_ca_dir dir =
     bindE (wrapE ''create CA algorithm directory'' (os_mkdir dir mode_0700)) (\<lambda>_.
     bindE (range_map database_files) (\<lambda>entries.
     forE entries (\<lambda>(name, content).
       wrapE ''initialize CA database'' (os_write_file (dir @ [name]) content mode_0600))))"

definition root_req_command :: "Engine \<Rightarrow> string \<Rightarrow> path \<Rightarrow> path \<Rightarrow> string \<Rightarrow> path \<Rightarrow> arg list" where
  "root_req_command e digest config keyp subject crt = withPassin e
     [Lit ''req'', Lit ''-new'', Lit ''-x509'', Lit digest, Lit ''-config'', Pth config,
      Lit ''-extensions'', Lit ''v3_ca'', Lit ''-key'', Pth keyp, Lit ''-subj'', Lit subject,
      Lit ''-days'', Lit ''3650'', Lit ''-out'', Pth crt]"

definition root_key_command :: "Engine \<Rightarrow> string \<Rightarrow> string \<Rightarrow> path \<Rightarrow> arg list" where
  "root_key_command e algorithm opt keyp =
     [Lit ''genpkey'', Lit ''-algorithm'', Lit algorithm, Lit ''-pkeyopt'', Lit opt] @
     (if passphrase e
      then [Lit ''-aes-256-cbc'', Lit ''-pass'', Lit ''env:CERTARIUM_CA_PASSPHRASE''] else []) @
     [Lit ''-out'', Pth keyp]"

definition authority_commands :: "Engine \<Rightarrow> string \<Rightarrow> path \<Rightarrow> arg list list" where
  "authority_commands e organization temp =
     (let rsaKey = temp @ [''rsa'', ''root-ca.key'']; rsaCert = temp @ [''rsa'', ''root-ca.crt''];
          sm2Key = temp @ [''sm2'', ''root-ca.key'']; sm2Cert = temp @ [''sm2'', ''root-ca.crt''];
          config = temp @ [''ca.cnf''] in
      [root_key_command e ''RSA'' ''rsa_keygen_bits:3072'' rsaKey,
       root_req_command e ''-sha256'' config rsaKey (caSubject organization ''RSA'') rsaCert,
       verify_command rsaCert rsaCert,
       root_key_command e ''EC'' ''ec_paramgen_curve:SM2'' sm2Key,
       root_req_command e ''-sm3'' config sm2Key (caSubject organization ''SM2'') sm2Cert,
       verify_command sm2Cert sm2Cert])"

definition fill_authorities :: "Engine \<Rightarrow> string \<Rightarrow> path \<Rightarrow> unit io" where
  "fill_authorities e organization temp =
     bindE (wrapE ''secure temporary CA directory'' (os_chmod temp mode_0700)) (\<lambda>_.
     bindE (forE [temp @ [''rsa''], temp @ [''sm2'']] make_ca_dir) (\<lambda>_.
     bindE (wrapE ''write root CA config'' (os_write_file (temp @ [''ca.cnf'']) rootCAConfig mode_0600)) (\<lambda>_.
     bindE (runAll e (authority_commands e organization temp)) (\<lambda>_.
     secureGeneratedFiles
       [temp @ [''rsa'', ''root-ca.key''], temp @ [''rsa'', ''root-ca.crt''],
        temp @ [''sm2'', ''root-ca.key''], temp @ [''sm2'', ''root-ca.crt''], temp @ [''ca.cnf'']]))))"

definition unsafe_organization :: "string \<Rightarrow> bool" where
  "unsafe_organization organization \<longleftrightarrow>
     organization = [] \<or> 64 < length organization \<or> contains_any organization subject_unsafe"

definition InitializeAuthorities :: "Engine \<Rightarrow> string \<Rightarrow> unit io" where
  "InitializeAuthorities e organization =
     (let pkiDir = engine_pki e; final = pkiDir @ [''ca''] in
      bindE (checkE (\<not> unsafe_organization organization)
        (ErrText ''organization is empty, too long, or unsafe'')) (\<lambda>_.
      bindE (wrapE ''initialize state before authorities'' (readState (pkiDir @ [''state.json'']))) (\<lambda>_.
      bindE (require_absent final (ErrText ''certificate authorities already exist'')
        ''inspect certificate authorities'') (\<lambda>_.
      bindE (wrapE ''create temporary CA directory'' (os_mkdir_temp pkiDir ''.ca-'')) (\<lambda>temp.
      deferE (os_remove_all temp)
       (bindE (fill_authorities e organization temp) (\<lambda>_.
        bindE (wrapE ''publish certificate authorities'' (os_rename temp final)) (\<lambda>_.
        syncDirectory pkiDir))))))))"

section \<open>Revocation lists and status responses\<close>

definition crl_kind :: "string \<Rightarrow> bool" where
  "crl_kind kind \<longleftrightarrow> kind = ''rsa'' \<or> kind = ''sm2''"

text \<open>The CRL number to start from: the stored one, or 1000 when there is none.\<close>

definition read_crl_number :: "path \<Rightarrow> string io" where
  "read_crl_number p =
     bindE (tryE (os_read_file p)) (\<lambda>r.
       case r of
         Inr number \<Rightarrow> returnE number
       | Inl e \<Rightarrow> if is_not_exist e then returnE (''1000'' @ nl) else throwE (Wrap ''read CRL number: '' e []))"

definition ca_command :: "Engine \<Rightarrow> path \<Rightarrow> arg list \<Rightarrow> arg list" where
  "ca_command e config rest =
     withPassin e ([Lit ''ca'', Lit ''-batch'', Lit ''-config'', Pth config] @ rest)"

text \<open>The database of the run: a fresh one in the temporary directory.\<close>

definition start_crl :: "Engine \<Rightarrow> string \<Rightarrow> path \<Rightarrow> unit io" where
  "start_crl e kind temp =
     (let caDir = engine_pki e @ [''ca'', kind] in
      bindE (wrapE ''secure temporary CRL directory'' (os_chmod temp mode_0700)) (\<lambda>_.
      bindE (wrapE ''create temporary certificate database'' (os_mkdir (temp @ [''newcerts'']) mode_0700)) (\<lambda>_.
      bindE (wrapE ''initialize temporary CA index'' (os_write_file (temp @ [''index.txt'']) [] mode_0600)) (\<lambda>_.
      bindE (wrapE ''initialize temporary CA attributes''
        (os_write_file (temp @ [''index.txt.attr'']) (''unique_subject = no'' @ nl) mode_0600)) (\<lambda>_.
      bindE (read_crl_number (caDir @ [''crlnumber''])) (\<lambda>number.
      bindE (wrapE ''initialize CRL number'' (os_write_file (temp @ [''crlnumber'']) number mode_0600)) (\<lambda>_.
      wrapE ''write CRL configuration''
        (os_write_file (temp @ [''ca.cnf'']) (caDatabaseConfig temp caDir) mode_0600))))))))"

text \<open>Registering every certificate, revoking, generating and verifying the list.\<close>

definition generate_crl :: "Engine \<Rightarrow> string \<Rightarrow> path list \<Rightarrow> path list \<Rightarrow> path \<Rightarrow> unit io" where
  "generate_crl e kind validCerts revokedCerts temp =
     (let caDir = engine_pki e @ [''ca'', kind]; config = temp @ [''ca.cnf''];
          generated = temp @ [kind @ ''.crl.pem''] in
      bindE (forE (validCerts @ revokedCerts) (\<lambda>c.
        runCommand e ''register certificate for CRL'' (ca_command e config [Lit ''-valid'', Pth c]))) (\<lambda>_.
      bindE (forE revokedCerts (\<lambda>c.
        runCommand e ''revoke certificate''
          (ca_command e config [Lit ''-revoke'', Pth c, Lit ''-crl_reason'', Lit ''unspecified'']))) (\<lambda>_.
      bindE (runCommand e ''generate CRL''
        (ca_command e config [Lit ''-gencrl'', Lit ''-out'', Pth generated])) (\<lambda>_.
      runCommand e ''verify CRL''
        [Lit ''crl'', Lit ''-in'', Pth generated, Lit ''-noout'', Lit ''-verify'', Lit ''-CAfile'',
         Pth (caDir @ [''root-ca.crt''])]))))"

text \<open>Replacing the published list, and after it the three files of the CA database.\<close>

definition publish_crl :: "Engine \<Rightarrow> string \<Rightarrow> path \<Rightarrow> unit io" where
  "publish_crl e kind temp =
     (let pkiDir = engine_pki e; caDir = pkiDir @ [''ca'', kind]; crlDir = pkiDir @ [''crl''];
          generated = temp @ [kind @ ''.crl.pem''] in
      bindE (wrapE ''set CRL permissions'' (os_chmod generated mode_0644)) (\<lambda>_.
      bindE (wrapE ''create CRL directory'' (os_mkdir_all crlDir mode_0700)) (\<lambda>_.
      bindE (replaceFile generated (crlDir @ [kind @ ''.crl.pem''])) (\<lambda>_.
      bindE (forE [''index.txt'', ''index.txt.attr'', ''crlnumber''] (\<lambda>name.
        bindE (replaceFile (temp @ [name]) (caDir @ [name])) (\<lambda>_.
        wrapE ''secure CA database file'' (os_chmod (caDir @ [name]) mode_0600)))) (\<lambda>_.
      syncDirectory crlDir)))))"

definition PublishCRL :: "Engine \<Rightarrow> string \<Rightarrow> path list \<Rightarrow> path list \<Rightarrow> unit io" where
  "PublishCRL e kind validCerts revokedCerts =
     bindE (checkE (crl_kind kind) (ErrText ''CRL kind must be rsa or sm2'')) (\<lambda>_.
     bindE (wrapE ''create temporary CRL directory''
       (os_mkdir_temp (engine_pki e) (''.crl-'' @ kind @ ''-''))) (\<lambda>temp.
     deferE (os_remove_all temp)
      (bindE (start_crl e kind temp) (\<lambda>_.
       bindE (generate_crl e kind validCerts revokedCerts temp) (\<lambda>_.
       publish_crl e kind temp)))))"

definition ocsp_command :: "Engine \<Rightarrow> string \<Rightarrow> path \<Rightarrow> arg list" where
  "ocsp_command e kind temp =
     (let caDir = engine_pki e @ [''ca'', kind]; caCert = caDir @ [''root-ca.crt''] in
      withPassin e
        [Lit ''ocsp'', Lit ''-index'', Pth (caDir @ [''index.txt'']), Lit ''-rsigner'', Pth caCert,
         Lit ''-rkey'', Pth (caDir @ [''root-ca.key'']), Lit ''-CA'', Pth caCert, Lit ''-reqin'',
         Pth (temp @ [''request.der'']), Lit ''-respout'', Pth (temp @ [''response.der'']),
         Lit ''-ndays'', Lit ''1''])"

definition RespondOCSP :: "Engine \<Rightarrow> string \<Rightarrow> string \<Rightarrow> string io" where
  "RespondOCSP e kind request =
     bindE (checkE (crl_kind kind) (ErrText ''OCSP kind must be rsa or sm2'')) (\<lambda>_.
     bindE (checkE (\<not> (length request = 0 \<or> 16 * 1024 < length request))
       (ErrText ''OCSP request size is invalid'')) (\<lambda>_.
     bindE (tryE (os_lstat (engine_pki e @ [''ca'', kind, ''index.txt'']))) (\<lambda>info.
     bindE (checkE (case info of Inl err \<Rightarrow> False | Inr n \<Rightarrow> is_regular n)
       (ErrText ''OCSP issuer database is unavailable'')) (\<lambda>_.
     bindE (wrapE ''create temporary OCSP directory'' (os_mkdir_temp (engine_pki e) ''.ocsp-'')) (\<lambda>temp.
     deferE (os_remove_all temp)
      (bindE (wrapE ''secure temporary OCSP directory'' (os_chmod temp mode_0700)) (\<lambda>_.
       bindE (wrapE ''write OCSP request'' (os_write_file (temp @ [''request.der'']) request mode_0600)) (\<lambda>_.
       bindE (wrapE ''generate OCSP response'' (runE (runner e) (ocsp_command e kind temp))) (\<lambda>_.
       wrapE ''read OCSP response'' (os_read_file (temp @ [''response.der''])))))))))))"

end
