(* ===== verification/Pki_Staging.thy ===== *)
theory Pki_Staging
  imports Pki_Engine
begin

text \<open>
  What the operations of the engine share: which files the cryptographic tool may write, what the
  shared steps leave, and publication by renaming a finished directory, as a contract with its
  consequences.
\<close>

section \<open>The files a command writes\<close>

text \<open>
  The tool writes the file after \<open>-out\<close> or \<open>-respout\<close>; its command \<open>ca\<close> also the
  database directory its configuration names, but not the configuration itself. \<open>confined\<close> is the reliance of the engine on it.
\<close>

fun out_paths :: "arg list \<Rightarrow> path list" where
  "out_paths (Lit f # Pth p # as) =
     (if f = ''-out'' \<or> f = ''-respout'' then p # out_paths as else out_paths as)"
| "out_paths (a # as) = out_paths as"
| "out_paths [] = []"

fun config_path :: "arg list \<Rightarrow> path option" where
  "config_path (Lit f # Pth p # as) = (if f = ''-config'' then Some p else config_path as)"
| "config_path (a # as) = config_path as"
| "config_path [] = None"

definition is_ca_command :: "arg list \<Rightarrow> bool" where
  "is_ca_command args \<longleftrightarrow> take 1 args = [Lit ''ca'']"

definition database_of :: "world \<Rightarrow> arg list \<Rightarrow> path \<Rightarrow> bool" where
  "database_of w args d \<longleftrightarrow>
     (\<exists>c m cd. config_path args = Some c \<and> at w c = Some (Regular m (caDatabaseConfig d cd)))"

definition written :: "world \<Rightarrow> arg list \<Rightarrow> path set" where
  "written w args =
     (\<Union>p \<in> set (out_paths args). below p) \<union>
     (if is_ca_command args
      then (\<Inter>d \<in> {d. database_of w args d}. below d) - {c. config_path args = Some c} else {})"

definition confined :: "Runner \<Rightarrow> bool" where
  "confined run \<longleftrightarrow> (\<forall>args w q. q \<notin> written w args \<longrightarrow> at (snd (run args w)) q = at w q)"

lemma snd_runE [simp]: "snd (runE r args w) = snd (r args w)"
  by (auto simp: runE_def split: prod.splits option.splits)

lemma changes_runE:
  assumes "confined run" and "\<not> is_ca_command args" and "\<forall>p \<in> set (out_paths args). below p \<subseteq> A"
  shows "changes A (runE run args)"
  using assms unfolding changes_def confined_def written_def by fastforce

lemma changes_runCommand [footprint]:
  "confined (runner e) \<Longrightarrow> \<not> is_ca_command args \<Longrightarrow> \<forall>p \<in> set (out_paths args). below p \<subseteq> A \<Longrightarrow>
     changes A (runCommand e msg args)"
  unfolding runCommand_def by (intro footprint changes_runE)

lemma runCommand_Inr:
  "runCommand e msg args w = (Inr u, w') \<longleftrightarrow> (\<exists>out. runner e args w = ((out, None), w'))"
  by (auto simp: runCommand_def bindE_Inr runE_Inr)

definition tool_step :: "path set \<Rightarrow> arg list \<Rightarrow> bool" where
  "tool_step A args \<longleftrightarrow> \<not> is_ca_command args \<and> (\<forall>p \<in> set (out_paths args). below p \<subseteq> A)"

lemma changes_runAll:
  assumes "confined (runner e)" and "list_all (tool_step A) commands"
  shows "changes A (runAll e commands)"
  using assms unfolding runAll_def tool_step_def list_all_iff
  by (intro changes_forE changes_runCommand) auto

section \<open>Loops\<close>

lemma forE_Inr_append:
  "forE (xs @ ys) f w = (Inr u, w'') \<longleftrightarrow> (\<exists>w'. forE xs f w = (Inr (), w') \<and> forE ys f w' = (Inr u, w''))"
  by (auto simp: forE_append bindE_Inr)

lemma runAll_last:
  assumes "runAll e (commands @ [args]) w = (Inr u, w')"
  shows "\<exists>v out. runAll e commands w = (Inr (), v) \<and> runner e args v = ((out, None), w')"
  using assms by (auto simp: runAll_def forE_Inr_append bindE_Inr runCommand_Inr)

text \<open>The generated files exist and have the mode of their kind.\<close>

lemma secureGeneratedFiles_Inr:
  assumes "secureGeneratedFiles ps w = (Inr u, w')" and "[] \<notin> set ps" and "distinct ps"
  shows "at w' q = (if q \<in> set ps then map_option (with_mode (generated_mode q)) (at w q) else at w q)"
    and "q \<in> set ps \<Longrightarrow> at w q \<noteq> None"
proof -
  have "at w' q = (if q \<in> set ps then map_option (with_mode (generated_mode q)) (at w q) else at w q) \<and>
    (q \<in> set ps \<longrightarrow> at w q \<noteq> None)"
    using assms
  proof (induction ps arbitrary: w)
    case (Cons p ps)
    from Cons.prems obtain v where c: "os_chmod p (generated_mode p) w = (Inr (), v)"
      and r: "secureGeneratedFiles ps v = (Inr u, w')"
      by (auto simp: secureGeneratedFiles_def bindE_Inr)
    from os_chmod_Inr [OF c] Cons.prems(2) obtain n where n: "at w p = Some n"
      and v: "at v = (at w)(p \<mapsto> with_mode (generated_mode p) n)" by auto
    from Cons.IH [OF r] Cons.prems(2,3) v n show ?case by auto
  qed (auto simp: secureGeneratedFiles_def)
  then show "at w' q = (if q \<in> set ps then map_option (with_mode (generated_mode q)) (at w q) else at w q)"
    and "q \<in> set ps \<Longrightarrow> at w q \<noteq> None" by auto
qed

lemma changes_secureGeneratedFiles [footprint]:
  "set ps \<subseteq> A \<Longrightarrow> changes A (secureGeneratedFiles ps)"
  unfolding secureGeneratedFiles_def by (intro footprint) auto

lemma changes_syncDirectory [footprint]: "changes A (syncDirectory p)"
  unfolding syncDirectory_def by (intro footprint)

section \<open>Publication of a directory\<close>

text \<open>
  The common shape: a temporary directory \<open>t\<close> is filled, renamed to its final name, the
  parent synced, and whatever is left at the temporary name removed.
\<close>

definition stage_and_publish ::
    "(path \<Rightarrow> 'x io) \<Rightarrow> string \<Rightarrow> path \<Rightarrow> ('x \<Rightarrow> 'y) \<Rightarrow> path \<Rightarrow> 'y io" where
  "stage_and_publish fill msg final result t =
     deferE (os_remove_all t)
      (bindE (fill t) (\<lambda>x.
       bindE (bindE (wrapE msg (os_rename t final)) (\<lambda>_. syncDirectory (butlast final))) (\<lambda>_.
       returnE (result x))))"

locale staged_directory =
  fixes trusted :: bool and dir :: path and name :: string and pre :: string
    and fill :: "path \<Rightarrow> 'x io" and side :: "path set"
  assumes fill_changes:
      "trusted \<Longrightarrow> temp_name dir pre [] t \<Longrightarrow> changes (below t \<union> side) (fill t)"
    and side_apart: "trusted \<Longrightarrow> side \<inter> below (dir @ [name]) = {}"
    and not_temporary: "trusted \<Longrightarrow> \<not> prefix pre name"
begin

lemma temp_apart:
  assumes "trusted" and "temp_name dir pre [] t"
  shows "t \<noteq> (dir @ [name])" and "\<not> prefix t ((dir @ [name]) @ r)" and "\<not> prefix (dir @ [name]) (t @ r)"
  using assms not_temporary by (auto simp: temp_name_def prefix_def)

text \<open>A reader finds the final directory as it was or exactly as \<open>fill\<close> left the temporary one.\<close>

lemma all_or_nothing:
  assumes tr: "trusted" and t: "temp_name dir pre [] t"
    and run: "stage_and_publish fill msg (dir @ [name]) result t w = (r, w')"
  shows "(\<exists>e. r = Inl e) \<and> (\<forall>s. at w' ((dir @ [name]) @ s) = at w ((dir @ [name]) @ s)) \<or>
    (\<exists>x v. fill t w = (Inr x, v) \<and> (\<forall>s. at w' ((dir @ [name]) @ s) = at v (t @ s)) \<and>
       (\<forall>q \<in> side. at w' q = at v q \<or> prefix t q) \<and>
       (\<forall>y. r = Inr y \<longrightarrow> y = result x))"
proof -
  let ?tail = "\<lambda>x. bindE (bindE (wrapE msg (os_rename t (dir @ [name]))) (\<lambda>_. syncDirectory (butlast (dir @ [name])))) (\<lambda>_.
       returnE (result x))"
  from run obtain w1 where body: "bindE (fill t) ?tail w = (r, w1)" and w': "w' = snd (os_remove_all t w1)"
    by (auto simp: stage_and_publish_def deferE_eq)
  have "changes (below t) (os_remove_all t)" by (intro footprint order_refl)
  then have last: "at w' q = at w1 q" if "\<not> prefix t q" for q
    using that w' unfolding changes_def by auto
  note apart = temp_apart [OF tr t]
  obtain r1 v where f: "fill t w = (r1, v)" by force
  have out: "\<not> prefix (dir @ [name]) q" if "q \<in> side" for q
    using side_apart [OF tr] that by (auto simp: disjoint_iff)
  have keep: "at v ((dir @ [name]) @ s) = at w ((dir @ [name]) @ s)" for s
    using changesD [OF fill_changes [OF tr t] f, of "(dir @ [name]) @ s"] out [of "(dir @ [name]) @ s"] apart(2) [of s]
    by (metis Un_iff in_below prefixI)
  show ?thesis
  proof (cases r1)
    case (Inl e)
    with body f have "r = Inl e" "w1 = v" by (auto simp: bindE_def)
    with last apart(2) keep show ?thesis by auto
  next
    case (Inr x)
    obtain r2 w2 where p: "bindE (wrapE msg (os_rename t (dir @ [name]))) (\<lambda>_. syncDirectory (butlast (dir @ [name]))) v = (r2, w2)"
      by force
    with body f Inr have w1: "w1 = w2" and r: "\<And>y. r = Inr y \<Longrightarrow> y = result x"
      and r2: "\<And>e. r2 = Inl e \<Longrightarrow> r = Inl e"
      by (auto simp: bindE_def returnE_def split: sum.splits)
    from rename_then_sync(1) [OF p [unfolded syncDirectory_def] apart(1)] show ?thesis
    proof (elim disjE)
      assume "\<exists>e. r2 = Inl e \<and> at w2 = at v"
      with r2 w1 last apart(2) keep show ?thesis by auto
    next
      assume m: "moved t (dir @ [name]) v w2"
      have "at w' ((dir @ [name]) @ s) = at v (t @ s)" for s
        using last apart(2) moved_target [OF m] w1 by simp
      moreover have "\<forall>q \<in> side. at w' q = at v q \<or> prefix t q"
        using last moved_elsewhere [OF m] out w1 by auto
      ultimately show ?thesis using f Inr r by blast
    qed
  qed
qed

lemma footprint_all:
  assumes "trusted" and "temp_name dir pre [] t"
  shows "changes (below t \<union> side \<union> below (dir @ [name])) (stage_and_publish fill msg (dir @ [name]) result t)"
  unfolding stage_and_publish_def
  using fill_changes [OF assms]
  by (intro footprint) (auto intro: changes_mono)

end

end
