(* ===== verification/Pki_Issue.thy ===== *)
theory Pki_Issue
  imports Pki_Staging
begin

text \<open>
  Issuing: \<open>IssueRSA\<close> and \<open>IssueTLCP\<close> against what a reader of the issued directory,
  of the counter and of the rest of the tree can see.
\<close>

section \<open>The area of an operation\<close>

definition state_area :: "Store \<Rightarrow> path set" where
  "state_area s = scratch (pki_dir s) ''.state-'' ''.tmp'' \<union> below (state_path s)"

definition inside :: "path \<Rightarrow> path set" where
  "inside t = {q. strict_prefix t q}"

definition bundle_pre :: "Request \<Rightarrow> string" where
  "bundle_pre req = ''.'' @ Name req @ ''-''"

lemma changes_NextSerial [footprint]: "state_area s \<subseteq> A \<Longrightarrow> changes A (Store_NextSerial s)"
  unfolding Store_NextSerial_def Let_def state_area_def
  by (intro footprint) (auto simp: state_path_def)

lemma in_inside [simp]: "t @ c # r \<in> inside t" "t \<notin> inside t"
  by (auto simp: inside_def strict_prefix_def)

lemma below_inside [simp]: "below (t @ c # r) \<subseteq> inside t"
  by (auto simp: inside_def strict_prefix_def prefix_def)

lemma below_state_area: "q \<in> state_area s \<Longrightarrow> \<exists>c r. q = pki_dir s @ c # r \<and>
    (c = ''state.json'' \<or> prefix ''.state-'' c)"
  by (auto simp: state_area_def scratch_def temp_name_def state_path_def prefix_def)

lemma issued_not_state: "issued_dir e @ r \<notin> state_area (store e)"
  by (auto dest!: below_state_area simp: issued_dir_def)

lemma pki_prefix_not_state: "prefix q (issued_dir e) \<Longrightarrow> q \<notin> state_area (store e)"
proof
  assume "prefix q (issued_dir e)" and "q \<in> state_area (store e)"
  then show False
    by (auto dest!: below_state_area simp: issued_dir_def)
qed

section \<open>Beginning a bundle\<close>

lemma changes_beginBundle [footprint]:
  assumes "{q. prefix q (issued_dir e)} \<subseteq> A" and "scratch (issued_dir e) (''.'' @ name @ ''-'') [] \<subseteq> A"
  shows "changes A (beginBundle e name)"
proof -
  have body: "changes A (bindE (onErrorE (os_remove_all t)
      (wrapE ''secure temporary bundle'' (os_chmod t mode_0700))) (\<lambda>_. returnE (t, f)))"
    if "temp_name (issued_dir e) (''.'' @ name @ ''-'') [] t" for t f
    using below_scratch [OF that] assms(2) by (intro footprint) auto
  have temp: "changes A (bindE (wrapE ''create temporary bundle'' (os_mkdir_temp (issued_dir e) (''.'' @ name @ ''-''))) (\<lambda>temp.
      bindE (onErrorE (os_remove_all temp)
        (wrapE ''secure temporary bundle'' (os_chmod temp mode_0700))) (\<lambda>_.
      returnE (temp, f))))" for f
    using body assms(2)
    by (intro changes_bindE_gives [OF _ gives_wrapE [OF gives_temp(1)]] footprint) auto
  show ?thesis
    unfolding beginBundle_def Let_def using assms(1) by (intro changes_bindE temp footprint)
qed

lemma beginBundle_Inr:
  assumes b: "beginBundle e name w = (Inr (t, f), w')" and n: "safeName name"
  shows "f = issued_dir e @ [name]" and "temp_name (issued_dir e) (''.'' @ name @ ''-'') [] t"
    and "at w' t = Some (Directory mode_0700)" and "at w f = None"
proof -
  let ?f = "issued_dir e @ [name]"
  have join: "join_path (issued_dir e) name = ?f" using safe_name_plain [OF n] by simp
  from b obtain w1 w2 w3 where mk: "os_mkdir_all (issued_dir e) mode_0700 w = (Inr (), w1)"
    and ab: "require_absent ?f (ErrText (''certificate bundle '' @ go_quote name @ '' already exists''))
      ''inspect certificate bundle'' w1 = (Inr (), w2)"
    and tmp: "os_mkdir_temp (issued_dir e) (''.'' @ name @ ''-'') w2 = (Inr t, w3)"
    and ch: "os_chmod t mode_0700 w3 = (Inr (), w')" and f: "f = ?f"
    unfolding beginBundle_def Let_def join by (auto simp: bindE_Inr)
  show "f = ?f" by (rule f)
  note temp = create_temp_Inr [OF tmp [unfolded os_mkdir_temp_def]]
  show t: "temp_name (issued_dir e) (''.'' @ name @ ''-'') [] t" by (rule temp)
  from temp_name_parts [OF t] temp(3) os_chmod_Inr [OF ch]
  show "at w' t = Some (Directory mode_0700)" by auto
  have "dir_at (files w1) q" if "strict_prefix q ?f" for q
    using os_mkdir_all_Inr [OF mk, of q] that by (auto simp: strict_prefix_def)
  then have "blocked (files w1) ?f = None" by (simp add: blocked_None)
  with require_absent_Inr [OF ab] have "at w1 ?f = None" by (auto intro: stat_absent)
  with os_mkdir_all_grows [OF mk, of ?f] show "at w f = None" by (auto simp: f dir_at_def)
qed

section \<open>The contract of an issuing operation\<close>

text \<open>The frame both operations have, over what fills the bundle.\<close>

definition issue :: "Engine \<Rightarrow> Request \<Rightarrow> (path \<Rightarrow> 'x io) \<Rightarrow> (path \<Rightarrow> path \<Rightarrow> 'x \<Rightarrow> 'y) \<Rightarrow> 'y io" where
  "issue e req fill result =
     bindE (failE (ValidateRequest req)) (\<lambda>_.
     bindE (beginBundle e (Name req)) (\<lambda>(temp, final).
     stage_and_publish fill ''publish certificate bundle'' final (result temp final) temp))"

locale bundle_issue =
  fixes e :: Engine and req :: Request and fill :: "path \<Rightarrow> 'x io"
    and result :: "path \<Rightarrow> path \<Rightarrow> 'x \<Rightarrow> 'y"
  assumes fill_inside:
    "confined (runner e) \<Longrightarrow> t \<noteq> [] \<Longrightarrow> changes (inside t \<union> state_area (store e)) (fill t)"

sublocale bundle_issue \<subseteq> staged_directory
  "confined (runner e) \<and> ValidateRequest req = None" "issued_dir e" "Name req" "bundle_pre req"
  fill "state_area (store e)"
proof
  fix t assume "confined (runner e) \<and> ValidateRequest req = None"
    and "temp_name (issued_dir e) (bundle_pre req) [] t"
  then show "changes (below t \<union> state_area (store e)) (fill t)"
    using fill_inside [of t] temp_name_parts [of _ _ _ t]
    by (auto simp: inside_def strict_prefix_def elim!: changes_mono)
next
  show "state_area (store e) \<inter> below (issued_dir e @ [Name req]) = {}"
    using issued_not_state [of e] by (auto simp: prefix_def)
next
  assume "confined (runner e) \<and> ValidateRequest req = None"
  then have "safeName (Name req)" by (simp add: validate_None)
  from safe_name_not_hidden [OF this] show "\<not> prefix (bundle_pre req) (Name req)"
    by (simp add: bundle_pre_def)
qed

context bundle_issue
begin

lemma issue_footprint:
  assumes "confined (runner e)"
  shows "changes ({q. prefix q (issued_dir e)} \<union> scratch (issued_dir e) (bundle_pre req) [] \<union>
    state_area (store e) \<union> below (issued_dir e @ [Name req])) (issue e req fill result)"
    (is "changes ?A _")
proof (cases "ValidateRequest req")
  case None
  then have safe: "safeName (Name req)" by (simp add: validate_None)
  have "changes ?A (bindE (beginBundle e (Name req)) (\<lambda>(temp, final).
     stage_and_publish fill ''publish certificate bundle'' final (result temp final) temp))"
  proof (rule changes_bindE_gives)
    show "changes ?A (beginBundle e (Name req))" by (intro footprint) (auto simp: bundle_pre_def)
    show "gives (\<lambda>(t, f). f = issued_dir e @ [Name req] \<and> temp_name (issued_dir e) (bundle_pre req) [] t)
        (beginBundle e (Name req))"
      using beginBundle_Inr [OF _ safe] by (auto simp: gives_def bundle_pre_def)
  next
    fix x assume "case x of (t, f) \<Rightarrow> f = issued_dir e @ [Name req] \<and> temp_name (issued_dir e) (bundle_pre req) [] t"
    then obtain t where x: "x = (t, issued_dir e @ [Name req])"
      and t: "temp_name (issued_dir e) (bundle_pre req) [] t" by auto
    show "changes ?A (case x of (temp, final) \<Rightarrow>
        stage_and_publish fill ''publish certificate bundle'' final (result temp final) temp)"
      unfolding x prod.case
      by (rule changes_mono [OF footprint_all [OF conjI [OF assms None] t]])
        (use below_scratch [OF t] in auto)
  qed
  then show ?thesis unfolding issue_def by (rule changes_bindE [OF changes_failE])
next
  case (Some err)
  then show ?thesis unfolding issue_def by (simp add: changes_def bindE_def failE_def throwE_def)
qed

lemma issue_outcome:
  assumes c: "confined (runner e)" and run: "issue e req fill result w = (r, w')"
  shows "(\<exists>err. r = Inl err) \<and>
      (\<forall>s. at w' (issued_dir e @ [Name req] @ s) = at w (issued_dir e @ [Name req] @ s)) \<or>
    ValidateRequest req = None \<and> at w (issued_dir e @ [Name req]) = None \<and>
    (\<exists>t x w1 v. t \<noteq> [] \<and> fill t w1 = (Inr x, v) \<and>
       at v t = Some (Directory mode_0700) \<and>
       (\<forall>q \<in> state_area (store e). at w1 q = at w q \<and> at w' q = at v q \<and> \<not> prefix t q) \<and>
       (\<forall>s. at w' (issued_dir e @ [Name req] @ s) = at v (t @ s)) \<and>
       (\<forall>y. r = Inr y \<longrightarrow> y = result t (issued_dir e @ [Name req]) x))"
proof (cases "ValidateRequest req")
  case (Some err)
  with run show ?thesis by (auto simp: issue_def bindE_def failE_def throwE_def)
next
  case None
  then have safe: "safeName (Name req)" by (simp add: validate_None)
  let ?f = "issued_dir e @ [Name req]"
  obtain r1 w1 where b: "beginBundle e (Name req) w = (r1, w1)" by force
  have foot: "changes ({q. prefix q (issued_dir e)} \<union> scratch (issued_dir e) (bundle_pre req) [])
      (beginBundle e (Name req))"
    by (intro footprint) (auto simp: bundle_pre_def)
  have hid: "\<not> prefix (bundle_pre req) (Name req)"
    using safe_name_not_hidden [OF safe] by (simp add: bundle_pre_def)
  have early: "at w1 (?f @ s) = at w (?f @ s)" for s
    using changesD [OF foot b, of "?f @ s"] not_scratch [OF hid, of "issued_dir e" s "[]"]
    by (auto dest: prefix_length_le)
  show ?thesis
  proof (cases r1)
    case (Inl err)
    with run b None early show ?thesis by (auto simp: issue_def bindE_def failE_def returnE_def)
  next
    case (Inr x)
    obtain t f where x: "x = (t, f)" by force
    note bb = beginBundle_Inr [OF b [unfolded Inr x] safe]
    have t: "temp_name (issued_dir e) (bundle_pre req) [] t" using bb(2) by (simp add: bundle_pre_def)
    have st: "stage_and_publish fill ''publish certificate bundle'' ?f (result t ?f) t w1 = (r, w')"
      using run b Inr x None bb(1) by (auto simp: issue_def bindE_def failE_def returnE_def)
    have state: "at w1 q = at w q \<and> \<not> prefix t q" if "q \<in> state_area (store e)" for q
    proof
      have s: "q \<notin> scratch (issued_dir e) p []" for p
        using that scratch_inside issued_not_state [of e] by (force simp: strict_prefix_def prefix_def)
      with changesD [OF foot b, of q] pki_prefix_not_state [of q e] that show "at w1 q = at w q" by auto
      from s t show "\<not> prefix t q" by (auto simp: scratch_def)
    qed
    from all_or_nothing [OF conjI [OF c None] t st] show ?thesis
    proof (elim disjE exE conjE)
      fix y v assume fill: "fill t w1 = (Inr y, v)"
        and final: "\<forall>s. at w' (?f @ s) = at v (t @ s)"
        and side: "\<forall>q \<in> state_area (store e). at w' q = at v q \<or> prefix t q"
        and res: "\<forall>z. r = Inr z \<longrightarrow> z = result t ?f y"
      have ne: "t \<noteq> []" using temp_name_parts [OF t] by simp
      have "t \<notin> state_area (store e)" using state [of t] by auto
      with changesD [OF fill_inside [OF c ne] fill, of t] bb(3)
      have "at v t = Some (Directory mode_0700)" by simp
      with None bb(1,4) ne fill final side res state show ?thesis
        by (intro disjI2 conjI exI [of _ t] exI [of _ y] exI [of _ w1] exI [of _ v]) auto
    qed (use early in auto)
  qed
qed

end


section \<open>RSA bundles\<close>

definition rsa_result :: "path \<Rightarrow> path \<Rightarrow> 64 word \<Rightarrow> Bundle" where
  "rsa_result temp final serial =
     \<lparr>CertificatePath = final @ [''server-rsa.crt''], KeyPath = final @ [''server-rsa.key''],
      Serial = serial\<rparr>"

lemma join_base:
  assumes "plain_segment c"
  shows "join_path p (path_base (t @ [c])) = p @ [c]"
  using assms by (simp add: path_base_def)

lemma bundle_names_plain:
  "plain_segment ''server-rsa.crt''" "plain_segment ''server-rsa.key''"
  "plain_segment ''server-sign.crt''" "plain_segment ''server-sign.key''"
  "plain_segment ''server-enc.crt''" "plain_segment ''server-enc.key''"
  by code_simp+

lemma IssueRSA_eq: "IssueRSA e req = issue e req (fill_rsa e req) rsa_result"
  unfolding IssueRSA_def issue_def stage_and_publish_def publishBundle_def rsa_result_def
  by (simp add: join_base bundle_names_plain)

lemmas command_defs = tool_step_def is_ca_command_def verify_command_def withPassin_def

lemma rsa_commands_confined: "list_all (tool_step (inside t)) (rsa_commands e req t serial)"
  by (simp add: rsa_commands_def Let_def command_defs)

lemma generated_modes:
  "generated_mode (t @ [''server-rsa.key'']) = mode_0600"
  "generated_mode (t @ [''server-rsa.csr'']) = mode_0600"
  "generated_mode (t @ [''server-rsa.crt'']) = mode_0644"
  "generated_mode (t @ [''rsa-ext.cnf'']) = mode_0600"
  "generated_mode (t @ [''server-sign.key'']) = mode_0600"
  "generated_mode (t @ [''server-sign.csr'']) = mode_0600"
  "generated_mode (t @ [''server-sign.crt'']) = mode_0644"
  "generated_mode (t @ [''sign-ext.cnf'']) = mode_0600"
  "generated_mode (t @ [''server-enc.key'']) = mode_0600"
  "generated_mode (t @ [''server-enc.csr'']) = mode_0600"
  "generated_mode (t @ [''server-enc.crt'']) = mode_0644"
  "generated_mode (t @ [''enc-ext.cnf'']) = mode_0600"
  by (simp_all add: generated_mode_def path_ext_def file_ext_def)

lemma fill_rsa_inside:
  assumes "confined (runner e)"
  shows "changes (inside t \<union> state_area (store e)) (fill_rsa e req t)"
proof -
  have "tool_step (inside t) = tool_step (inside t \<union> {})" by simp
  have "list_all (tool_step (inside t \<union> state_area (store e))) (rsa_commands e req t n)" for n
    using rsa_commands_confined [of t e req n] by (auto simp: list_all_iff tool_step_def)
  with assms show ?thesis
    unfolding fill_rsa_def Let_def by (intro footprint changes_runAll) auto
qed

interpretation rsa: bundle_issue e req "fill_rsa e req" rsa_result for e req
  by unfold_locales (rule fill_rsa_inside)

text \<open>The bundle a reader of the issued directory should find.\<close>

definition has_mode :: "world \<Rightarrow> path \<Rightarrow> mode \<Rightarrow> bool" where
  "has_mode w p m \<longleftrightarrow> (case at w p of None \<Rightarrow> False | Some n \<Rightarrow> node_mode n = m)"

definition has_config :: "world \<Rightarrow> path \<Rightarrow> Request \<Rightarrow> CertificateKind \<Rightarrow> bool" where
  "has_config w p req kind \<longleftrightarrow>
     (case BuildExtensionConfig req kind of
        Inl err \<Rightarrow> False
      | Inr config \<Rightarrow> at w p = Some (Regular mode_0600 config))"

definition rsa_bundle :: "Request \<Rightarrow> world \<Rightarrow> path \<Rightarrow> bool" where
  "rsa_bundle req w d \<longleftrightarrow>
     at w d = Some (Directory mode_0700) \<and>
     has_config w (d @ [''rsa-ext.cnf'']) req KindRSA \<and>
     has_mode w (d @ [''server-rsa.key'']) mode_0600 \<and>
     has_mode w (d @ [''server-rsa.csr'']) mode_0600 \<and>
     has_mode w (d @ [''server-rsa.crt'']) mode_0644"

text \<open>The certificate at \<open>p\<close> is the one the tool verified at \<open>q\<close>, made readable.\<close>

definition verified_copy :: "Engine \<Rightarrow> path \<Rightarrow> path \<Rightarrow> world \<Rightarrow> path \<Rightarrow> bool" where
  "verified_copy e ca q w p \<longleftrightarrow>
     (\<exists>u u' out. runner e (verify_command ca q) u = ((out, None), u') \<and>
        at w p = map_option (with_mode mode_0644) (at u' q))"

lemma has_mode_secured:
  "at w p = map_option (with_mode m) (at v p) \<Longrightarrow> at v p \<noteq> None \<Longrightarrow> has_mode w p m"
  by (auto simp: has_mode_def)

lemma stored_serial_kept:
  assumes "changes A m" and "m w = (r, w')" and "state_path s \<notin> A"
  shows "stored_serial s w' = stored_serial s w"
  using changesD [OF assms] by (rule stored_serial_cong)

lemma NextSerial_Inr:
  assumes "Store_NextSerial s w = (Inr n, w')"
  shows "stored_serial s w = Some n" and "n \<noteq> 0" and "n \<noteq> NOT 0" and "stored_serial s w' = Some (n + 1)"
  using NextSerial_result [OF assms] by (auto simp: advanced_def)

text \<open>The file the configuration was written to keeps it through the commands.\<close>

lemma written_file_kept:
  assumes wr: "os_write_file p d m w = (Inr u, w1)" and p: "p \<noteq> []"
    and ch: "changes A c" and run: "c w1 = (Inr u', w2)" and out: "p \<notin> A"
  shows "\<exists>m'. at w2 p = Some (Regular m' d)"
  using os_write_file_Inr [OF wr p] changesD [OF ch run out] by auto

lemma fill_rsa_Inr:
  assumes f: "fill_rsa e req t w = (Inr serial, v)" and c: "confined (runner e)"
    and t: "\<not> prefix t (state_path (store e))"
  shows "stored_serial (store e) w = Some serial \<and> stored_serial (store e) v = Some (serial + 1)"
    and "at v t = Some (Directory mode_0700) \<Longrightarrow> rsa_bundle req v t"
    and "verified_copy e (cert (caPaths e ''rsa'')) (t @ [''server-rsa.crt'']) v (t @ [''server-rsa.crt''])"
proof -
  let ?ext = "t @ [''rsa-ext.cnf'']" and ?key = "t @ [''server-rsa.key'']"
    and ?csr = "t @ [''server-rsa.csr'']" and ?crt = "t @ [''server-rsa.crt'']"
  from f obtain w1 config w2 w3 where n: "Store_NextSerial (store e) w = (Inr serial, w1)"
    and config: "BuildExtensionConfig req KindRSA = Inr config"
    and wr: "os_write_file ?ext config mode_0600 w1 = (Inr (), w2)"
    and run: "runAll e (rsa_commands e req t serial) w2 = (Inr (), w3)"
    and sec: "secureGeneratedFiles [?key, ?csr, ?crt, ?ext] w3 = (Inr (), v)"
    by (auto simp: fill_rsa_def Let_def bindE_Inr)
  note run_changes = changes_runAll [OF c rsa_commands_confined]
  have sp: "state_path (store e) \<notin> inside t" using t by (auto simp: inside_def strict_prefix_def)
  have "stored_serial (store e) w2 = stored_serial (store e) w1"
    by (rule stored_serial_kept [OF changes_os_write_file wr, of "inside t"]) (use sp in auto)
  moreover have "stored_serial (store e) w3 = stored_serial (store e) w2"
    by (rule stored_serial_kept [OF run_changes run sp])
  moreover have "stored_serial (store e) v = stored_serial (store e) w3"
    by (rule stored_serial_kept [OF changes_secureGeneratedFiles sec, of "inside t"]) (use sp in auto)
  ultimately show "stored_serial (store e) w = Some serial \<and> stored_serial (store e) v = Some (serial + 1)"
    using NextSerial_Inr [OF n] by simp
  note sec_at = secureGeneratedFiles_Inr [OF sec]
  have "list_all (tool_step (\<Union>p \<in> {?key, ?csr, ?crt}. below p)) (rsa_commands e req t serial)"
    by (auto simp: rsa_commands_def Let_def command_defs)
  from written_file_kept [OF wr _ changes_runAll [OF c this] run]
  obtain m where ext: "at w3 ?ext = Some (Regular m config)" by auto
  have modes: "at v p = map_option (with_mode (generated_mode p)) (at w3 p)" "at w3 p \<noteq> None"
    if "p \<in> {?key, ?csr, ?crt, ?ext}" for p
    using sec_at [of p] that by auto
  have "has_config v ?ext req KindRSA"
    using modes [of ?ext] ext config by (simp add: has_config_def generated_modes)
  moreover have "has_mode v ?key mode_0600" "has_mode v ?csr mode_0600" "has_mode v ?crt mode_0644"
    using modes [of ?key] modes [of ?csr] modes [of ?crt]
    by (auto simp: generated_modes intro!: has_mode_secured)
  ultimately show "at v t = Some (Directory mode_0700) \<Longrightarrow> rsa_bundle req v t"
    by (simp add: rsa_bundle_def)
  obtain commands where "rsa_commands e req t serial =
      commands @ [verify_command (cert (caPaths e ''rsa'')) ?crt]"
    by (simp add: rsa_commands_def Let_def)
  with run runAll_last [of e commands "verify_command (cert (caPaths e ''rsa'')) ?crt" w2 _ w3] modes [of ?crt]
  show "verified_copy e (cert (caPaths e ''rsa'')) ?crt v ?crt"
    by (auto simp: verified_copy_def generated_modes)
qed


lemma rsa_bundle_cong:
  assumes "\<forall>s. at w' (f @ s) = at v (t @ s)" and "rsa_bundle req v t"
  shows "rsa_bundle req w' f"
  using assms(2) assms(1)[rule_format, of "[]"] assms(1)
  by (simp add: rsa_bundle_def has_config_def has_mode_def split: sum.splits)

lemma issue_serial:
  assumes "\<forall>q \<in> state_area (store e). at w1 q = at w q \<and> at w' q = at v q \<and> \<not> prefix t q"
  shows "stored_serial (store e) w1 = stored_serial (store e) w"
    and "stored_serial (store e) w' = stored_serial (store e) v"
    and "\<not> prefix t (state_path (store e))"
proof -
  have "state_path (store e) \<in> state_area (store e)" by (simp add: state_area_def)
  with assms show "stored_serial (store e) w1 = stored_serial (store e) w"
    and "stored_serial (store e) w' = stored_serial (store e) v"
    and "\<not> prefix t (state_path (store e))"
    by (auto intro: stored_serial_cong)
qed

lemma verified_copy_moved:
  "verified_copy e ca q v p \<Longrightarrow> at w' p' = at v p \<Longrightarrow> verified_copy e ca q w' p'"
  by (auto simp: verified_copy_def)

section \<open>TLCP bundles\<close>

definition tlcp_result :: "path \<Rightarrow> path \<Rightarrow> 64 word \<times> 64 word \<Rightarrow> TLCPBundle" where
  "tlcp_result temp final serials =
     \<lparr>Signing = \<lparr>CertificatePath = final @ [''server-sign.crt''], KeyPath = final @ [''server-sign.key''],
        Serial = fst serials\<rparr>,
      Encryption = \<lparr>CertificatePath = final @ [''server-enc.crt''], KeyPath = final @ [''server-enc.key''],
        Serial = snd serials\<rparr>\<rparr>"

lemma IssueTLCP_eq: "IssueTLCP e req = issue e req (fill_tlcp e req) tlcp_result"
  unfolding IssueTLCP_def issue_def stage_and_publish_def publishBundle_def tlcp_result_def
  by (simp add: join_base bundle_names_plain case_prod_beta')

lemma path_str_slash: "path_str p = CHR ''/'' # tl (path_str p)"
  by (cases p) (auto simp: path_str_def)

lemma path_not_flag: "c \<noteq> CHR ''/'' \<Longrightarrow> path_str p \<noteq> c # s"
  using path_str_slash [of p] by (metis list.inject)

lemma tlcp_commands_confined: "list_all (tool_step (inside t)) (tlcp_commands e req t m n)"
  by (simp add: tlcp_commands_def sm2CertificateCommands_def bundleFiles_def Let_def command_defs)

text \<open>Without the passphrase the commands are these; with it the two signing commands carry it.\<close>

lemma tlcp_commands_end:
  "\<exists>commands. tlcp_commands e req t m n =
     commands @ [verify_command (cert (caPaths e ''sm2'')) (t @ [''server-sign.crt'']),
       verify_command (cert (caPaths e ''sm2'')) (t @ [''server-enc.crt''])]"
  by (simp add: tlcp_commands_def bundleFiles_def Let_def verify_command_def hasArgument_def path_not_flag)

lemma fill_tlcp_inside:
  assumes "confined (runner e)"
  shows "changes (inside t \<union> state_area (store e)) (fill_tlcp e req t)"
proof -
  have "list_all (tool_step (inside t \<union> state_area (store e))) (tlcp_commands e req t m n)" for m n
    using tlcp_commands_confined [of t e req m n] by (auto simp: list_all_iff tool_step_def)
  with assms show ?thesis
    unfolding fill_tlcp_def Let_def bundleFiles_def prod.case
    by (intro footprint changes_runAll) auto
qed

interpretation tlcp: bundle_issue e req "fill_tlcp e req" tlcp_result for e req
  by unfold_locales (rule fill_tlcp_inside)

definition tlcp_bundle :: "Request \<Rightarrow> world \<Rightarrow> path \<Rightarrow> bool" where
  "tlcp_bundle req w d \<longleftrightarrow>
     at w d = Some (Directory mode_0700) \<and>
     has_config w (d @ [''sign-ext.cnf'']) req KindTLCPSign \<and>
     has_config w (d @ [''enc-ext.cnf'']) req KindTLCPEnc \<and>
     has_mode w (d @ [''server-sign.key'']) mode_0600 \<and> has_mode w (d @ [''server-sign.csr'']) mode_0600 \<and>
     has_mode w (d @ [''server-sign.crt'']) mode_0644 \<and>
     has_mode w (d @ [''server-enc.key'']) mode_0600 \<and> has_mode w (d @ [''server-enc.csr'']) mode_0600 \<and>
     has_mode w (d @ [''server-enc.crt'']) mode_0644"

lemma tlcp_bundle_cong:
  assumes "\<forall>s. at w' (f @ s) = at v (t @ s)" and "tlcp_bundle req v t"
  shows "tlcp_bundle req w' f"
  using assms(2) assms(1)[rule_format, of "[]"] assms(1)
  by (simp add: tlcp_bundle_def has_config_def has_mode_def split: sum.splits)

lemma fill_tlcp_Inr:
  assumes f: "fill_tlcp e req t w = (Inr (m, n), v)" and c: "confined (runner e)"
    and t: "\<not> prefix t (state_path (store e))"
  shows "stored_serial (store e) w = Some m \<and> n = m + 1 \<and> stored_serial (store e) v = Some (m + 2)"
    and "at v t = Some (Directory mode_0700) \<Longrightarrow> tlcp_bundle req v t"
    and "verified_copy e (cert (caPaths e ''sm2'')) (t @ [''server-sign.crt'']) v (t @ [''server-sign.crt''])"
    and "verified_copy e (cert (caPaths e ''sm2'')) (t @ [''server-enc.crt'']) v (t @ [''server-enc.crt''])"
proof -
  let ?se = "t @ [''sign-ext.cnf'']" and ?ee = "t @ [''enc-ext.cnf'']"
  let ?sk = "t @ [''server-sign.key'']" and ?sr = "t @ [''server-sign.csr'']" and ?sc = "t @ [''server-sign.crt'']"
  let ?ek = "t @ [''server-enc.key'']" and ?er = "t @ [''server-enc.csr'']" and ?ec = "t @ [''server-enc.crt'']"
  let ?all = "[?sk, ?sr, ?sc, ?ek, ?er, ?ec, ?se, ?ee]"
  from f obtain w0 w1 sconf econf w2 w3 w4 where n1: "Store_NextSerial (store e) w = (Inr m, w0)"
    and n2: "Store_NextSerial (store e) w0 = (Inr n, w1)"
    and sconf: "BuildExtensionConfig req KindTLCPSign = Inr sconf"
    and econf: "BuildExtensionConfig req KindTLCPEnc = Inr econf"
    and swr: "os_write_file ?se sconf mode_0600 w1 = (Inr (), w2)"
    and ewr: "os_write_file ?ee econf mode_0600 w2 = (Inr (), w3)"
    and run: "runAll e (tlcp_commands e req t m n) w3 = (Inr (), w4)"
    and sec: "secureGeneratedFiles ?all w4 = (Inr (), v)"
    by (auto simp: fill_tlcp_def bundleFiles_def Let_def bindE_Inr)
  note run_changes = changes_runAll [OF c tlcp_commands_confined]
  have sp: "state_path (store e) \<notin> inside t" using t by (auto simp: inside_def strict_prefix_def)
  have "stored_serial (store e) w2 = stored_serial (store e) w1"
    by (rule stored_serial_kept [OF changes_os_write_file swr, of "inside t"]) (use sp in auto)
  moreover have "stored_serial (store e) w3 = stored_serial (store e) w2"
    by (rule stored_serial_kept [OF changes_os_write_file ewr, of "inside t"]) (use sp in auto)
  moreover have "stored_serial (store e) w4 = stored_serial (store e) w3"
    by (rule stored_serial_kept [OF run_changes run sp])
  moreover have "stored_serial (store e) v = stored_serial (store e) w4"
    by (rule stored_serial_kept [OF changes_secureGeneratedFiles sec, of "inside t"]) (use sp in auto)
  ultimately show "stored_serial (store e) w = Some m \<and> n = m + 1 \<and> stored_serial (store e) v = Some (m + 2)"
    using NextSerial_Inr [OF n1] NextSerial_Inr [OF n2] by simp
  let ?A = "\<Union>p \<in> {?sk, ?sr, ?sc, ?ek, ?er, ?ec}. below p"
  have "list_all (tool_step ?A) (tlcp_commands e req t m n)"
    by (auto simp: tlcp_commands_def sm2CertificateCommands_def bundleFiles_def Let_def command_defs)
  note runA = changes_runAll [OF c this]
  from written_file_kept [OF ewr _ runA run] obtain m1 where ee: "at w4 ?ee = Some (Regular m1 econf)" by auto
  from changesD [OF runA run, of ?se] changesD [OF changes_os_write_file [of ?ee "{?ee}"] ewr, of ?se]
    os_write_file_Inr [OF swr]
  obtain m2 where se: "at w4 ?se = Some (Regular m2 sconf)" by auto
  have modes: "at v p = map_option (with_mode (generated_mode p)) (at w4 p)" "at w4 p \<noteq> None"
    if "p \<in> set ?all" for p
    using secureGeneratedFiles_Inr [OF sec, of p] that by auto
  have "has_config v ?se req KindTLCPSign" "has_config v ?ee req KindTLCPEnc"
    using modes [of ?se] modes [of ?ee] se ee sconf econf by (simp_all add: has_config_def generated_modes)
  moreover have "has_mode v ?sk mode_0600" "has_mode v ?sr mode_0600" "has_mode v ?sc mode_0644"
    using modes [of ?sk] modes [of ?sr] modes [of ?sc]
    by (simp_all add: generated_modes has_mode_secured)
  moreover have "has_mode v ?ek mode_0600" "has_mode v ?er mode_0600" "has_mode v ?ec mode_0644"
    using modes [of ?ek] modes [of ?er] modes [of ?ec]
    by (simp_all add: generated_modes has_mode_secured)
  ultimately show "at v t = Some (Directory mode_0700) \<Longrightarrow> tlcp_bundle req v t"
    by (simp add: tlcp_bundle_def)
  let ?ca = "cert (caPaths e ''sm2'')"
  from tlcp_commands_end [of e req t m n] obtain commands where
    "tlcp_commands e req t m n = (commands @ [verify_command ?ca ?sc]) @ [verify_command ?ca ?ec]"
    by auto
  with run obtain u out out' where last: "runner e (verify_command ?ca ?ec) u = ((out, None), w4)"
    and prev: "\<exists>v. runner e (verify_command ?ca ?sc) v = ((out', None), u)"
    using runAll_last [of e "commands @ [verify_command ?ca ?sc]" "verify_command ?ca ?ec" w3 "()" w4]
      runAll_last [of e commands "verify_command ?ca ?sc" w3] by fastforce
  have "written u (verify_command ?ca ?ec) = {}"
    by (simp add: written_def verify_command_def is_ca_command_def)
  with c have "at (snd (runner e (verify_command ?ca ?ec) u)) ?sc = at u ?sc"
    unfolding confined_def by simp
  with last have "at w4 ?sc = at u ?sc" by simp
  with prev last modes [of ?sc] modes [of ?ec]
  show "verified_copy e ?ca ?sc v ?sc" and "verified_copy e ?ca ?ec v ?ec"
    by (auto simp: verified_copy_def generated_modes)
qed

end
