(* ===== verification/Pki_Issue_Claims.thy ===== *)
theory Pki_Issue_Claims
  imports Pki_Issue
begin

text \<open>
  The properties of issuing, and a stand-in for the cryptographic tool at which they are applied:
  the runner of internal/pki/engine_test.go, which writes a line to every output file.
\<close>

section \<open>A concrete tool\<close>

definition fake_write :: "path \<Rightarrow> unit io" where
  "fake_write p = store_file p (''generated:'' @ path_str p @ nl) mode_0644"

text \<open>It fails when it is given one of the listed commands.\<close>

definition fakeRunner :: "string list \<Rightarrow> Runner" where
  "fakeRunner bad args w =
     (if list_ex (\<lambda>b. take 1 args = [Lit b]) bad
      then (([], Some (ErrText ''injected crypto failure'')), w)
      else (case forE (out_paths args) fake_write w of
          (Inl err, w') \<Rightarrow> (([], Some err), w')
        | (Inr u, w') \<Rightarrow> ((''OK'', None), w')))"

lemma confined_fakeRunner: "confined (fakeRunner bad)"
  unfolding confined_def
proof (intro allI impI)
  fix args w q
  assume q: "q \<notin> written w args"
  have "changes (\<Union>p \<in> set (out_paths args). below p) (forE (out_paths args) fake_write)"
    unfolding fake_write_def by (intro footprint) auto
  with q have "at (snd (forE (out_paths args) fake_write w)) q = at w q"
    unfolding changes_def written_def by blast
  then show "at (snd (fakeRunner bad args w)) q = at w q"
    by (auto simp: fakeRunner_def split: prod.splits sum.splits)
qed

definition demo_engine :: "string list \<Rightarrow> Engine" where
  "demo_engine bad = NewEngine demo_store (fakeRunner bad)"

lemma confined_demo_engine: "confined (runner (demo_engine bad))"
  by (simp add: demo_engine_def NewEngine_def confined_fakeRunner)

section \<open>Properties\<close>

text \<open>C1. Issuing an RSA certificate is all or nothing for every reader of the issued directory:
  on an error the published name is what it was, or the bundle there is complete. A complete bundle
  is a private directory with the generated configuration, the private key and the request for the
  owner alone, and the very certificate the tool has verified against the CA. The name was free,
  the serial is the counter's, and the counter has moved past it.\<close>

theorem issue_rsa_all_or_nothing:
  assumes "confined (runner e)" and "IssueRSA e req w = (r, w')"
  shows "(\<exists>err. r = Inl err) \<and>
      (\<forall>s. at w' (issued_dir e @ [Name req] @ s) = at w (issued_dir e @ [Name req] @ s)) \<or>
    at w (issued_dir e @ [Name req]) = None \<and> rsa_bundle req w' (issued_dir e @ [Name req]) \<and>
    (\<exists>t. verified_copy e (cert (caPaths e ''rsa'')) (t @ [''server-rsa.crt'']) w'
       (issued_dir e @ [Name req, ''server-rsa.crt''])) \<and>
    (\<exists>n. stored_serial (store e) w = Some n \<and> stored_serial (store e) w' = Some (n + 1) \<and>
       (\<forall>b. r = Inr b \<longrightarrow> b =
          \<lparr>CertificatePath = issued_dir e @ [Name req, ''server-rsa.crt''],
           KeyPath = issued_dir e @ [Name req, ''server-rsa.key''], Serial = n\<rparr>))"
  using rsa.issue_outcome [OF assms(1) assms(2) [unfolded IssueRSA_eq]]
proof (elim disjE conjE exE)
  fix t n w1 v
  assume free: "at w (issued_dir e @ [Name req]) = None" and f: "fill_rsa e req t w1 = (Inr n, v)"
    and d: "at v t = Some (Directory mode_0700)"
    and st: "\<forall>q \<in> state_area (store e). at w1 q = at w q \<and> at w' q = at v q \<and> \<not> prefix t q"
    and fin: "\<forall>s. at w' (issued_dir e @ [Name req] @ s) = at v (t @ s)"
    and res: "\<forall>y. r = Inr y \<longrightarrow> y = rsa_result t (issued_dir e @ [Name req]) n"
  note st = issue_serial [OF st]
  note filled = fill_rsa_Inr [OF f assms(1) st(3)]
  have "rsa_bundle req w' (issued_dir e @ [Name req])"
    using rsa_bundle_cong [of w' "issued_dir e @ [Name req]" v t req] fin filled(2) [OF d] by simp
  moreover have "verified_copy e (cert (caPaths e ''rsa'')) (t @ [''server-rsa.crt'']) w'
      (issued_dir e @ [Name req, ''server-rsa.crt''])"
    using verified_copy_moved [OF filled(3)] fin[rule_format, of "[''server-rsa.crt'']"] by simp
  ultimately show ?thesis
    using free filled(1) st(1,2) res by (intro disjI2) (auto simp: rsa_result_def)
qed auto

theorem issue_rsa_all_or_nothing_witness:
  "rsa_bundle demo_request (snd (IssueRSA (demo_engine []) demo_request demo_world))
     [''data'', ''pki'', ''issued'', ''web-1''] \<and>
   (\<forall>s. at (snd (IssueRSA (demo_engine [''verify'']) demo_request demo_world))
       ([''data'', ''pki'', ''issued'', ''web-1''] @ s) =
     at demo_world ([''data'', ''pki'', ''issued'', ''web-1''] @ s))"
proof
  have f: "issued_dir (demo_engine bad) @ [Name demo_request] = [''data'', ''pki'', ''issued'', ''web-1'']" for bad
    by (simp add: issued_dir_def pki_dir_def demo_engine_def NewEngine_def demo_store_def demo_request_def)
  have "case fst (IssueRSA (demo_engine []) demo_request demo_world) of Inl err \<Rightarrow> False | Inr b \<Rightarrow> True"
    by code_simp
  then show "rsa_bundle demo_request (snd (IssueRSA (demo_engine []) demo_request demo_world))
      [''data'', ''pki'', ''issued'', ''web-1'']"
    using issue_rsa_all_or_nothing [OF confined_demo_engine prod.collapse [symmetric], of "[]" demo_request demo_world]
      f [of "[]"] by (auto split: sum.splits)
  have "at (snd (IssueRSA (demo_engine [''verify'']) demo_request demo_world))
      [''data'', ''pki'', ''issued'', ''web-1''] = None" by code_simp
  then have "\<not> rsa_bundle demo_request (snd (IssueRSA (demo_engine [''verify'']) demo_request demo_world))
      [''data'', ''pki'', ''issued'', ''web-1'']" by (simp add: rsa_bundle_def)
  then show "\<forall>s. at (snd (IssueRSA (demo_engine [''verify'']) demo_request demo_world))
       ([''data'', ''pki'', ''issued'', ''web-1''] @ s) =
     at demo_world ([''data'', ''pki'', ''issued'', ''web-1''] @ s)"
    using issue_rsa_all_or_nothing [OF confined_demo_engine prod.collapse [symmetric],
        of "[''verify'']" demo_request demo_world] f [of "[''verify'']"]
    by (metis append_assoc)
qed


text \<open>C2. Issuing a TLCP pair is all or nothing in the same sense, for both certificates at
  once; the signing and the encryption certificate have two different, consecutive serials, and the
  counter has moved past both.\<close>

theorem issue_tlcp_all_or_nothing:
  assumes "confined (runner e)" and "IssueTLCP e req w = (r, w')"
  shows "(\<exists>err. r = Inl err) \<and>
      (\<forall>s. at w' (issued_dir e @ [Name req] @ s) = at w (issued_dir e @ [Name req] @ s)) \<or>
    at w (issued_dir e @ [Name req]) = None \<and> tlcp_bundle req w' (issued_dir e @ [Name req]) \<and>
    (\<exists>t. verified_copy e (cert (caPaths e ''sm2'')) (t @ [''server-sign.crt'']) w'
         (issued_dir e @ [Name req, ''server-sign.crt'']) \<and>
       verified_copy e (cert (caPaths e ''sm2'')) (t @ [''server-enc.crt'']) w'
         (issued_dir e @ [Name req, ''server-enc.crt''])) \<and>
    (\<exists>n. stored_serial (store e) w = Some n \<and> stored_serial (store e) w' = Some (n + 2) \<and>
       (\<forall>b. r = Inr b \<longrightarrow> Serial (Signing b) = n \<and> Serial (Encryption b) = n + 1))"
  using tlcp.issue_outcome [OF assms(1) assms(2) [unfolded IssueTLCP_eq]]
proof (elim disjE conjE exE)
  fix t x w1 v
  assume free: "at w (issued_dir e @ [Name req]) = None" and f: "fill_tlcp e req t w1 = (Inr x, v)"
    and d: "at v t = Some (Directory mode_0700)"
    and st: "\<forall>q \<in> state_area (store e). at w1 q = at w q \<and> at w' q = at v q \<and> \<not> prefix t q"
    and fin: "\<forall>s. at w' (issued_dir e @ [Name req] @ s) = at v (t @ s)"
    and res: "\<forall>y. r = Inr y \<longrightarrow> y = tlcp_result t (issued_dir e @ [Name req]) x"
  note st = issue_serial [OF st]
  obtain m n where x: "x = (m, n)" by force
  note filled = fill_tlcp_Inr [OF f [unfolded x] assms(1) st(3)]
  have "tlcp_bundle req w' (issued_dir e @ [Name req])"
    using tlcp_bundle_cong [of w' "issued_dir e @ [Name req]" v t req] fin filled(2) [OF d] by simp
  moreover have "verified_copy e (cert (caPaths e ''sm2'')) (t @ [''server-sign.crt'']) w'
      (issued_dir e @ [Name req, ''server-sign.crt''])"
    using verified_copy_moved [OF filled(3)] fin[rule_format, of "[''server-sign.crt'']"] by simp
  moreover have "verified_copy e (cert (caPaths e ''sm2'')) (t @ [''server-enc.crt'']) w'
      (issued_dir e @ [Name req, ''server-enc.crt''])"
    using verified_copy_moved [OF filled(4)] fin[rule_format, of "[''server-enc.crt'']"] by simp
  ultimately show ?thesis
    using free filled(1) st(1,2) res x by (intro disjI2) (auto simp: tlcp_result_def)
qed auto

theorem issue_tlcp_all_or_nothing_witness:
  "tlcp_bundle demo_request (snd (IssueTLCP (demo_engine []) demo_request demo_world))
     [''data'', ''pki'', ''issued'', ''web-1''] \<and>
   stored_serial demo_store (snd (IssueTLCP (demo_engine []) demo_request demo_world)) = Some 9"
proof -
  have f: "issued_dir (demo_engine []) @ [Name demo_request] = [''data'', ''pki'', ''issued'', ''web-1'']"
    by (simp add: issued_dir_def pki_dir_def demo_engine_def NewEngine_def demo_store_def demo_request_def)
  have "case fst (IssueTLCP (demo_engine []) demo_request demo_world) of Inl err \<Rightarrow> False | Inr b \<Rightarrow> True"
    by code_simp
  moreover have "stored_serial (store (demo_engine [])) demo_world = Some 7" by code_simp
  moreover have "store (demo_engine []) = demo_store" by (simp add: demo_engine_def NewEngine_def)
  ultimately show ?thesis
    using issue_tlcp_all_or_nothing [OF confined_demo_engine prod.collapse [symmetric], of "[]" demo_request demo_world]
      f by (auto split: sum.splits)
qed

text \<open>C22. Issuing, of either kind, with or without an error, changes nothing in the CA
  directory, the published revocation lists and every other issued bundle.\<close>

theorem issuing_leaves_the_rest:
  assumes "confined (runner e)"
    and "prefix (engine_pki e @ [''ca'']) q \<or> prefix (engine_pki e @ [''crl'']) q \<or>
      (\<exists>c n s. q = issued_dir e @ (c # n) # s \<and> c # n \<noteq> Name req \<and> c \<noteq> CHR ''.'')"
  shows "at (snd (IssueRSA e req w)) q = at w q \<and> at (snd (IssueTLCP e req w)) q = at w q"
proof -
  have "q \<notin> {q. prefix q (issued_dir e)} \<union> scratch (issued_dir e) (bundle_pre req) [] \<union>
      state_area (store e) \<union> below (issued_dir e @ [Name req])"
    using assms(2)
  proof (elim disjE exE conjE)
    fix c n s assume q: "q = issued_dir e @ (c # n) # s" and "c # n \<noteq> Name req" and "c \<noteq> CHR ''.''"
    moreover have "\<not> prefix (bundle_pre req) (c # n)" using \<open>c \<noteq> _\<close> by (simp add: bundle_pre_def)
    ultimately show ?thesis
      using not_scratch [of "bundle_pre req" "c # n" "issued_dir e" s "[]"] issued_not_state [of e]
      by (auto dest: prefix_length_le)
  qed (auto simp: issued_dir_def bundle_pre_def prefix_def scratch_def temp_name_def
      dest!: below_state_area)
  then show ?thesis
    using rsa.issue_footprint [OF assms(1), of req] tlcp.issue_footprint [OF assms(1), of req]
    unfolding changes_def IssueRSA_eq IssueTLCP_eq by blast
qed

theorem issuing_leaves_the_rest_witness:
  "at (snd (IssueRSA (demo_engine []) demo_request demo_world)) [''data'', ''pki'', ''issued'', ''web-2''] =
     at demo_world [''data'', ''pki'', ''issued'', ''web-2'']"
proof -
  have "[''data'', ''pki'', ''issued'', ''web-2''] = issued_dir (demo_engine []) @ (CHR ''w'' # ''eb-2'') # []"
    and "''web-2'' \<noteq> Name demo_request"
    by (simp_all add: issued_dir_def pki_dir_def demo_engine_def NewEngine_def demo_store_def demo_request_def)
  then show ?thesis
    using issuing_leaves_the_rest [OF confined_demo_engine,
        of "[]" "[''data'', ''pki'', ''issued'', ''web-2'']" demo_request demo_world] by blast
qed

text \<open>Where the name is taken, the outcome is that of \<open>beginBundle\<close>.\<close>

definition refusal :: "Engine \<Rightarrow> Request \<Rightarrow> world \<Rightarrow> err \<times> world" where
  "refusal e req w =
     (case ValidateRequest req of
        Some err \<Rightarrow> (err, w)
      | None \<Rightarrow> (projl (fst (beginBundle e (Name req) w)), snd (beginBundle e (Name req) w)))"

lemma issue_refused:
  assumes "stat (files w) (issued_dir e @ [Name req]) = Inr n"
  shows "issue e req fill result w = (Inl (fst (refusal e req w)), snd (refusal e req w))"
proof (cases "ValidateRequest req")
  case (Some err)
  then show ?thesis by (auto simp: issue_def bindE_def failE_def throwE_def refusal_def)
next
  case None
  then have safe: "safeName (Name req)" by (simp add: validate_None)
  obtain r w1 where b: "beginBundle e (Name req) w = (r, w1)" by force
  have "r \<noteq> Inr x" for x
  proof
    assume "r = Inr x"
    with b beginBundle_Inr(1,4) [of e "Name req" w "fst x" "snd x" w1] safe assms show False
      by (cases x) (auto simp: stat_Inr)
  qed
  with b None show ?thesis by (cases r) (auto simp: issue_def bindE_def failE_def returnE_def refusal_def)
qed

lemma refusal_world:
  assumes "stat (files w) (issued_dir e @ [Name req]) = Inr n"
  shows "stored_serial (store e) (snd (refusal e req w)) = stored_serial (store e) w"
    and "at (snd (refusal e req w)) (issued_dir e @ [Name req] @ s) = at w (issued_dir e @ [Name req] @ s)"
proof -
  have "changes ({q. prefix q (issued_dir e)} \<union> scratch (issued_dir e) (bundle_pre req) [])
      (beginBundle e (Name req))"
    by (intro footprint) (auto simp: bundle_pre_def)
  note kept = this [unfolded changes_def, rule_format, of _ w]
  have sp: "state_path (store e) \<in> state_area (store e)" by (simp add: state_area_def)
  have "state_path (store e) \<notin> scratch (issued_dir e) (bundle_pre req) []"
    by (auto simp: scratch_def temp_name_def issued_dir_def state_path_def)
  with kept [of "state_path (store e)"] pki_prefix_not_state [of "state_path (store e)" e] sp
  have "at (snd (beginBundle e (Name req) w)) (state_path (store e)) = at w (state_path (store e))" by auto
  then show "stored_serial (store e) (snd (refusal e req w)) = stored_serial (store e) w"
    by (auto simp: refusal_def intro: stored_serial_cong split: option.splits)
  have "\<not> prefix (bundle_pre req) (Name req)" if "ValidateRequest req = None"
    using that safe_name_not_hidden by (auto simp: validate_None bundle_pre_def)
  with kept [of "issued_dir e @ [Name req] @ s"] not_scratch [of "bundle_pre req" "Name req" "issued_dir e" s "[]"]
  show "at (snd (refusal e req w)) (issued_dir e @ [Name req] @ s) = at w (issued_dir e @ [Name req] @ s)"
    by (auto simp: refusal_def dest: prefix_length_le split: option.splits)
qed

lemma refusal_runner: "refusal (e\<lparr>runner := f\<rparr>) req w = refusal e req w"
  by (cases "ValidateRequest req") (simp_all add: refusal_def beginBundle_def issued_dir_def)

text \<open>C21. A name that is taken is refused before a serial is drawn or a command is run: both
  operations fail, the counter and the existing bundle stay as they are, and whatever tool the engine
  has makes no difference.\<close>

theorem existing_name_refused:
  assumes "stat (files w) (issued_dir e @ [Name req]) = Inr n"
  shows "\<exists>err w'. IssueRSA (e\<lparr>runner := f\<rparr>) req w = (Inl err, w') \<and>
    IssueTLCP (e\<lparr>runner := f\<rparr>) req w = (Inl err, w') \<and>
    IssueRSA e req w = (Inl err, w') \<and> IssueTLCP e req w = (Inl err, w') \<and>
    stored_serial (store e) w' = stored_serial (store e) w \<and>
    (\<forall>s. at w' (issued_dir e @ [Name req] @ s) = at w (issued_dir e @ [Name req] @ s))"
proof -
  have "stat (files w) (issued_dir (e\<lparr>runner := f\<rparr>) @ [Name req]) = Inr n"
    using assms by (simp add: issued_dir_def)
  note refused = issue_refused [OF this] issue_refused [OF assms]
  show ?thesis
    unfolding IssueRSA_eq IssueTLCP_eq refused refusal_runner
    using refusal_world [OF assms] by blast
qed

definition taken_world :: world where
  "taken_world = demo_world\<lparr>files := files demo_world @
     [([''data'', ''pki'', ''issued''], Directory mode_0700),
      ([''data'', ''pki'', ''issued'', ''web-1''], Directory mode_0700)]\<rparr>"

theorem existing_name_refused_witness:
  "\<exists>err. fst (IssueRSA (demo_engine []) demo_request taken_world) = Inl err \<and>
     stored_serial demo_store (snd (IssueRSA (demo_engine []) demo_request taken_world)) = Some 7"
proof -
  have "stat (files taken_world) (issued_dir (demo_engine []) @ [Name demo_request]) = Inr (Directory mode_0700)"
    by code_simp
  from existing_name_refused [OF this]
  obtain err w' where "IssueRSA (demo_engine []) demo_request taken_world = (Inl err, w')"
    and "stored_serial (store (demo_engine [])) w' = stored_serial (store (demo_engine [])) taken_world"
    by blast
  moreover have "stored_serial demo_store taken_world = Some 7" by code_simp
  ultimately show ?thesis by (simp add: demo_engine_def NewEngine_def)
qed

text \<open>The passphrase of the CA key goes to exactly the commands that use the CA key, always
  as the name of an environment variable; the keys of the issued certificates are generated without
  it.\<close>

definition passin :: "arg list" where
  "passin = [Lit ''-passin'', Lit ''env:CERTARIUM_CA_PASSPHRASE'']"

theorem ca_key_commands_carry_the_passphrase:
  "c \<in> set (rsa_commands e req t m) \<union> set (tlcp_commands e req t m n) \<Longrightarrow>
     suffix passin c \<longleftrightarrow> passphrase e \<and> hasArgument c ''-CAkey''"
  by (cases "passphrase e")
    (auto simp: rsa_commands_def tlcp_commands_def sm2CertificateCommands_def bundleFiles_def
      verify_command_def withPassin_def passin_def hasArgument_def path_not_flag suffix_to_prefix Let_def)

theorem ca_key_commands_carry_the_passphrase_witness:
  "list_all (suffix passin)
     (filter (\<lambda>c. hasArgument c ''-CAkey'')
       (rsa_commands (demo_engine []\<lparr>passphrase := True\<rparr>) demo_request [''t''] 7))"
proof -
  let ?e = "demo_engine []\<lparr>passphrase := True\<rparr>"
  have "suffix passin c" if "c \<in> set (rsa_commands ?e demo_request [''t''] 7)" and "hasArgument c ''-CAkey''" for c
    using ca_key_commands_carry_the_passphrase [of c ?e demo_request "[''t'']" 7 0] that by simp
  then show ?thesis by (auto simp: list_all_iff)
qed

end
