(* ===== verification/Pki_Authorities.thy ===== *)
theory Pki_Authorities
  imports Pki_Issue_Claims
begin

text \<open>
  Creating the two root authorities: \<open>InitializeAuthorities\<close> publishes a complete CA directory
  or leaves none, and the commands that make and use the root keys carry the passphrase.
\<close>

section \<open>The directory it publishes\<close>

definition has_data :: "world \<Rightarrow> path \<Rightarrow> string \<Rightarrow> bool" where
  "has_data w p d \<longleftrightarrow> (case at w p of None \<Rightarrow> False | Some n \<Rightarrow> node_data n = Some d)"

definition authority_files :: "world \<Rightarrow> path \<Rightarrow> bool" where
  "authority_files w d \<longleftrightarrow>
     has_mode w (d @ [''root-ca.key'']) mode_0600 \<and> has_mode w (d @ [''root-ca.crt'']) mode_0644 \<and>
     list_all (\<lambda>(name, content). has_data w (d @ [name]) content) database_files"

definition authorities :: "world \<Rightarrow> path \<Rightarrow> bool" where
  "authorities w d \<longleftrightarrow>
     at w d = Some (Directory mode_0700) \<and>
     at w (d @ [''ca.cnf'']) = Some (Regular mode_0600 rootCAConfig) \<and>
     authority_files w (d @ [''rsa'']) \<and> authority_files w (d @ [''sm2''])"

section \<open>Commands\<close>

lemma root_commands_out:
  "out_paths (root_key_command e a opt k) = [k]" "out_paths (root_req_command e dg c k s crt) = [crt]"
  "\<not> is_ca_command (root_key_command e a opt k)" "\<not> is_ca_command (root_req_command e dg c k s crt)"
  "out_paths (verify_command ca crt) = []" "\<not> is_ca_command (verify_command ca crt)"
  by (simp_all add: root_key_command_def root_req_command_def command_defs)

lemma authority_commands_confined:
  "list_all (tool_step (\<Union>p \<in> {t @ [d, n] |d n. d \<in> {''rsa'', ''sm2''} \<and> n \<in> {''root-ca.key'', ''root-ca.crt''}}. below p))
     (authority_commands e organization t)"
  by (auto simp: authority_commands_def Let_def tool_step_def root_commands_out)

lemma runAll_middle:
  assumes "runAll e (xs @ args # ys) w = (Inr u, w')"
  shows "\<exists>v v' out. runner e args v = ((out, None), v') \<and> runAll e ys v' = (Inr u, w')"
  using assms by (auto simp: runAll_def forE_Inr_append bindE_Inr runCommand_Inr)

text \<open>A certificate verified on the way is not touched by the commands after it.\<close>

lemma verified_then_kept:
  assumes "runAll e (xs @ verify_command ca crt # ys) w = (Inr u, w')" and "confined (runner e)"
    and "list_all (tool_step A) ys" and "crt \<notin> A" and "at v crt = map_option (with_mode mode_0644) (at w' crt)"
  shows "verified_copy e ca crt v crt"
proof -
  from runAll_middle [OF assms(1)] obtain x x' out
    where "runner e (verify_command ca crt) x = ((out, None), x')" and r: "runAll e ys x' = (Inr u, w')"
    by blast
  with changesD [OF changes_runAll [OF assms(2,3)] r assms(4)] assms(5)
  show ?thesis by (auto simp: verified_copy_def)
qed

section \<open>Filling the directory\<close>

lemma changes_make_ca_dir [footprint]: "below d \<subseteq> A \<Longrightarrow> changes A (make_ca_dir d)"
proof -
  assume "below d \<subseteq> A"
  then have "d @ s \<in> A" for s by auto
  from this [of "[]"] this show ?thesis
    unfolding make_ca_dir_def by (intro footprint) auto
qed

lemma fill_authorities_below:
  assumes "confined (runner e)"
  shows "changes (below t) (fill_authorities e organization t)"
proof -
  have "list_all (tool_step (below t)) (authority_commands e organization t)"
    by (auto simp: authority_commands_def Let_def tool_step_def root_commands_out dest: append_prefixD)
  then show ?thesis
    unfolding fill_authorities_def using assms
    by (intro footprint changes_runAll) (auto dest: append_prefixD)
qed

interpretation roots: staged_directory "confined (runner e)" "engine_pki e" "''ca''" "''.ca-''"
  "fill_authorities e organization" "{}" for e organization
  by unfold_locales (auto intro: fill_authorities_below)

lemma bindE_unit: "bindE m (\<lambda>_. returnE ()) = m"
  by (auto simp: fun_eq_iff bindE_def returnE_def split: prod.splits sum.splits)

lemma InitializeAuthorities_eq:
  "InitializeAuthorities e organization =
     bindE (checkE (\<not> unsafe_organization organization)
       (ErrText ''organization is empty, too long, or unsafe'')) (\<lambda>_.
     bindE (wrapE ''initialize state before authorities'' (readState (state_path (store e)))) (\<lambda>_.
     bindE (require_absent (engine_pki e @ [''ca'']) (ErrText ''certificate authorities already exist'')
       ''inspect certificate authorities'') (\<lambda>_.
     bindE (wrapE ''create temporary CA directory'' (os_mkdir_temp (engine_pki e) ''.ca-''))
       (stage_and_publish (fill_authorities e organization) ''publish certificate authorities''
         (engine_pki e @ [''ca'']) (\<lambda>_. ())))))"
  unfolding InitializeAuthorities_def Let_def stage_and_publish_def bindE_unit state_path_def
  by simp

text \<open>What the initial database files hold after the loop over the literal map.\<close>

lemma write_entries:
  assumes "forE es (\<lambda>(name, content). wrapE msg (os_write_file (d @ [name]) content m)) w = (Inr u, w')"
    and "distinct (map fst es)"
  shows "(\<forall>(name, content) \<in> set es. has_data w' (d @ [name]) content) \<and>
    (\<forall>q. q \<notin> (\<lambda>e. d @ [fst e]) ` set es \<longrightarrow> at w' q = at w q)"
  using assms
proof (induction es arbitrary: w)
  case (Cons x es)
  obtain name content where x: "x = (name, content)" by force
  from Cons.prems x obtain v where wr: "os_write_file (d @ [name]) content m w = (Inr (), v)"
    and rest: "forE es (\<lambda>(name, content). wrapE msg (os_write_file (d @ [name]) content m)) v = (Inr u, w')"
    by (auto simp: bindE_Inr)
  from os_write_file_Inr [OF wr] obtain m' where v: "at v = (at w)(d @ [name] \<mapsto> Regular m' content)" by auto
  note IH = Cons.IH [OF rest]
  have "d @ [name] \<notin> (\<lambda>e. d @ [fst e]) ` set es" using Cons.prems(2) x by (auto simp: image_iff)
  with IH Cons.prems(2) x have "at w' (d @ [name]) = at v (d @ [name])" by auto
  then have "has_data w' (d @ [name]) content" using v by (simp add: has_data_def)
  with IH Cons.prems(2) x v show ?case by auto
qed simp

lemma make_ca_dir_Inr:
  assumes "make_ca_dir d w = (Inr u, w')"
  shows "list_all (\<lambda>(name, content). has_data w' (d @ [name]) content) database_files"
proof -
  from assms obtain w1 es w2 where "range_map database_files w1 = (Inr es, w2)"
    and wr: "forE es (\<lambda>(name, content).
       wrapE ''initialize CA database'' (os_write_file (d @ [name]) content mode_0600)) w2 = (Inr u, w')"
    by (auto simp: make_ca_dir_def bindE_Inr)
  then have m: "mset es = mset database_files" by (auto elim: range_map_Inr)
  then have s: "set es = set database_files" by (rule mset_eq_setD)
  from m have "mset (map fst es) = mset (map fst database_files)" by simp
  moreover have "distinct (map fst database_files)" by (simp add: database_files_def)
  ultimately have "distinct (map fst es)" by (metis mset_eq_imp_distinct_iff)
  from write_entries [OF wr this] show ?thesis unfolding s by (auto simp: list_all_iff)
qed

lemma has_data_kept: "has_data w p d \<Longrightarrow> at w' p = at w p \<Longrightarrow> has_data w' p d"
  by (simp add: has_data_def)

lemma root_modes:
  "generated_mode (t @ [d, ''root-ca.key'']) = mode_0600"
  "generated_mode (t @ [d, ''root-ca.crt'']) = mode_0644"
  "generated_mode (t @ [''ca.cnf'']) = mode_0600"
  by (simp_all add: generated_mode_def path_ext_def file_ext_def)

lemma fill_authorities_Inr:
  assumes f: "fill_authorities e organization t w = (Inr u, v)" and c: "confined (runner e)"
    and t: "t \<noteq> []" and d: "\<exists>m. at w t = Some (Directory m)"
  shows "authorities v t"
    and "k \<in> {''rsa'', ''sm2''} \<Longrightarrow>
      verified_copy e (t @ [k, ''root-ca.crt'']) (t @ [k, ''root-ca.crt'']) v (t @ [k, ''root-ca.crt''])"
proof -
  let ?cnf = "t @ [''ca.cnf'']"
  let ?rk = "t @ [''rsa'', ''root-ca.key'']" and ?rc = "t @ [''rsa'', ''root-ca.crt'']"
  let ?sk = "t @ [''sm2'', ''root-ca.key'']" and ?sc = "t @ [''sm2'', ''root-ca.crt'']"
  from f obtain w1 w2 w3 w4 w5 where ch: "os_chmod t mode_0700 w = (Inr (), w1)"
    and rsa: "make_ca_dir (t @ [''rsa'']) w1 = (Inr (), w2)"
    and sm2: "make_ca_dir (t @ [''sm2'']) w2 = (Inr (), w3)"
    and cnf: "os_write_file ?cnf rootCAConfig mode_0600 w3 = (Inr (), w4)"
    and run: "runAll e (authority_commands e organization t) w4 = (Inr (), w5)"
    and sec: "secureGeneratedFiles [?rk, ?rc, ?sk, ?sc, ?cnf] w5 = (Inr u, v)"
    by (auto simp: fill_authorities_def bindE_Inr)
  let ?gen = "\<Union>p \<in> {t @ [d, n] |d n. d \<in> {''rsa'', ''sm2''} \<and> n \<in> {''root-ca.key'', ''root-ca.crt''}}. below p"
  note run_at = changesD [OF changes_runAll [OF c authority_commands_confined] run]
  note sec_at = secureGeneratedFiles_Inr [OF sec]
  note sm2_at = changesD [OF changes_make_ca_dir [OF order_refl] sm2]
  note rsa_at = changesD [OF changes_make_ca_dir [OF order_refl] rsa]
  note cnf_at = changesD [OF changes_os_write_file [of ?cnf "{?cnf}"] cnf]
  have late: "at v p = at w3 p" if "p \<notin> ?gen" and "p \<noteq> ?cnf" for p
    using that run_at [of p] cnf_at [of p] sec_at(1) [of p] by auto
  have "at w1 t = Some (Directory mode_0700)" using os_chmod_Inr [OF ch] t d by auto
  moreover have "t \<notin> ?gen" by (auto dest: prefix_length_le)
  ultimately have dir: "at v t = Some (Directory mode_0700)"
    using late [of t] sm2_at [of t] rsa_at [of t] by auto
  have db: "has_data v (t @ [k, name]) content"
    if "(name, content) \<in> set database_files" and "k \<in> {''rsa'', ''sm2''}" for k name content
  proof -
    have "has_data w3 (t @ [k, name]) content"
      using that make_ca_dir_Inr [OF rsa] make_ca_dir_Inr [OF sm2] sm2_at [of "t @ [k, name]"]
      by (auto simp: list_all_iff intro: has_data_kept)
    moreover have "at v (t @ [k, name]) = at w3 (t @ [k, name])"
      using that by (intro late) (auto simp: database_files_def)
    ultimately show ?thesis by (rule has_data_kept)
  qed
  have modes: "at v p = map_option (with_mode (generated_mode p)) (at w5 p)" "at w5 p \<noteq> None"
    if "p \<in> {?rk, ?rc, ?sk, ?sc, ?cnf}" for p
    using sec_at [of p] that by auto
  have keys: "has_mode v (t @ [k, ''root-ca.key'']) mode_0600 \<and> has_mode v (t @ [k, ''root-ca.crt'']) mode_0644"
    if "k \<in> {''rsa'', ''sm2''}" for k
    using that modes [of "t @ [k, ''root-ca.key'']"] modes [of "t @ [k, ''root-ca.crt'']"]
    by (auto simp: root_modes intro!: has_mode_secured)
  from os_write_file_Inr [OF cnf] obtain m where "at w4 ?cnf = Some (Regular m rootCAConfig)" by auto
  moreover have "?cnf \<notin> ?gen" by (auto dest: prefix_length_le)
  ultimately have "at w5 ?cnf = Some (Regular m rootCAConfig)" using run_at [of ?cnf] by simp
  with modes [of ?cnf] have "at v ?cnf = Some (Regular mode_0600 rootCAConfig)"
    by (auto simp: root_modes)
  with dir keys db show "authorities v t"
    by (auto simp: authorities_def authority_files_def list_all_iff)
  have rc: "verified_copy e ?rc ?rc v ?rc"
  proof (rule verified_then_kept [OF _ c])
    show "runAll e (take 2 (authority_commands e organization t) @ verify_command ?rc ?rc #
        drop 3 (authority_commands e organization t)) w4 = (Inr (), w5)"
      using run by (simp add: authority_commands_def Let_def)
    show "list_all (tool_step (below ?sk \<union> below ?sc)) (drop 3 (authority_commands e organization t))"
      by (auto simp: authority_commands_def Let_def tool_step_def root_commands_out)
    show "at v ?rc = map_option (with_mode mode_0644) (at w5 ?rc)" using modes [of ?rc] by (simp add: root_modes)
  qed simp
  have sc: "verified_copy e ?sc ?sc v ?sc"
  proof (rule verified_then_kept [OF _ c])
    show "runAll e (take 5 (authority_commands e organization t) @ verify_command ?sc ?sc # []) w4 = (Inr (), w5)"
      using run by (simp add: authority_commands_def Let_def)
    show "list_all (tool_step {}) []" by simp
    show "at v ?sc = map_option (with_mode mode_0644) (at w5 ?sc)" using modes [of ?sc] by (simp add: root_modes)
  qed simp
  from rc sc show "k \<in> {''rsa'', ''sm2''} \<Longrightarrow>
      verified_copy e (t @ [k, ''root-ca.crt'']) (t @ [k, ''root-ca.crt'']) v (t @ [k, ''root-ca.crt''])"
    by auto
qed


lemma changes_InitializeAuthorities:
  assumes "confined (runner e)"
  shows "changes (scratch (engine_pki e) ''.ca-'' [] \<union> below (engine_pki e @ [''ca'']))
    (InitializeAuthorities e organization)" (is "changes ?A _")
proof -
  have "changes ?A (bindE (wrapE ''create temporary CA directory'' (os_mkdir_temp (engine_pki e) ''.ca-''))
       (stage_and_publish (fill_authorities e organization) ''publish certificate authorities''
         (engine_pki e @ [''ca'']) (\<lambda>_. ())))"
  proof (rule changes_bindE_gives [OF _ gives_wrapE [OF gives_temp(1)]])
    show "changes ?A (wrapE ''create temporary CA directory'' (os_mkdir_temp (engine_pki e) ''.ca-''))"
      by (intro footprint) auto
  next
    fix t assume t: "temp_name (engine_pki e) ''.ca-'' [] t"
    show "changes ?A (stage_and_publish (fill_authorities e organization) ''publish certificate authorities''
         (engine_pki e @ [''ca'']) (\<lambda>_. ()) t)"
      by (rule changes_mono [OF roots.footprint_all [OF assms t]]) (use below_scratch [OF t] in auto)
  qed
  then show ?thesis
    unfolding InitializeAuthorities_eq
    by (intro changes_bindE [OF changes_checkE] changes_bindE [OF changes_wrapE [OF changes_readState]]
        changes_bindE [OF changes_require_absent])
qed

lemma os_read_file_walk:
  assumes "os_read_file p w = (Inr d, w')"
  shows "blocked (files w) p = None"
  using assms unfolding os_read_file_def
  by (cases rule: syscall_cases) (auto simp: fault_def stat_Inr split: sum.splits)

lemma blocked_sibling: "blocked f (d @ [a]) = None \<Longrightarrow> blocked f (d @ [b]) = None"
proof -
  have "strict_prefix q (d @ [x]) \<longleftrightarrow> prefix q d" for q x
    by (auto simp: strict_prefix_def dest: prefix_length_le)
  then show "blocked f (d @ [a]) = None \<Longrightarrow> blocked f (d @ [b]) = None" by (simp add: blocked_None)
qed

lemma InitializeAuthorities_outcome:
  assumes c: "confined (runner e)" and run: "InitializeAuthorities e organization w = (r, w')"
  shows "(\<exists>err. r = Inl err) \<and> (\<forall>s. at w' (engine_pki e @ [''ca''] @ s) = at w (engine_pki e @ [''ca''] @ s)) \<or>
    \<not> unsafe_organization organization \<and> stored_serial (store e) w \<noteq> None \<and>
    at w (engine_pki e @ [''ca'']) = None \<and>
    (\<exists>t w1 v m. t \<noteq> [] \<and> at w1 t = Some (Directory m) \<and>
       fill_authorities e organization t w1 = (Inr (), v) \<and>
       (\<forall>s. at w' (engine_pki e @ [''ca''] @ s) = at v (t @ s)))"
proof -
  let ?f = "engine_pki e @ [''ca'']"
  let ?create = "wrapE ''create temporary CA directory'' (os_mkdir_temp (engine_pki e) ''.ca-'')"
  let ?tail = "stage_and_publish (fill_authorities e organization) ''publish certificate authorities'' ?f (\<lambda>_. ())"
  have stop: ?thesis if "r = Inl err" and "files w' = files w" for err
    using that by simp
  obtain r1 w1 where rs: "readState (state_path (store e)) w = (r1, w1)" by force
  note f1 = readState_files [OF rs]
  obtain r2 w2 where ab: "require_absent ?f (ErrText ''certificate authorities already exist'')
      ''inspect certificate authorities'' w1 = (r2, w2)" by force
  note f2 = require_absent_files [OF ab]
  obtain r3 w3 where tmp: "os_mkdir_temp (engine_pki e) ''.ca-'' w2 = (r3, w3)" by force
  note eq = run [unfolded InitializeAuthorities_eq]
  show ?thesis
  proof (cases "unsafe_organization organization \<or> (\<exists>err. r1 = Inl err) \<or> (\<exists>err. r2 = Inl err) \<or> (\<exists>err. r3 = Inl err)")
    case True
    have "(\<exists>err. r = Inl err) \<and> files w' = files w"
    proof (cases "unsafe_organization organization")
      case True
      with eq show ?thesis by (auto simp: bindE_def checkE_def throwE_def)
    next
      case safe: False
      note eq = eq [unfolded bindE_def checkE_def, simplified safe, simplified, unfolded returnE_def prod.case sum.case
          wrapE_def rs]
      show ?thesis
      proof (cases r1)
        case (Inl err)
        with eq f1 show ?thesis by auto
      next
        case Inr1: (Inr st)
        note eq = eq [unfolded Inr1 prod.case sum.case ab]
        show ?thesis
        proof (cases r2)
          case (Inl err)
          with eq f1 f2 show ?thesis by auto
        next
          case Inr2: (Inr u)
          with True Inr1 safe obtain err where "r3 = Inl err" by auto
          with eq Inr2 tmp f1 f2 create_temp_Inl [of "Directory mode_0700" "engine_pki e" "''.ca-''" "[]" w2 err w3]
          show ?thesis by (auto simp: os_mkdir_temp_def)
        qed
      qed
    qed
    then obtain err where "r = Inl err" and "files w' = files w" by auto
    then show ?thesis by (rule stop)
  next
    case False
    then obtain st u t where ok: "r1 = Inr st" "r2 = Inr u" "r3 = Inr t" "\<not> unsafe_organization organization"
      by (cases r1; cases r2; cases r3) auto
    with run rs ab tmp have st: "?tail t w3 = (r, w')"
      unfolding InitializeAuthorities_eq by (simp add: bindE_def checkE_def returnE_def wrapE_def)
    note temp = create_temp_Inr [OF tmp [unfolded ok os_mkdir_temp_def]]
    obtain m where w3: "at w3 = (at w)(t \<mapsto> Directory m)" using temp(3) f1 f2 by auto
    have ne: "t \<noteq> []" using temp_name_parts [OF temp(1)] by simp
    note apart = roots.temp_apart [OF c temp(1)]
    have "stored_serial (store e) w = Some (NextSerial st)"
      using readState_Inr [OF rs [unfolded ok]] by (simp add: stored_serial_def)
    moreover have "at w ?f = None"
    proof -
      obtain d v where "os_read_file (state_path (store e)) w = (Inr d, v)"
        using rs [unfolded ok] unfolding readState_def bindE_Inr wrapE_Inr by blast
      then have "blocked (files w) (state_path (store e)) = None" by (rule os_read_file_walk)
      then have "blocked (files w1) ?f = None"
        unfolding f1 state_path_def by (rule blocked_sibling)
      with require_absent_Inr [OF ab [unfolded ok]] f1 show ?thesis by (auto dest: stat_absent)
    qed
    ultimately have pre: "stored_serial (store e) w \<noteq> None" "at w ?f = None" by auto
    have kept: "at w3 (?f @ s) = at w (?f @ s)" for s using w3 apart(2) [of s] by auto
    have dir: "at w3 t = Some (Directory m)" using w3 by simp
    from roots.all_or_nothing [OF c temp(1) st] show ?thesis
    proof (elim disjE exE conjE)
      fix err assume "r = Inl err" and "\<forall>s. at w' (?f @ s) = at w3 (?f @ s)"
      with kept show ?thesis by simp
    next
      fix x v assume "fill_authorities e organization t w3 = (Inr x, v)"
        and "\<forall>s. at w' (?f @ s) = at v (t @ s)"
      with pre ok(4) ne dir show ?thesis
        by (intro disjI2 conjI exI [of _ t] exI [of _ w3] exI [of _ v] exI [of _ m]) simp_all
    qed
  qed
qed


section \<open>Properties\<close>

text \<open>C3. Creating the authorities is all or nothing: on an error the CA directory is what it was,
  or it is complete. A complete one is private, has both root keys for the owner alone, the root
  certificates the tool has verified, the initial databases and the configuration. It needs a
  readable state and an absent CA directory, so existing authorities are never replaced, and nothing
  outside it and its temporary directory changes.\<close>

theorem authorities_all_or_nothing:
  assumes "confined (runner e)" and "InitializeAuthorities e organization w = (r, w')"
  shows "((\<exists>err. r = Inl err) \<and>
        (\<forall>s. at w' (engine_pki e @ [''ca''] @ s) = at w (engine_pki e @ [''ca''] @ s)) \<or>
      \<not> unsafe_organization organization \<and> stored_serial (store e) w \<noteq> None \<and>
      at w (engine_pki e @ [''ca'']) = None \<and> authorities w' (engine_pki e @ [''ca'']) \<and>
      (\<exists>t. \<forall>k \<in> {''rsa'', ''sm2''}.
         verified_copy e (t @ [k, ''root-ca.crt'']) (t @ [k, ''root-ca.crt'']) w'
           (engine_pki e @ [''ca'', k, ''root-ca.crt'']))) \<and>
    (\<forall>q. q \<notin> scratch (engine_pki e) ''.ca-'' [] \<union> below (engine_pki e @ [''ca'']) \<longrightarrow> at w' q = at w q)"
proof
  show "\<forall>q. q \<notin> scratch (engine_pki e) ''.ca-'' [] \<union> below (engine_pki e @ [''ca'']) \<longrightarrow> at w' q = at w q"
    using changesD [OF changes_InitializeAuthorities [OF assms(1)] assms(2)] by blast
  have move: "authorities w' f" if "authorities v t" and "\<forall>s. at w' (f @ s) = at v (t @ s)" for v t f
    using that(1) that(2)[rule_format, of "[]"] that(2)
    by (simp add: authorities_def authority_files_def has_mode_def has_data_def database_files_def)
  from InitializeAuthorities_outcome [OF assms]
  show "(\<exists>err. r = Inl err) \<and>
        (\<forall>s. at w' (engine_pki e @ [''ca''] @ s) = at w (engine_pki e @ [''ca''] @ s)) \<or>
      \<not> unsafe_organization organization \<and> stored_serial (store e) w \<noteq> None \<and>
      at w (engine_pki e @ [''ca'']) = None \<and> authorities w' (engine_pki e @ [''ca'']) \<and>
      (\<exists>t. \<forall>k \<in> {''rsa'', ''sm2''}.
         verified_copy e (t @ [k, ''root-ca.crt'']) (t @ [k, ''root-ca.crt'']) w'
           (engine_pki e @ [''ca'', k, ''root-ca.crt'']))"
  proof (elim disjE conjE exE)
    fix t w1 v m
    assume t: "t \<noteq> []" "at w1 t = Some (Directory m)" "fill_authorities e organization t w1 = (Inr (), v)"
      and fin: "\<forall>s. at w' (engine_pki e @ [''ca''] @ s) = at v (t @ s)"
      and rest: "\<not> unsafe_organization organization" "stored_serial (store e) w \<noteq> None"
        "at w (engine_pki e @ [''ca'']) = None"
    have "\<exists>m. at w1 t = Some (Directory m)" using t(2) by blast
    note filled = fill_authorities_Inr [OF t(3) assms(1) t(1) this]
    have "authorities w' (engine_pki e @ [''ca''])" using move [OF filled(1)] fin by simp
    moreover have "verified_copy e (t @ [k, ''root-ca.crt'']) (t @ [k, ''root-ca.crt'']) w'
        (engine_pki e @ [''ca'', k, ''root-ca.crt''])" if "k \<in> {''rsa'', ''sm2''}" for k
      using verified_copy_moved [OF filled(2) [OF that]] fin[rule_format, of "[k, ''root-ca.crt'']"] by simp
    ultimately show ?thesis using rest by blast
  qed auto
qed

theorem authorities_all_or_nothing_witness:
  "authorities (snd (InitializeAuthorities (demo_engine []) ''Example Lab'' demo_world))
     [''data'', ''pki'', ''ca''] \<and>
   (\<forall>s. at (snd (InitializeAuthorities (demo_engine [''verify'']) ''Example Lab'' demo_world))
      ([''data'', ''pki'', ''ca''] @ s) = at demo_world ([''data'', ''pki'', ''ca''] @ s))"
proof
  have f: "engine_pki (demo_engine bad) @ [''ca''] = [''data'', ''pki'', ''ca'']" for bad
    by (simp add: pki_dir_def demo_engine_def NewEngine_def demo_store_def)
  have "fst (InitializeAuthorities (demo_engine []) ''Example Lab'' demo_world) = Inr ()" by code_simp
  then show "authorities (snd (InitializeAuthorities (demo_engine []) ''Example Lab'' demo_world))
      [''data'', ''pki'', ''ca'']"
    using authorities_all_or_nothing [OF confined_demo_engine prod.collapse [symmetric], of "[]" "''Example Lab''" demo_world]
      f [of "[]"] by auto
  have "at (snd (InitializeAuthorities (demo_engine [''verify'']) ''Example Lab'' demo_world))
      [''data'', ''pki'', ''ca''] = None" by code_simp
  then have "\<not> authorities (snd (InitializeAuthorities (demo_engine [''verify'']) ''Example Lab'' demo_world))
      [''data'', ''pki'', ''ca'']" by (simp add: authorities_def)
  then show "\<forall>s. at (snd (InitializeAuthorities (demo_engine [''verify'']) ''Example Lab'' demo_world))
      ([''data'', ''pki'', ''ca''] @ s) = at demo_world ([''data'', ''pki'', ''ca''] @ s)"
    using authorities_all_or_nothing [OF confined_demo_engine prod.collapse [symmetric],
        of "[''verify'']" "''Example Lab''" demo_world] f [of "[''verify'']"]
    by (metis append_assoc)
qed

text \<open>With a passphrase both root keys are generated encrypted, and the two commands that sign
  with them read the passphrase from the environment; no other command is given it, and without a
  passphrase none is.\<close>

theorem root_keys_are_encrypted:
  "map (\<lambda>c. (hasArgument c ''-aes-256-cbc'', hasArgument c ''-pass'', hasArgument c ''-passin''))
     (authority_commands e organization t) =
   (if passphrase e
    then [(True, True, False), (False, False, True), (False, False, False),
          (True, True, False), (False, False, True), (False, False, False)]
    else replicate 6 (False, False, False))"
  by (simp add: authority_commands_def root_key_command_def root_req_command_def verify_command_def
      withPassin_def hasArgument_def path_not_flag caSubject_def Let_def numeral_eq_Suc)

text \<open>C28. The environment of a command-line tool names the passphrase once among the engine's own
  entries, and last of all, where it takes precedence over what the process inherited; entries of
  that name the caller left in the runner are dropped.\<close>

theorem passphrase_environment:
  assumes "Executable c \<noteq> []" and "0 < Timeout c"
  shows "\<exists>env. snd (runner (NewEngineWithPassphrase exec environ s (Command c) pass) args w) =
      snd (exec (Executable c) (map arg_str args) (environ @ env) (Timeout c) w) \<and>
    filter (\<lambda>v. has_prefix v passphrase_var) env = [passphrase_var @ pass] \<and>
    last (environ @ env) = passphrase_var @ pass \<and>
    (\<forall>v \<in> set (Env c). has_prefix v passphrase_var \<or> v \<in> set env)"
proof (intro exI conjI)
  let ?env = "filter (\<lambda>v. \<not> has_prefix v passphrase_var) (Env c) @ [passphrase_var @ pass]"
  show "snd (runner (NewEngineWithPassphrase exec environ s (Command c) pass) args w) =
      snd (exec (Executable c) (map arg_str args) (environ @ ?env) (Timeout c) w)"
    using assms
    by (simp add: NewEngineWithPassphrase_def CommandRunner_Run_def Let_def
        split: prod.splits option.splits)
  have "filter (\<lambda>v. has_prefix v passphrase_var) (filter (\<lambda>v. \<not> has_prefix v passphrase_var) (Env c)) = []"
    by simp
  then show "filter (\<lambda>v. has_prefix v passphrase_var) ?env = [passphrase_var @ pass]"
    by (simp add: has_prefix_def)
qed auto

theorem passphrase_environment_witness:
  "\<exists>env. snd (runner (NewEngineWithPassphrase demo_exec [''HOME=/root''] demo_store
      (Command \<lparr>Executable = ''openssl'', Timeout = 25, Env = [''CERTARIUM_CA_PASSPHRASE=old'', ''LANG=C'']\<rparr>)
      ''new'') [] demo_world) = demo_world \<and> filter (\<lambda>v. has_prefix v passphrase_var) env = [''CERTARIUM_CA_PASSPHRASE=new''] \<and>
    ''LANG=C'' \<in> set env"
proof -
  let ?c = "\<lparr>Executable = ''openssl'', Timeout = 25, Env = [''CERTARIUM_CA_PASSPHRASE=old'', ''LANG=C'']\<rparr>"
  have "Executable ?c \<noteq> []" "0 < Timeout ?c" by simp_all
  from passphrase_environment [OF this, of demo_exec "[''HOME=/root'']" demo_store "''new''" "[]" demo_world]
  show ?thesis by (auto simp: demo_exec_def passphrase_var_def has_prefix_def)
qed

end
