(* ===== verification/Pki_Revocation.thy ===== *)
theory Pki_Revocation
  imports Pki_Authorities
begin

text \<open>
  Revocation lists and OCSP: \<open>PublishCRL\<close> replaces the published list only by one the tool has
  verified, \<open>RespondOCSP\<close> changes nothing but its own temporary directory.
\<close>

section \<open>Runs of the tool in a temporary directory\<close>

lemma forE_keeps:
  assumes "\<And>x v r v'. x \<in> set xs \<Longrightarrow> I v \<Longrightarrow> f x v = (r, v') \<Longrightarrow> I v'" and "I w" and "forE xs f w = (r, w')"
  shows "I w'"
  using assms
proof (induction xs arbitrary: w)
  case (Cons x xs)
  obtain r1 v where fx: "f x w = (r1, v)" by force
  with Cons.prems(1) [of x w r1 v] Cons.prems(2) have "I v" by simp
  moreover have "r1 = Inr u \<Longrightarrow> forE xs f v = (r, w')" for u
    using Cons.prems(3) fx by (simp add: bindE_def)
  moreover have "r1 = Inl err \<Longrightarrow> w' = v" for err
    using Cons.prems(3) fx by (simp add: bindE_def)
  ultimately show ?case using Cons.IH [of v] Cons.prems(1) by (cases r1) auto
qed simp

text \<open>A sequence of commands, each without error on the world its predecessor left.\<close>

fun runs_through :: "Runner \<Rightarrow> arg list list \<Rightarrow> world \<Rightarrow> world \<Rightarrow> bool" where
  "runs_through run [] w w' \<longleftrightarrow> w' = w"
| "runs_through run (c # cs) w w' \<longleftrightarrow> (\<exists>v. (\<exists>out. run c w = ((out, None), v)) \<and> runs_through run cs v w')"

lemma runs_through_append:
  "runs_through run (xs @ ys) w w' \<longleftrightarrow> (\<exists>v. runs_through run xs w v \<and> runs_through run ys v w')"
  by (induction xs arbitrary: w) auto

lemma forE_runs_through:
  "forE xs (\<lambda>x. runCommand e msg (cmd x)) w = (Inr u, w') \<longleftrightarrow> runs_through (runner e) (map cmd xs) w w'"
  by (induction xs arbitrary: w) (auto simp: bindE_Inr runCommand_Inr)

text \<open>Everything outside the directory \<open>t\<close>, and its configuration \<open>cfg\<close>, is as in \<open>w\<close>.\<close>

definition kept_outside :: "path \<Rightarrow> path \<Rightarrow> world \<Rightarrow> world \<Rightarrow> bool" where
  "kept_outside t cfg w v \<longleftrightarrow> (\<forall>q. \<not> prefix t q \<or> q = cfg \<longrightarrow> at v q = at w q)"

lemma ca_command_parts:
  "is_ca_command (ca_command e cfg rest)" "config_path (ca_command e cfg rest) = Some cfg"
  "rest \<noteq> [] \<Longrightarrow> out_paths (ca_command e cfg rest) = out_paths (withPassin e rest)"
  by (simp_all add: ca_command_def command_defs)

lemma ca_command_keeps:
  assumes c: "confined (runner e)" and cfg: "at w cfg = Some (Regular m (caDatabaseConfig t cd))"
    and out: "\<forall>p \<in> set (out_paths (ca_command e cfg rest)). prefix t p \<and> \<not> prefix p cfg"
    and run: "runCommand e msg (ca_command e cfg rest) v = (r, v')" and I: "kept_outside t cfg w v"
  shows "kept_outside t cfg w v'"
proof -
  have v: "at v cfg = Some (Regular m (caDatabaseConfig t cd))" using I cfg by (simp add: kept_outside_def)
  have "v' = snd (runner e (ca_command e cfg rest) v)"
    using run by (auto simp: runCommand_def bindE_def wrapE_def runE_def split: prod.splits option.splits sum.splits)
  moreover have "q \<notin> written v (ca_command e cfg rest)" if "\<not> prefix t q \<or> q = cfg" for q
  proof -
    have "database_of v (ca_command e cfg rest) t" using v by (auto simp: database_of_def ca_command_parts)
    then show ?thesis using that out by (auto simp: written_def ca_command_parts dest: prefix_order.trans)
  qed
  ultimately show ?thesis using c I unfolding confined_def kept_outside_def by metis
qed

lemma kept_outside_changes:
  assumes "changes A m" and "m v = (r, v')" and "kept_outside t cfg w v" and "\<And>q. q \<in> A \<Longrightarrow> prefix t q \<and> q \<noteq> cfg"
  shows "kept_outside t cfg w v'"
  using changesD [OF assms(1,2)] assms(3,4) unfolding kept_outside_def by metis

section \<open>Generating a revocation list\<close>

definition crl_verify_command :: "path \<Rightarrow> path \<Rightarrow> arg list" where
  "crl_verify_command generated ca =
     [Lit ''crl'', Lit ''-in'', Pth generated, Lit ''-noout'', Lit ''-verify'', Lit ''-CAfile'', Pth ca]"

definition revoke_command :: "Engine \<Rightarrow> path \<Rightarrow> path \<Rightarrow> arg list" where
  "revoke_command e config c =
     ca_command e config [Lit ''-revoke'', Pth c, Lit ''-crl_reason'', Lit ''unspecified'']"

lemma crl_file_name: "kind @ ''.crl.pem'' \<noteq> ''ca.cnf''"
proof
  assume "kind @ ''.crl.pem'' = ''ca.cnf''"
  then have "length (kind @ ''.crl.pem'') = length ''ca.cnf''" by (rule arg_cong)
  then show False by simp
qed

lemma generate_crl_keeps:
  assumes c: "confined (runner e)" and cfg: "at w (t @ [''ca.cnf'']) = Some (Regular m (caDatabaseConfig t cd))"
    and run: "generate_crl e kind validCerts revokedCerts t w = (r, w')"
  shows "kept_outside t (t @ [''ca.cnf'']) w w'"
proof -
  let ?cfg = "t @ [''ca.cnf'']" and ?I = "kept_outside t (t @ [''ca.cnf'']) w"
  have ca: "?I v'" if "runCommand e msg (ca_command e ?cfg rest) v = (s, v')" and "?I v"
    and "set (out_paths (ca_command e ?cfg rest)) \<subseteq> {t @ [kind @ ''.crl.pem'']}" for msg rest v s v'
    using ca_command_keeps [OF c cfg _ that(1,2)] that(3) crl_file_name by fastforce
  let ?reg = "\<lambda>c. runCommand e ''register certificate for CRL'' (ca_command e ?cfg [Lit ''-valid'', Pth c])"
  let ?rev = "\<lambda>c. runCommand e ''revoke certificate'' (revoke_command e ?cfg c)"
  let ?gen = "runCommand e ''generate CRL'' (ca_command e ?cfg [Lit ''-gencrl'', Lit ''-out'', Pth (t @ [kind @ ''.crl.pem''])])"
  let ?ver = "runCommand e ''verify CRL'' (crl_verify_command (t @ [kind @ ''.crl.pem'']) (engine_pki e @ [''ca'', kind] @ [''root-ca.crt'']))"
  have run: "bindE (forE (validCerts @ revokedCerts) ?reg) (\<lambda>_. bindE (forE revokedCerts ?rev) (\<lambda>_.
      bindE ?gen (\<lambda>_. ?ver))) w = (r, w')"
    using run by (simp add: generate_crl_def Let_def revoke_command_def crl_verify_command_def)
  have outs: "out_paths (ca_command e ?cfg [Lit ''-valid'', Pth x]) = []"
    "out_paths (revoke_command e ?cfg x) = []"
    "out_paths (ca_command e ?cfg [Lit ''-gencrl'', Lit ''-out'', Pth y]) = [y]" for x y
    by (simp_all add: ca_command_def revoke_command_def withPassin_def)
  have I0: "?I w" by (simp add: kept_outside_def)
  obtain r1 w1 where r1: "forE (validCerts @ revokedCerts) ?reg w = (r1, w1)" by force
  have I1: "?I w1" by (rule forE_keeps [where I = ?I, OF _ I0 r1]) (auto intro: ca simp: outs)
  obtain r2 w2 where r2: "forE revokedCerts ?rev w1 = (r2, w2)" by force
  have I2: "?I w2" by (rule forE_keeps [where I = ?I, OF _ I1 r2]) (auto intro: ca simp: revoke_command_def outs(2) [unfolded revoke_command_def])
  obtain r3 w3 where r3: "?gen w2 = (r3, w3)" by force
  have I3: "?I w3" by (rule ca [OF r3 I2]) (simp add: outs)
  obtain r4 w4 where r4: "?ver w3 = (r4, w4)" by force
  have "changes {} ?ver"
    by (rule changes_runCommand [OF c]) (simp_all add: crl_verify_command_def is_ca_command_def)
  from kept_outside_changes [OF this r4 I3] have I4: "?I w4" by simp
  from run r1 r2 r3 r4 I1 I2 I3 I4 show ?thesis
    by (cases r1; cases r2; cases r3) (auto simp: bindE_def)
qed

text \<open>
  The commands of a list, in their order: every certificate is registered, then every revoked one is
  revoked, then the list is generated, and then it is verified against the root certificate.
\<close>

definition crl_commands :: "Engine \<Rightarrow> string \<Rightarrow> path list \<Rightarrow> path list \<Rightarrow> path \<Rightarrow> arg list list" where
  "crl_commands e kind validCerts revokedCerts t =
     map (\<lambda>c. ca_command e (t @ [''ca.cnf'']) [Lit ''-valid'', Pth c]) (validCerts @ revokedCerts) @
     map (revoke_command e (t @ [''ca.cnf''])) revokedCerts @
     [ca_command e (t @ [''ca.cnf'']) [Lit ''-gencrl'', Lit ''-out'', Pth (t @ [kind @ ''.crl.pem''])],
      crl_verify_command (t @ [kind @ ''.crl.pem'']) (engine_pki e @ [''ca'', kind, ''root-ca.crt''])]"

lemma generate_crl_Inr:
  "generate_crl e kind validCerts revokedCerts t w = (Inr u, w') \<longleftrightarrow>
     runs_through (runner e) (crl_commands e kind validCerts revokedCerts t) w w'"
  by (simp add: generate_crl_def crl_commands_def Let_def bindE_Inr runCommand_Inr forE_runs_through
      runs_through_append revoke_command_def [abs_def] crl_verify_command_def del: map_append)


section \<open>Starting and publishing\<close>

lemma changes_read_crl_number [footprint]: "changes A (read_crl_number p)"
  unfolding read_crl_number_def by (intro footprint)

lemma changes_start_crl: "changes (below t) (start_crl e kind t)"
  unfolding start_crl_def Let_def by (intro footprint) auto

text \<open>
  What a list is generated from: a configuration that names the temporary database, an index with no
  certificate in it, and the number the list of this authority has reached, 1000 for the first.
\<close>

definition crl_prepared :: "Engine \<Rightarrow> string \<Rightarrow> path \<Rightarrow> world \<Rightarrow> world \<Rightarrow> bool" where
  "crl_prepared e kind t w u \<longleftrightarrow>
     has_data u (t @ [''ca.cnf'']) (caDatabaseConfig t (engine_pki e @ [''ca'', kind])) \<and>
     has_data u (t @ [''index.txt'']) [] \<and>
     has_data u (t @ [''crlnumber''])
       (case stat (files w) (engine_pki e @ [''ca'', kind, ''crlnumber'']) of
          Inl _ \<Rightarrow> ''1000'' @ nl | Inr n \<Rightarrow> the (node_data n))"

lemma read_crl_number_Inr:
  assumes "read_crl_number p w = (Inr number, w')"
  shows "files w' = files w" and "number = (case stat (files w) p of Inl _ \<Rightarrow> ''1000'' @ nl | Inr n \<Rightarrow> the (node_data n))"
proof -
  obtain x v where rd': "os_read_file p w = (x, v)" by force
  with assms have x: "x = Inr number \<or> (\<exists>e. x = Inl e \<and> is_not_exist e \<and> number = ''1000'' @ nl)"
    and rd: "os_read_file p w = (x, w')"
    by (cases x; auto simp: read_crl_number_def bindE_Inr tryE_eq split: if_splits)+
  show "files w' = files w" using reads_onlyD [OF reads_os(3) rd] .
  show "number = (case stat (files w) p of Inl _ \<Rightarrow> ''1000'' @ nl | Inr n \<Rightarrow> the (node_data n))"
    using x
  proof (elim disjE exE conjE)
    assume "x = Inr number"
    with os_read_file_stat [of p w number w'] rd show ?thesis by auto
  next
    fix e assume "x = Inl e" "is_not_exist e" "number = ''1000'' @ nl"
    with os_read_file_not_exist [of p w e w'] rd show ?thesis by simp
  qed
qed

lemma start_crl_Inr:
  assumes run: "start_crl e kind t w = (Inr u, w')" and t: "t = engine_pki e @ [CHR ''.'' # x]"
  shows "\<exists>m. at w' (t @ [''ca.cnf'']) = Some (Regular m (caDatabaseConfig t (engine_pki e @ [''ca'', kind])))"
    and "crl_prepared e kind t w w'"
proof -
  let ?n = "engine_pki e @ [''ca'', kind, ''crlnumber'']"
  from run obtain w1 w2 w3 w4 number w5 w6 where 1: "os_chmod t mode_0700 w = (Inr (), w1)"
    and 2: "os_mkdir (t @ [''newcerts'']) mode_0700 w1 = (Inr (), w2)"
    and 3: "os_write_file (t @ [''index.txt'']) [] mode_0600 w2 = (Inr (), w3)"
    and 4: "os_write_file (t @ [''index.txt.attr'']) (''unique_subject = no'' @ nl) mode_0600 w3 = (Inr (), w4)"
    and 5: "read_crl_number ?n w4 = (Inr number, w5)"
    and 6: "os_write_file (t @ [''crlnumber'']) number mode_0600 w5 = (Inr (), w6)"
    and 7: "os_write_file (t @ [''ca.cnf'']) (caDatabaseConfig t (engine_pki e @ [''ca'', kind])) mode_0600 w6
      = (Inr u, w')"
    by (auto simp: start_crl_def Let_def bindE_Inr)
  have "at w4 q = at w q" if "prefix q ?n" for q
    using that changesD [OF changes_os_chmod [of t "below t"] 1, of q]
      changesD [OF changes_os_mkdir [of "t @ [''newcerts'']" "below t"] 2, of q]
      changesD [OF changes_os_write_file [of "t @ [''index.txt'']" "below t"] 3, of q]
      changesD [OF changes_os_write_file [of "t @ [''index.txt.attr'']" "below t"] 4, of q]
    by (force simp: t prefix_def)
  then have "stat (files w4) ?n = stat (files w) ?n" by (rule stat_cong)
  with read_crl_number_Inr [OF 5]
  have n: "number = (case stat (files w) ?n of Inl _ \<Rightarrow> ''1000'' @ nl | Inr n \<Rightarrow> the (node_data n))" and w5: "at w5 = at w4"
    by simp_all
  from os_write_file_Inr [OF 3] os_write_file_Inr [OF 4] os_write_file_Inr [OF 6] os_write_file_Inr [OF 7] w5
  obtain m1 m2 m3 m4 where w': "at w' = (at w2)(t @ [''index.txt''] \<mapsto> Regular m1 [],
      t @ [''index.txt.attr''] \<mapsto> Regular m2 (''unique_subject = no'' @ nl), t @ [''crlnumber''] \<mapsto> Regular m3 number,
      t @ [''ca.cnf''] \<mapsto> Regular m4 (caDatabaseConfig t (engine_pki e @ [''ca'', kind])))"
    by auto
  then show "\<exists>m. at w' (t @ [''ca.cnf'']) = Some (Regular m (caDatabaseConfig t (engine_pki e @ [''ca'', kind])))"
    and "crl_prepared e kind t w w'"
    by (simp_all add: crl_prepared_def has_data_def n)
qed

definition crl_path :: "Engine \<Rightarrow> string \<Rightarrow> path" where
  "crl_path e kind = engine_pki e @ [''crl'', kind @ ''.crl.pem'']"

definition database_names :: "string list" where
  "database_names = [''index.txt'', ''index.txt.attr'', ''crlnumber'']"

definition database_area :: "Engine \<Rightarrow> string \<Rightarrow> path set" where
  "database_area e kind = (\<Union>n \<in> set database_names. below (engine_pki e @ [''ca'', kind, n]))"

definition replace_database :: "Engine \<Rightarrow> string \<Rightarrow> path \<Rightarrow> string \<Rightarrow> unit io" where
  "replace_database e kind t name =
     bindE (replaceFile (t @ [name]) (engine_pki e @ [''ca'', kind, name])) (\<lambda>_.
     wrapE ''secure CA database file'' (os_chmod (engine_pki e @ [''ca'', kind, name]) mode_0600))"

lemma changes_replace_database:
  "changes (below (t @ [n]) \<union> below (engine_pki e @ [''ca'', kind, n])) (replace_database e kind t n)"
  unfolding replace_database_def replaceFile_def by (intro footprint) auto

lemma replace_database_Inr:
  assumes "replace_database e kind t n w = (Inr u, w')"
  shows "has_mode w' (engine_pki e @ [''ca'', kind, n]) mode_0600"
proof -
  from assms obtain v where "os_chmod (engine_pki e @ [''ca'', kind, n]) mode_0600 v = (Inr u, w')"
    by (auto simp: replace_database_def bindE_Inr)
  from os_chmod_Inr [OF this] show ?thesis by (auto simp: has_mode_def)
qed

lemma replace_all_keeps:
  assumes "forE ns (replace_database e kind t) w = (r, w')" and "\<not> prefix t q"
    and "\<forall>n \<in> set ns. \<not> prefix (engine_pki e @ [''ca'', kind, n]) q"
  shows "at w' q = at w q"
proof -
  have "changes (below t \<union> (\<Union>n \<in> set ns. below (engine_pki e @ [''ca'', kind, n])))
      (forE ns (replace_database e kind t))"
    by (rule changes_forE, rule changes_mono [OF changes_replace_database]) (auto dest: append_prefixD)
  from changesD [OF this assms(1), of q] assms(2,3) show ?thesis by auto
qed

lemma replace_all_Inr:
  assumes "forE ns (replace_database e kind t) w = (Inr u, w')" and "distinct ns"
    and "\<forall>n. \<not> prefix t (engine_pki e @ [''ca'', kind, n])" and "n \<in> set ns"
  shows "has_mode w' (engine_pki e @ [''ca'', kind, n]) mode_0600"
  using assms(1,2,4)
proof (induction ns arbitrary: w)
  case (Cons x ns)
  from Cons.prems obtain v where st: "replace_database e kind t x w = (Inr (), v)"
    and rest: "forE ns (replace_database e kind t) v = (Inr u, w')"
    by (auto simp: bindE_Inr)
  show ?case
  proof (cases "n = x")
    case True
    have "at w' (engine_pki e @ [''ca'', kind, x]) = at v (engine_pki e @ [''ca'', kind, x])"
      using replace_all_keeps [OF rest, of "engine_pki e @ [''ca'', kind, x]"] assms(3) Cons.prems(2)
      by fastforce
    with replace_database_Inr [OF st] True show ?thesis by (simp add: has_mode_def)
  next
    case False
    with Cons.IH [OF rest] Cons.prems show ?thesis by simp
  qed
qed simp

lemma publish_crl_eq:
  "publish_crl e kind t =
     bindE (wrapE ''set CRL permissions'' (os_chmod (t @ [kind @ ''.crl.pem'']) mode_0644)) (\<lambda>_.
     bindE (wrapE ''create CRL directory'' (os_mkdir_all (engine_pki e @ [''crl'']) mode_0700)) (\<lambda>_.
     bindE (replaceFile (t @ [kind @ ''.crl.pem'']) (crl_path e kind)) (\<lambda>_.
     bindE (forE database_names (replace_database e kind t)) (\<lambda>_.
     syncDirectory (engine_pki e @ [''crl''])))))"
  unfolding publish_crl_def Let_def crl_path_def database_names_def replace_database_def by simp

lemma publish_crl_outcome:
  assumes run: "publish_crl e kind t w = (r, w')" and t: "t = engine_pki e @ [CHR ''.'' # x]"
  shows "(\<exists>err. r = Inl err) \<and> (\<forall>q. \<not> prefix t q \<and> \<not> prefix q (engine_pki e @ [''crl'']) \<longrightarrow> at w' q = at w q) \<or>
    at w' (crl_path e kind) = map_option (with_mode mode_0644) (at w (t @ [kind @ ''.crl.pem''])) \<and>
    at w' (crl_path e kind) \<noteq> None \<and>
    (\<forall>q. \<not> prefix t q \<and> \<not> prefix q (engine_pki e @ [''crl'']) \<and> \<not> prefix (crl_path e kind) q \<and>
       q \<notin> database_area e kind \<longrightarrow> at w' q = at w q) \<and>
    (\<forall>u. r = Inr u \<longrightarrow> (\<forall>n \<in> set database_names. has_mode w' (engine_pki e @ [''ca'', kind, n]) mode_0600))"
proof -
  let ?g = "t @ [kind @ ''.crl.pem'']" and ?d = "engine_pki e @ [''crl'']" and ?c = "crl_path e kind"
  let ?pre = "\<lambda>v. \<forall>q. \<not> prefix t q \<and> \<not> prefix q ?d \<longrightarrow> at v q = at w q"
  obtain r1 w1 where ch: "os_chmod ?g mode_0644 w = (r1, w1)" by force
  have p1: "?pre w1" using changesD [OF changes_os_chmod [of ?g "{?g}"] ch] by (metis prefixI singletonD singletonI)
  obtain r2 w2 where mk: "os_mkdir_all ?d mode_0700 w1 = (r2, w2)" by force
  have p2: "?pre w2" using changesD [OF changes_os_mkdir_all [OF order_refl] mk] p1 by auto
  obtain r3 w3 where rn: "os_rename ?g ?c w2 = (r3, w3)" by force
  show ?thesis
  proof (cases "(\<exists>err. r1 = Inl err) \<or> (\<exists>err. r2 = Inl err) \<or> (\<exists>err. r3 = Inl err)")
    case True
    have p3: "?pre w3" if "r3 = Inl err" for err
      using p2 os_rename_Inl [of ?g ?c w2 err w3] rn that by simp
    from True run ch mk rn p1 p2 p3 have "(\<exists>err. r = Inl err) \<and> ?pre w'"
      unfolding publish_crl_eq replaceFile_def
      by (cases r1; cases r2; cases r3) (auto simp: bindE_def wrapE_def)
    then show ?thesis by blast
  next
    case False
    then obtain ok: "r1 = Inr ()" "r2 = Inr ()" "r3 = Inr ()" by (cases r1; cases r2; cases r3) auto
    obtain r4 w4 where db: "forE database_names (replace_database e kind t) w3 = (r4, w4)" by force
    have w4: "at w' = at w4" and r: "\<And>u. r = Inr u \<Longrightarrow> r4 = Inr ()"
    proof -
      have "r4 = Inl err \<Longrightarrow> r = Inl err \<and> w' = w4" for err
        using run ch mk rn db ok unfolding publish_crl_eq replaceFile_def by (simp add: bindE_def wrapE_def)
      moreover have "r4 = Inr u \<Longrightarrow> syncDirectory ?d w4 = (r, w')" for u
        using run ch mk rn db ok unfolding publish_crl_eq replaceFile_def by (simp add: bindE_def wrapE_def)
      ultimately show "at w' = at w4" and "\<And>u. r = Inr u \<Longrightarrow> r4 = Inr ()"
        using sync_dir_at unfolding syncDirectory_def by (cases r4; fastforce)+
    qed
    have ne: "?g \<noteq> ?c" "?g \<noteq> []" by (auto simp: t crl_path_def)
    note mv = os_rename_moved [OF rn [unfolded ok] ne(1)]
    have apart: "\<not> prefix t ?c" "\<not> prefix ?c t" "\<not> prefix ?c ?g" by (auto simp: t crl_path_def)
    have "\<not> prefix ?g ?d" by (auto simp: t)
    then have g2: "at w2 ?g = at w1 ?g"
      using os_mkdir_all_grows [OF mk, of ?g] changesD [OF changes_os_mkdir_all [OF order_refl] mk, of ?g]
      by (auto simp: t dest: prefix_length_le)
    from os_chmod_Inr [OF ch [unfolded ok]] ne(2)
    have g1: "at w1 ?g = map_option (with_mode mode_0644) (at w ?g)" "at w1 ?g \<noteq> None" by auto
    have "at w3 ?c = at w2 ?g" using moved_target [OF mv, of "[]"] by simp
    moreover have "at w4 ?c = at w3 ?c"
      by (rule replace_all_keeps [OF db apart(1)]) (auto simp: crl_path_def)
    ultimately have crl: "at w' ?c = map_option (with_mode mode_0644) (at w ?g)" "at w' ?c \<noteq> None"
      using g1 g2 w4 by auto
    have rest: "at w' q = at w q" if "\<not> prefix t q" "\<not> prefix q ?d" "\<not> prefix ?c q" "q \<notin> database_area e kind" for q
    proof -
      have "at w4 q = at w3 q"
        by (rule replace_all_keeps [OF db that(1)]) (use that(4) in \<open>auto simp: database_area_def\<close>)
      moreover have "at w3 q = at w2 q"
        using moved_elsewhere [OF mv, of q] that by (auto dest: append_prefixD)
      ultimately show ?thesis using p2 that w4 by simp
    qed
    have modes: "has_mode w' (engine_pki e @ [''ca'', kind, n]) mode_0600"
      if "r = Inr u" and "n \<in> set database_names" for u n
    proof -
      have "has_mode w4 (engine_pki e @ [''ca'', kind, n]) mode_0600"
        by (rule replace_all_Inr [OF db [unfolded r [OF that(1)]] _ _ that(2)])
          (auto simp: database_names_def t)
      with w4 show ?thesis by (simp add: has_mode_def)
    qed
    show ?thesis using crl rest modes by (intro disjI2) blast
  qed
qed


section \<open>The whole operations\<close>

definition crl_scratch :: "Engine \<Rightarrow> string \<Rightarrow> path set" where
  "crl_scratch e kind = scratch (engine_pki e) (''.crl-'' @ kind @ ''-'') []"

text \<open>What becomes of a run of \<open>PublishCRL\<close>.\<close>

definition crl_unchanged :: "Engine \<Rightarrow> string \<Rightarrow> world \<Rightarrow> world \<Rightarrow> bool" where
  "crl_unchanged e kind w w' \<longleftrightarrow>
     (\<forall>q. q \<notin> crl_scratch e kind \<and> \<not> prefix q (engine_pki e @ [''crl'']) \<longrightarrow> at w' q = at w q)"

text \<open>
  The list is replaced: it is the file that one run of all the commands, in their order and without an
  error, left in the temporary directory \<open>t\<close>, beginning with an empty database there.
\<close>

definition crl_replaced :: "Engine \<Rightarrow> string \<Rightarrow> path list \<Rightarrow> path list \<Rightarrow> world \<Rightarrow> world \<Rightarrow> bool" where
  "crl_replaced e kind validCerts revokedCerts w w' \<longleftrightarrow>
     at w' (crl_path e kind) \<noteq> None \<and>
     (\<exists>t u v. t \<in> crl_scratch e kind \<and> crl_prepared e kind t w u \<and>
        runs_through (runner e) (crl_commands e kind validCerts revokedCerts t) u v \<and>
        at w' (crl_path e kind) = map_option (with_mode mode_0644) (at v (t @ [kind @ ''.crl.pem'']))) \<and>
     (\<forall>q. q \<notin> crl_scratch e kind \<and> \<not> prefix q (engine_pki e @ [''crl'']) \<and>
        \<not> prefix (crl_path e kind) q \<and> q \<notin> database_area e kind \<longrightarrow> at w' q = at w q)"

lemma temp_dotted:
  assumes "temp_name d (CHR ''.'' # p) s t"
  shows "\<exists>x. t = d @ [CHR ''.'' # x]"
  using assms by (auto simp: temp_name_def)

text \<open>The work in the temporary directory \<open>t\<close>, before it is removed.\<close>

lemma crl_body_outcome:
  assumes c: "confined (runner e)" and x: "t = engine_pki e @ [CHR ''.'' # x]"
    and run: "bindE (start_crl e kind t) (\<lambda>_. bindE (generate_crl e kind validCerts revokedCerts t) (\<lambda>_.
       publish_crl e kind t)) w = (r, w')"
  shows "(\<exists>err. r = Inl err) \<and>
      (\<forall>q. \<not> prefix t q \<and> \<not> prefix q (engine_pki e @ [''crl'']) \<longrightarrow> at w' q = at w q) \<or>
    (\<exists>u v m. crl_prepared e kind t w v \<and> generate_crl e kind validCerts revokedCerts t v = (Inr u, m) \<and>
       (\<forall>q. \<not> prefix t q \<longrightarrow> at m q = at w q) \<and> publish_crl e kind t m = (r, w'))"
proof -
  obtain r2 w2 where st: "start_crl e kind t w = (r2, w2)" by force
  have out2: "at w2 q = at w q" if "\<not> prefix t q" for q
    using changesD [OF changes_start_crl st, of q] that by simp
  show ?thesis
  proof (cases r2)
    case (Inl err)
    with run st out2 show ?thesis by (auto simp: bindE_def)
  next
    case Inr2: (Inr u)
    obtain m where cfg: "at w2 (t @ [''ca.cnf'']) = Some (Regular m (caDatabaseConfig t (engine_pki e @ [''ca'', kind])))"
      using start_crl_Inr(1) [OF st [unfolded Inr2] x] by auto
    obtain r3 w3 where gen: "generate_crl e kind validCerts revokedCerts t w2 = (r3, w3)" by force
    have out3: "at w3 q = at w q" if "\<not> prefix t q" for q
      using generate_crl_keeps [OF c cfg gen] out2 that by (simp add: kept_outside_def)
    show ?thesis
    proof (cases r3)
      case (Inl err)
      with run st Inr2 gen out3 show ?thesis by (auto simp: bindE_def)
    next
      case (Inr u3)
      with run st Inr2 gen have "publish_crl e kind t w3 = (r, w')" by (simp add: bindE_def)
      with gen Inr out3 start_crl_Inr(2) [OF st [unfolded Inr2] x] show ?thesis by blast
    qed
  qed
qed

lemma crl_replacedI:
  assumes t: "t \<in> crl_scratch e kind" and prep: "crl_prepared e kind t w v"
    and gen: "generate_crl e kind validCerts revokedCerts t v = (Inr u, m)"
    and crl: "at w' (crl_path e kind) = map_option (with_mode mode_0644) (at m (t @ [kind @ ''.crl.pem'']))"
      "at w' (crl_path e kind) \<noteq> None"
    and rest: "\<And>q. q \<notin> crl_scratch e kind \<Longrightarrow> \<not> prefix q (engine_pki e @ [''crl'']) \<Longrightarrow>
      \<not> prefix (crl_path e kind) q \<Longrightarrow> q \<notin> database_area e kind \<Longrightarrow> at w' q = at w q"
  shows "crl_replaced e kind validCerts revokedCerts w w'"
  unfolding crl_replaced_def using t prep gen [unfolded generate_crl_Inr] crl rest by blast

lemma PublishCRL_outcome:
  assumes c: "confined (runner e)" and run: "PublishCRL e kind validCerts revokedCerts w = (r, w')"
  shows "(\<exists>err. r = Inl err) \<and> crl_unchanged e kind w w' \<or>
    crl_kind kind \<and> crl_replaced e kind validCerts revokedCerts w w' \<and>
    (\<forall>u. r = Inr u \<longrightarrow> (\<forall>n \<in> set database_names. has_mode w' (engine_pki e @ [''ca'', kind, n]) mode_0600))"
proof (cases "crl_kind kind")
  case False
  with run show ?thesis by (auto simp: PublishCRL_def bindE_def checkE_def throwE_def crl_unchanged_def)
next
  case kind: True
  let ?pre = "''.crl-'' @ kind @ ''-''"
  obtain r1 w1 where mk: "os_mkdir_temp (engine_pki e) ?pre w = (r1, w1)" by force
  show ?thesis
  proof (cases r1)
    case (Inl err)
    with run mk kind create_temp_Inl [of "Directory mode_0700" "engine_pki e" ?pre "[]" w err w1]
    show ?thesis
      by (auto simp: PublishCRL_def bindE_def checkE_def returnE_def wrapE_def crl_unchanged_def os_mkdir_temp_def)
  next
    case (Inr t)
    note temp = create_temp_Inr [OF mk [unfolded Inr os_mkdir_temp_def]]
    have sc: "q \<notin> crl_scratch e kind \<Longrightarrow> \<not> prefix t q" for q
      using temp_in_scratch [OF temp(1), of q] by (auto simp: crl_scratch_def)
    obtain x where x: "t = engine_pki e @ [CHR ''.'' # x]"
      using temp_dotted [of "engine_pki e" "''crl-'' @ kind @ ''-''" "[]" t] temp(1) by auto
    obtain w5 where body: "bindE (start_crl e kind t) (\<lambda>_. bindE (generate_crl e kind validCerts revokedCerts t) (\<lambda>_.
       publish_crl e kind t)) w1 = (r, w5)" and w': "w' = snd (os_remove_all t w5)"
      using run mk Inr kind
      by (auto simp: PublishCRL_def bindE_def checkE_def returnE_def wrapE_def deferE_def split: prod.splits)
    have "changes (below t) (os_remove_all t)" by (intro footprint order_refl)
    then have last: "at w' q = at w5 q" if "\<not> prefix t q" for q
      using that w' unfolding changes_def by auto
    have out1: "at w1 q = at w q" if "\<not> prefix t q" for q using temp(3) that by auto
    have apart: "\<not> prefix t (crl_path e kind)" "\<not> prefix t (engine_pki e @ [''ca'', kind, n])" for n
      by (auto simp: x crl_path_def)
    from crl_body_outcome [OF c x body] show ?thesis
    proof (elim disjE exE conjE)
      fix err assume "r = Inl err"
        and "\<forall>q. \<not> prefix t q \<and> \<not> prefix q (engine_pki e @ [''crl'']) \<longrightarrow> at w5 q = at w1 q"
      with last out1 sc show ?thesis unfolding crl_unchanged_def by (intro disjI1) metis
    next
      fix u v m
      assume prep: "crl_prepared e kind t w1 v" and gen: "generate_crl e kind validCerts revokedCerts t v = (Inr u, m)"
        and out: "\<forall>q. \<not> prefix t q \<longrightarrow> at m q = at w1 q" and pub: "publish_crl e kind t m = (r, w5)"
      from publish_crl_outcome [OF pub x] show ?thesis
      proof (elim disjE conjE)
        assume "\<exists>err. r = Inl err"
          and "\<forall>q. \<not> prefix t q \<and> \<not> prefix q (engine_pki e @ [''crl'']) \<longrightarrow> at w5 q = at m q"
        with last out1 out sc show ?thesis unfolding crl_unchanged_def by (intro disjI1) metis
      next
        assume crl: "at w5 (crl_path e kind) = map_option (with_mode mode_0644) (at m (t @ [kind @ ''.crl.pem'']))"
          "at w5 (crl_path e kind) \<noteq> None"
          and rest: "\<forall>q. \<not> prefix t q \<and> \<not> prefix q (engine_pki e @ [''crl'']) \<and> \<not> prefix (crl_path e kind) q \<and>
            q \<notin> database_area e kind \<longrightarrow> at w5 q = at m q"
          and modes: "\<forall>u. r = Inr u \<longrightarrow>
            (\<forall>n \<in> set database_names. has_mode w5 (engine_pki e @ [''ca'', kind, n]) mode_0600)"
        have "stat (files w1) (engine_pki e @ [''ca'', kind, ''crlnumber'']) =
            stat (files w) (engine_pki e @ [''ca'', kind, ''crlnumber''])"
          by (rule stat_cong, rule out1) (use apart(2) prefix_order.trans in blast)
        with prep have "crl_prepared e kind t w v" by (simp add: crl_prepared_def)
        moreover have "t \<in> crl_scratch e kind" using sc [of t] by auto
        ultimately have "crl_replaced e kind validCerts revokedCerts w w'"
          by (intro crl_replacedI [OF _ _ gen]) (use crl rest last apart(1) out out1 sc in simp_all)
        moreover have "has_mode w' (engine_pki e @ [''ca'', kind, n]) mode_0600"
          if "r = Inr u" and "n \<in> set database_names" for u n
          using modes that last [OF apart(2)] by (simp add: has_mode_def)
        ultimately show ?thesis using kind by (intro disjI2) blast
      qed
    qed
  qed
qed

section \<open>Properties\<close>

text \<open>C4. The published revocation list is never lost and never unverified: after any run the
  list, the CA database and everything else are as before, and an error is reported, or the list is
  the file left by one run of the commands of the tool, each successful and each on the files its
  predecessor left: starting from an empty database with the number the lists have reached, every
  certificate is registered, then every revoked one revoked, then the list generated, then that list
  verified against the CA. Only the list, the three database files of this CA and the temporary
  directory can change; the CA keys and certificates, the issued bundles and the other list never
  do.\<close>

theorem crl_is_verified_or_unchanged:
  assumes "confined (runner e)" and "PublishCRL e kind validCerts revokedCerts w = (r, w')"
  shows "((\<exists>err. r = Inl err) \<and> crl_unchanged e kind w w' \<or>
      crl_kind kind \<and> crl_replaced e kind validCerts revokedCerts w w') \<and>
    (r = Inr () \<longrightarrow> crl_replaced e kind validCerts revokedCerts w w' \<and>
      (\<forall>n \<in> set database_names. has_mode w' (engine_pki e @ [''ca'', kind, n]) mode_0600))"
  using PublishCRL_outcome [OF assms] by auto

definition crl_world :: world where
  "crl_world = demo_world\<lparr>files := files demo_world @
     [([''data'', ''pki'', ''ca''], Directory mode_0700), ([''data'', ''pki'', ''ca'', ''rsa''], Directory mode_0700),
      ([''data'', ''pki'', ''ca'', ''rsa'', ''index.txt''], Regular mode_0600 []),
      ([''data'', ''pki'', ''crl''], Directory mode_0700),
      ([''data'', ''pki'', ''crl'', ''rsa.crl.pem''], Regular mode_0644 ''OLD CRL'')]\<rparr>"

theorem crl_is_verified_or_unchanged_witness:
  "at (snd (PublishCRL (demo_engine [''crl'']) ''rsa'' [] [[''x'']] crl_world)) [''data'', ''pki'', ''crl'', ''rsa.crl.pem''] =
     Some (Regular mode_0644 ''OLD CRL'') \<and>
   crl_replaced (demo_engine []) ''rsa'' [] [[''x'']] crl_world
     (snd (PublishCRL (demo_engine []) ''rsa'' [] [[''x'']] crl_world))"
proof
  show "at (snd (PublishCRL (demo_engine [''crl'']) ''rsa'' [] [[''x'']] crl_world)) [''data'', ''pki'', ''crl'', ''rsa.crl.pem''] =
     Some (Regular mode_0644 ''OLD CRL'')" by code_simp
  have "fst (PublishCRL (demo_engine []) ''rsa'' [] [[''x'']] crl_world) = Inr ()" by code_simp
  with crl_is_verified_or_unchanged [OF confined_demo_engine prod.collapse [symmetric], of "[]" "''rsa''" "[]" "[[''x'']]" crl_world]
  show "crl_replaced (demo_engine []) ''rsa'' [] [[''x'']] crl_world
     (snd (PublishCRL (demo_engine []) ''rsa'' [] [[''x'']] crl_world))" by blast
qed

lemma changes_RespondOCSP:
  assumes "confined (runner e)"
  shows "changes (scratch (engine_pki e) ''.ocsp-'' []) (RespondOCSP e kind request)"
proof -
  let ?A = "scratch (engine_pki e) ''.ocsp-'' []"
  have body: "changes ?A (deferE (os_remove_all t)
      (bindE (wrapE ''secure temporary OCSP directory'' (os_chmod t mode_0700)) (\<lambda>_.
       bindE (wrapE ''write OCSP request'' (os_write_file (t @ [''request.der'']) request mode_0600)) (\<lambda>_.
       bindE (wrapE ''generate OCSP response'' (runE (runner e) (ocsp_command e kind t))) (\<lambda>_.
       wrapE ''read OCSP response'' (os_read_file (t @ [''response.der''])))))))"
    if t: "temp_name (engine_pki e) ''.ocsp-'' [] t" for t
  proof -
    have s: "t @ x \<in> ?A" for x using temp_in_scratch [OF t, of "t @ x"] by simp
    have "out_paths (ocsp_command e kind t) = [t @ [''response.der'']]" "\<not> is_ca_command (ocsp_command e kind t)"
      by (simp_all add: ocsp_command_def Let_def command_defs)
    then have "changes ?A (runE (runner e) (ocsp_command e kind t))"
      by (intro changes_runE [OF assms])
        (auto intro!: temp_in_scratch [OF t] intro: append_prefixD)
    with s [of "[]"] s below_scratch [OF t] show ?thesis by (intro footprint) auto
  qed
  show ?thesis
    unfolding RespondOCSP_def
    by (intro changes_bindE [OF changes_checkE] changes_bindE [OF changes_tryE]
        changes_bindE_gives [OF _ gives_wrapE [OF gives_temp(1)] body] changes_wrapE
        changes_os_mkdir_temp changes_read order_refl)
qed

text \<open>C23. An OCSP answer is the response file the tool wrote for exactly this request; requests of
  the wrong kind or size, or without an issuer database, are refused; and the operation changes
  nothing but its temporary directory.\<close>

theorem ocsp_answers_the_request:
  assumes "confined (runner e)" and "RespondOCSP e kind request w = (r, w')"
  shows "(\<forall>q. q \<notin> scratch (engine_pki e) ''.ocsp-'' [] \<longrightarrow> at w' q = at w q) \<and>
    (\<not> crl_kind kind \<or> length request = 0 \<or> 16384 < length request \<longrightarrow> (\<exists>err. r = Inl err) \<and> w' = w) \<and>
    (\<forall>response. r = Inr response \<longrightarrow>
       crl_kind kind \<and> 1 \<le> length request \<and> length request \<le> 16384 \<and>
       (\<exists>m d. at w (engine_pki e @ [''ca'', kind, ''index.txt'']) = Some (Regular m d)) \<and>
       (\<exists>t u u' out. has_data u (t @ [''request.der'']) request \<and>
          runner e (ocsp_command e kind t) u = ((out, None), u') \<and>
          has_data u' (t @ [''response.der'']) response))"
proof (intro conjI allI impI)
  fix q assume q: "q \<notin> scratch (engine_pki e) ''.ocsp-'' []"
  from changesD [OF changes_RespondOCSP [OF assms(1)] assms(2) q] show "at w' q = at w q" .
next
  fix response assume "r = Inr response"
  with assms(2) obtain x w1 t w2 w3 w4 out w5 w6 where
    k: "crl_kind kind" "\<not> (length request = 0 \<or> 16 * 1024 < length request)"
    and st: "os_lstat (engine_pki e @ [''ca'', kind, ''index.txt'']) w = (x, w1)"
    and reg: "case x of Inl err \<Rightarrow> False | Inr n \<Rightarrow> is_regular n"
    and mk: "os_mkdir_temp (engine_pki e) ''.ocsp-'' w1 = (Inr t, w2)"
    and wr: "os_write_file (t @ [''request.der'']) request mode_0600 w3 = (Inr (), w4)"
    and ran: "runner e (ocsp_command e kind t) w4 = ((out, None), w5)"
    and rd: "os_read_file (t @ [''response.der'']) w5 = (Inr response, w6)"
    by (auto simp: RespondOCSP_def bindE_Inr tryE_eq deferE_eq runE_Inr)
  show "crl_kind kind" and "1 \<le> length request" and "length request \<le> 16384"
    using k by (auto simp: Suc_le_eq)
  show "\<exists>m d. at w (engine_pki e @ [''ca'', kind, ''index.txt'']) = Some (Regular m d)"
    using reg st by (auto dest!: os_lstat_Inr(1) elim!: is_regular.elims split: sum.splits)
  have "has_data w4 (t @ [''request.der'']) request"
    using os_write_file_Inr [OF wr] by (auto simp: has_data_def)
  moreover have "has_data w5 (t @ [''response.der'']) response"
    using os_read_file_Inr [OF rd] by (auto simp: has_data_def)
  ultimately show "\<exists>t u u' out. has_data u (t @ [''request.der'']) request \<and>
          runner e (ocsp_command e kind t) u = ((out, None), u') \<and> has_data u' (t @ [''response.der'']) response"
    using ran by blast
qed (use assms(2) in \<open>auto simp: RespondOCSP_def bindE_def checkE_def throwE_def returnE_def split: if_splits\<close>)

theorem ocsp_answers_the_request_witness:
  "fst (RespondOCSP (demo_engine []) ''rsa'' ''DER REQUEST'' crl_world) =
     Inr (''generated:/data/pki/.ocsp-0/response.der'' @ nl) \<and>
   at (snd (RespondOCSP (demo_engine []) ''rsa'' ''DER REQUEST'' crl_world)) [''data'', ''pki'', ''state.json''] =
     at crl_world [''data'', ''pki'', ''state.json'']"
proof
  show "fst (RespondOCSP (demo_engine []) ''rsa'' ''DER REQUEST'' crl_world) =
     Inr (''generated:/data/pki/.ocsp-0/response.der'' @ nl)" by code_simp
  have "[''data'', ''pki'', ''state.json''] \<notin> scratch (engine_pki (demo_engine [])) ''.ocsp-'' []"
    by (auto simp: scratch_def temp_name_def pki_dir_def demo_engine_def NewEngine_def demo_store_def)
  with ocsp_answers_the_request [OF confined_demo_engine prod.collapse [symmetric], of "[]" "''rsa''" "''DER REQUEST''" crl_world]
  show "at (snd (RespondOCSP (demo_engine []) ''rsa'' ''DER REQUEST'' crl_world)) [''data'', ''pki'', ''state.json''] =
     at crl_world [''data'', ''pki'', ''state.json'']" by blast
qed

end
