(* ===== verification/Pki_Passphrase.thy ===== *)
theory Pki_Passphrase
  imports Os_Rules
begin

text \<open>
  The CA passphrase of internal/pki/passphrase.go: the private file it is read from.
\<close>

abbreviation maxPassphraseBytes :: nat where "maxPassphraseBytes \<equiv> 1024"

text \<open>\<open>info.Size()\<close> of a regular file.\<close>

definition file_size :: "node \<Rightarrow> nat" where
  "file_size n = (case n of Regular m d \<Rightarrow> length d | _ \<Rightarrow> 0)"

definition line_ends :: "char list" where
  "line_ends = [CHR 0x0D, CHR 0x0A]"

definition LoadPassphraseFile :: "path \<Rightarrow> string \<Rightarrow> string io" where
  "LoadPassphraseFile cwd p =
     (if p = [] then throwE (ErrText ''CA passphrase file is required'')
      else
        bindE (wrapE ''inspect CA passphrase file'' (os_lstat (resolve cwd p))) (\<lambda>info.
        if \<not> is_regular info then throwE (ErrText ''CA passphrase path must be a regular file'')
        else if node_mode info AND mode_0077 \<noteq> 0 then
          throwE (ErrText ''CA passphrase file must not be accessible by group or others'')
        else if file_size info < 1 \<or> maxPassphraseBytes < file_size info then
          throwE (ErrText ''CA passphrase file size is invalid'')
        else
          bindE (wrapE ''read CA passphrase file'' (os_read_file (resolve cwd p))) (\<lambda>data.
          let v = trim_right line_ends data in
          if v = [] \<or> CHR 0x00 \<in> set v then
            throwE (ErrText ''CA passphrase is empty or invalid'')
          else returnE v)))"

definition private_file :: "node \<Rightarrow> bool" where
  "private_file n \<longleftrightarrow> is_regular n \<and> node_mode n AND mode_0077 = 0"

lemma trim_right_split: "\<exists>e. s = trim_right cs s @ e \<and> set e \<subseteq> set cs"
proof -
  have "s = rev (dropWhile (\<lambda>c. c \<in> set cs) (rev s)) @ rev (takeWhile (\<lambda>c. c \<in> set cs) (rev s))"
    by (metis rev_append rev_rev_ident takeWhile_dropWhile_id)
  moreover have "set (takeWhile (\<lambda>c. c \<in> set cs) (rev s)) \<subseteq> set cs"
    by (auto dest: set_takeWhileD)
  ultimately show ?thesis unfolding trim_right_def by (metis set_rev)
qed

lemma LoadPassphraseFile_Inr:
  assumes "LoadPassphraseFile cwd p w = (Inr v, w')"
  obtains m d where "p \<noteq> []" and "at w (resolve cwd p) = Some (Regular m d)"
    and "m AND mode_0077 = 0" and "1 \<le> length d" and "length d \<le> maxPassphraseBytes"
    and "v = trim_right line_ends d" and "v \<noteq> []" and "CHR 0x00 \<notin> set v" and "files w' = files w"
proof -
  from assms have p: "p \<noteq> []" by (auto simp: LoadPassphraseFile_def)
  with assms obtain info w1 where st: "os_lstat (resolve cwd p) w = (Inr info, w1)"
    and ok: "is_regular info" "node_mode info AND mode_0077 = 0" "1 \<le> file_size info"
      "file_size info \<le> maxPassphraseBytes"
    and rest: "bindE (wrapE ''read CA passphrase file'' (os_read_file (resolve cwd p))) (\<lambda>data.
          let v = trim_right line_ends data in
          if v = [] \<or> CHR 0x00 \<in> set v then
            throwE (ErrText ''CA passphrase is empty or invalid'')
          else returnE v) w1 = (Inr v, w')"
    by (auto simp: LoadPassphraseFile_def bindE_Inr [of "wrapE ''inspect CA passphrase file'' _"]
        split: if_splits)
  from rest obtain d w2 where rd: "os_read_file (resolve cwd p) w1 = (Inr d, w2)"
    and v: "v = trim_right line_ends d" "v \<noteq> []" "CHR 0x00 \<notin> set v" "w' = w2"
    by (auto simp: bindE_Inr Let_def split: if_splits)
  from os_lstat_Inr [OF st] os_read_file_Inr [OF rd]
  have "at w (resolve cwd p) = Some info" "node_data info = Some d" "files w2 = files w" by auto
  with p ok v that show thesis by (cases info) (auto simp: file_size_def)
qed

section \<open>Properties\<close>

text \<open>A passphrase is only ever taken from a regular file of at most 1 KiB that group and
  others cannot touch; it is the content of the file without its trailing line ends, not empty and
  without a NUL byte; no file is changed.\<close>

theorem passphrase_is_private:
  assumes "LoadPassphraseFile cwd p w = (Inr v, w')"
  shows "\<exists>m d e. at w (resolve cwd p) = Some (Regular m d) \<and> m AND mode_0077 = 0 \<and>
    length d \<le> maxPassphraseBytes \<and> d = v @ e \<and> set e \<subseteq> {CHR 0x0D, CHR 0x0A} \<and>
    v \<noteq> [] \<and> last v \<notin> {CHR 0x0D, CHR 0x0A} \<and> CHR 0x00 \<notin> set v \<and> files w' = files w"
proof -
  from assms obtain m d where l: "at w (resolve cwd p) = Some (Regular m d)"
    and ok: "m AND mode_0077 = 0" "length d \<le> maxPassphraseBytes" "files w' = files w"
    and v: "v = trim_right line_ends d" "v \<noteq> []" "CHR 0x00 \<notin> set v"
    by (rule LoadPassphraseFile_Inr)
  then obtain e where e: "d = v @ e" "set e \<subseteq> set line_ends"
    using trim_right_split [of d line_ends] by auto
  have "last v \<notin> set line_ends" using trim_right_last [of line_ends d] v by simp
  moreover have "set line_ends = {CHR 0x0D, CHR 0x0A}" by (simp add: line_ends_def)
  ultimately show ?thesis using l ok v(2,3) e by (intro exI [of _ m] exI [of _ d] exI [of _ e]) simp
qed

definition passphrase_world :: "mode \<Rightarrow> world" where
  "passphrase_world m = \<lparr>files = [([''run''], Directory mode_0755),
     ([''run'', ''pass''], Regular m (''correct horse'' @ [CHR 0x0A]))],
     faults = [], rand = (\<lambda>i. i), umask = 18\<rparr>"

theorem passphrase_is_private_witness:
  "fst (LoadPassphraseFile [''run''] ''pass'' (passphrase_world mode_0600)) = Inr ''correct horse'' \<and>
   (\<exists>m d. at (passphrase_world mode_0600) [''run'', ''pass''] = Some (Regular m d) \<and> m AND mode_0077 = 0)"
proof
  show r: "fst (LoadPassphraseFile [''run''] ''pass'' (passphrase_world mode_0600)) = Inr ''correct horse''"
    by code_simp
  have p: "resolve [''run''] ''pass'' = [''run'', ''pass'']" by code_simp
  from r obtain w' where
    "LoadPassphraseFile [''run''] ''pass'' (passphrase_world mode_0600) = (Inr ''correct horse'', w')"
    by (metis prod.collapse)
  from passphrase_is_private [OF this] p
  show "\<exists>m d. at (passphrase_world mode_0600) [''run'', ''pass''] = Some (Regular m d) \<and> m AND mode_0077 = 0"
    by auto
qed

text \<open>C27. In a world without input/output errors the conditions are exact: the passphrase is
  returned if and only if they hold.\<close>

theorem passphrase_accepted_iff:
  assumes "faults w = []" and "stat (files w) (resolve cwd p) = Inr n" and "p \<noteq> []"
  shows "fst (LoadPassphraseFile cwd p w) = Inr v \<longleftrightarrow>
    (\<exists>m d. n = Regular m d \<and> m AND mode_0077 = 0 \<and> 1 \<le> length d \<and> length d \<le> maxPassphraseBytes \<and>
       v = trim_right line_ends d \<and> v \<noteq> [] \<and> CHR 0x00 \<notin> set v)"
proof (cases n)
  case (Regular m d)
  with assms show ?thesis
    by (auto simp: LoadPassphraseFile_def bindE_def wrapE_def throwE_def returnE_def os_lstat_def
        os_read_file_def syscall_def file_size_def Let_def not_less Suc_le_eq)
qed (use assms in \<open>auto simp: LoadPassphraseFile_def bindE_def wrapE_def throwE_def os_lstat_def syscall_def\<close>)

theorem passphrase_accepted_iff_witness:
  "fst (LoadPassphraseFile [''run''] ''pass'' (passphrase_world mode_0644)) \<noteq> Inr ''correct horse''"
proof -
  have "stat (files (passphrase_world mode_0644)) (resolve [''run''] ''pass'') =
      Inr (Regular mode_0644 (''correct horse'' @ [CHR 0x0A]))" by code_simp
  moreover have "mode_0644 AND mode_0077 \<noteq> 0" by code_simp
  ultimately show ?thesis
    using passphrase_accepted_iff [of "passphrase_world mode_0644" "[''run'']" "''pass''"]
    by (simp add: passphrase_world_def)
qed

end
