(* ===== verification/Go_Time.thy ===== *)
theory Go_Time
  imports Go_Text
begin

text \<open>
  Package \<open>time\<close>: an instant is the number of nanoseconds since the zero \<open>time.Time\<close>,
  1 January of year 1 in UTC; its calendar date in the proleptic Gregorian calendar, and its
  RFC 3339 texts.
\<close>

type_synonym instant = int

definition IsZero :: "instant \<Rightarrow> bool" where
  "IsZero t \<longleftrightarrow> t = 0"

abbreviation day_ns :: int where "day_ns \<equiv> 86400 * 1000000000"

text \<open>Year, month and day from the days since 1 January of year 1; the year of the computation
  starts in March.\<close>

definition civil :: "int \<Rightarrow> int \<times> int \<times> int" where
  "civil days =
     (let z = days + 306;
          doe = z mod 146097;
          yoe = (doe - doe div 1460 + doe div 36524 - doe div 146096) div 365;
          doy = doe - (365 * yoe + yoe div 4 - yoe div 100);
          mp = (5 * doy + 2) div 153;
          d = doy - (153 * mp + 2) div 5 + 1;
          m = (if mp < 10 then mp + 3 else mp - 9);
          y = yoe + 400 * (z div 146097) + (if m \<le> 2 then 1 else 0)
      in (y, m, d))"

definition year :: "instant \<Rightarrow> int" where
  "year t = fst (civil (t div day_ns))"

text \<open>A number with at least \<open>n\<close> digits.\<close>

definition pad :: "nat \<Rightarrow> int \<Rightarrow> string" where
  "pad n i = replicate (n - length (dec (nat i))) (CHR ''0'') @ dec (nat i)"

text \<open>\<open>Format(time.RFC3339)\<close> and \<open>Format(time.RFC3339Nano)\<close> of an instant in UTC with a
  year from 0 to 9999.\<close>

definition date_time :: "instant \<Rightarrow> string" where
  "date_time t =
     (case civil (t div day_ns) of (y, m, d) \<Rightarrow>
      let s = t mod day_ns div 1000000000 in
      pad 4 y @ ''-'' @ pad 2 m @ ''-'' @ pad 2 d @ ''T'' @
      pad 2 (s div 3600) @ '':'' @ pad 2 (s div 60 mod 60) @ '':'' @ pad 2 (s mod 60))"

definition fraction :: "instant \<Rightarrow> string" where
  "fraction t =
     (let ns = t mod 1000000000 in
      if ns = 0 then [] else CHR ''.'' # trim_right [CHR ''0''] (pad 9 ns))"

definition rfc3339 :: "instant \<Rightarrow> string" where
  "rfc3339 t = date_time t @ ''Z''"

definition rfc3339_nano :: "instant \<Rightarrow> string" where
  "rfc3339_nano t = date_time t @ fraction t @ ''Z''"

text \<open>The zero time, a leap day of a century, and a fraction.\<close>

lemma date_examples:
  "civil 0 = (1, 1, 1)" "civil 730178 = (2000, 2, 29)" "civil 730179 = (2000, 3, 1)"
  "civil 693653 = (1900, 2, 28)" "civil 693654 = (1900, 3, 1)" "civil 738944 = (2024, 2, 29)"
  by code_simp+

lemma time_example:
  "rfc3339_nano (738944 * day_ns + 45296500000000) = ''2024-02-29T12:34:56.5Z''"
  by code_simp

section \<open>The characters of a text\<close>

definition time_char :: "char \<Rightarrow> bool" where
  "time_char c \<longleftrightarrow> is_digit c \<or> c \<in> set ''-:.TZ''"

lemma pad_chars: "list_all time_char (pad n i)"
proof -
  have "time_char (CHR ''0'')" by (simp add: time_char_def is_digit_def code_def)
  then show ?thesis
    using dec_digits [of "nat i"] by (auto simp: pad_def list_all_iff time_char_def)
qed

lemma rfc3339_chars:
  "list_all time_char (date_time t)" "list_all time_char (rfc3339 t)" "list_all time_char (rfc3339_nano t)"
proof -
  have sep: "time_char (CHR ''-'')" "time_char (CHR '':'')" "time_char (CHR ''T'')" "time_char (CHR ''Z'')"
    "time_char (CHR ''.'')"
    by (simp_all add: time_char_def)
  show d: "list_all time_char (date_time t)"
    by (simp add: date_time_def pad_chars sep Let_def split: prod.split)
  have "list_all time_char (fraction t)"
    using pad_chars [of 9 "t mod 1000000000"] trim_right_subset [of "[CHR ''0'']"] sep
    by (auto simp: fraction_def Let_def list_all_iff)
  with d sep show "list_all time_char (rfc3339 t)" "list_all time_char (rfc3339_nano t)"
    by (simp_all add: rfc3339_def rfc3339_nano_def)
qed

lemma time_char_ascii: "time_char c \<Longrightarrow> code c < 128"
  by (auto simp: time_char_def is_digit_def code_def)

lemma rfc3339_utf8: "utf8_valid (rfc3339 t)" "utf8_valid (rfc3339_nano t)"
  using rfc3339_chars(2,3) [of t] time_char_ascii
  by (auto intro!: utf8_valid_ascii simp: list_all_iff)

end
