(* ===== verification/Audit_Log.thy ===== *)
theory Audit_Log
  imports Os_Rules Go_Json_Rules Go_Time
begin

text \<open>
  The audit log of internal/audit/log.go: one JSON object per line, appended to a private file.
  The mutex of the log makes each operation one step. A nil log is \<open>None\<close>; \<open>now\<close> is
  what \<open>time.Now()\<close> returns.
\<close>

section \<open>Data\<close>

record Record =
  Time :: instant
  RequestID :: string
  RemoteAddr :: string
  Action :: string
  Resource :: string
  Outcome :: string
  ErrorCode :: string

record Log =
  log_path :: string

definition log_New :: "string \<Rightarrow> Log" where
  "log_New p = \<lparr>log_path = p\<rparr>"

definition encode_record :: "Record \<Rightarrow> json" where
  "encode_record r = JObj (
     [(''time'', JStr (rfc3339_nano (Time r))), (''request_id'', JStr (RequestID r)),
      (''remote_addr'', JStr (RemoteAddr r)), (''action'', JStr (Action r)),
      (''resource'', JStr (Resource r)), (''outcome'', JStr (Outcome r))] @
     (if ErrorCode r = [] then [] else [(''error_code'', JStr (ErrorCode r))]))"

text \<open>\<open>json.Marshal(record)\<close>: a year outside four digits is an error.\<close>

definition marshal_record :: "Record \<Rightarrow> err + string" where
  "marshal_record r =
     (if year (Time r) < 0 \<or> 9999 < year (Time r) then
        Inl (Wrap ''encode audit record: ''
          (ErrText ''json: error calling MarshalJSON for type time.Time: Time.MarshalJSON: year outside of range [0,9999]'') [])
      else Inr (json_marshal (encode_record r)))"

definition log_unconfigured :: "Log option \<Rightarrow> bool" where
  "log_unconfigured l = (case l of None \<Rightarrow> True | Some x \<Rightarrow> log_path x = [])"

definition log_file :: "path \<Rightarrow> Log option \<Rightarrow> path" where
  "log_file cwd l = (case l of None \<Rightarrow> cwd | Some x \<Rightarrow> resolve cwd (log_path x))"

section \<open>Operations\<close>

definition log_open :: "path \<Rightarrow> unit io" where
  "log_open p =
     bindE (wrapE ''create audit directory'' (os_mkdir_all (butlast p) mode_0700)) (\<lambda>_.
     bindE (tryE (os_lstat p)) (\<lambda>r.
     bindE (case r of
         Inr info \<Rightarrow> checkE (is_regular info) (ErrText ''audit destination is not a regular file'')
       | Inl e \<Rightarrow> checkE (is_not_exist e) (Wrap ''inspect audit log: '' e [])) (\<lambda>_.
     bindE (wrapE ''open audit log'' (os_open_append p mode_0600)) (\<lambda>_.
     onErrorE (file_close p) (wrapE ''secure audit log'' (os_chmod p mode_0600))))))"

definition Log_Ready :: "path \<Rightarrow> Log option \<Rightarrow> unit io" where
  "Log_Ready cwd l =
     (if log_unconfigured l then throwE (ErrText ''audit log is not configured'')
      else bindE (log_open (log_file cwd l)) (\<lambda>_. file_close (log_file cwd l)))"

definition stamp :: "instant \<Rightarrow> Record \<Rightarrow> Record" where
  "stamp now r = (if IsZero (Time r) then r\<lparr>Time := now\<rparr> else r)"

definition write_record :: "path \<Rightarrow> string \<Rightarrow> unit io" where
  "write_record p data =
     bindE (onErrorE (file_close p) (wrapE ''append audit record'' (file_write p data))) (\<lambda>_.
     bindE (onErrorE (file_close p) (wrapE ''sync audit log'' (file_sync p))) (\<lambda>_.
     wrapE ''close audit log'' (file_close p)))"

definition Log_Append :: "path \<Rightarrow> instant \<Rightarrow> Log option \<Rightarrow> Record \<Rightarrow> unit io" where
  "Log_Append cwd now l rec =
     (if log_unconfigured l then throwE (ErrText ''audit log is not configured'')
      else
        bindE (liftE (marshal_record (stamp now rec))) (\<lambda>data.
        bindE (log_open (log_file cwd l)) (\<lambda>_.
        write_record (log_file cwd l) (data @ [CHR 0x0A]))))"

section \<open>The content of a file\<close>

definition content :: "path \<Rightarrow> world \<Rightarrow> string" where
  "content p w =
     (case at w p of None \<Rightarrow> []
      | Some n \<Rightarrow> (case node_data n of None \<Rightarrow> [] | Some d \<Rightarrow> d))"

text \<open>\<open>grows p m\<close>: whatever \<open>m\<close> does, the content of \<open>p\<close> is extended at most.\<close>

definition grows :: "path \<Rightarrow> 'a io \<Rightarrow> bool" where
  "grows p m \<longleftrightarrow> (\<forall>w. prefix (content p w) (content p (snd (m w))))"

lemma growsD: "grows p m \<Longrightarrow> m w = (r, w') \<Longrightarrow> prefix (content p w) (content p w')"
  unfolding grows_def by (metis snd_conv)

lemma grows_bindE: "grows p m \<Longrightarrow> (\<And>x. grows p (f x)) \<Longrightarrow> grows p (bindE m f)"
  unfolding grows_def bindE_def
  by (auto split: prod.splits sum.splits) (metis prefix_order.trans snd_conv)+

lemma grows_kept: "(\<And>w. content p (snd (m w)) = content p w) \<Longrightarrow> grows p m"
  by (simp add: grows_def)

lemma grows_changes: "changes A m \<Longrightarrow> p \<notin> A \<Longrightarrow> grows p m"
  by (rule grows_kept) (simp add: changes_def content_def)

lemma grows_wrapE: "grows p m \<Longrightarrow> grows p (wrapE msg m)"
  by (simp add: grows_def)

lemma grows_onErrorE: "grows p m \<Longrightarrow> grows p c \<Longrightarrow> grows p (onErrorE c m)"
  unfolding grows_def onErrorE_def
  by (auto split: prod.splits sum.splits) (metis prefix_order.trans snd_conv)+

lemma grows_tryE: "grows p m \<Longrightarrow> grows p (tryE m)"
  by (simp add: grows_def)

lemma grows_checkE: "grows p (checkE b e)"
  by (simp add: grows_def checkE_def returnE_def throwE_def)

lemma grows_liftE: "grows p (liftE r)"
  by (cases r) (simp_all add: grows_def liftE_def returnE_def throwE_def)

lemma grows_throwE: "grows p (throwE e)"
  by (simp add: grows_def throwE_def)

lemma content_faults: "content p (w\<lparr>faults := fs\<rparr>) = content p w"
  by (simp add: content_def)

lemma grows_syscall:
  assumes "\<And>n. grows p (bad n)" and "grows p good"
  shows "grows p (syscall bad good)"
  using assms content_faults [of p] unfolding grows_def syscall_def
  by (auto split: list.split option.split) metis+

lemma grows_read:
  "grows p (fault op q n)" "grows p (os_lstat q)" "grows p (file_sync q)" "grows p (file_close q)"
  by (rule grows_changes [of "{}"], intro footprint, simp)+

lemma content_mode:
  "at w q = Some n \<Longrightarrow> content p (w\<lparr>files := fs_put q (with_mode m n) (files w)\<rparr>) = content p w"
  by (cases n) (auto simp: content_def lookup_put)

lemma grows_os_chmod: "grows p (os_chmod q m)"
  unfolding os_chmod_def
  by (rule grows_syscall, rule grows_read, rule grows_kept)
    (auto simp: stat_Inr content_mode split: sum.split)

lemma grows_os_mkdir_all: "grows p (os_mkdir_all q m)"
  unfolding grows_def
proof
  fix w
  obtain r w' where mk: "os_mkdir_all q m w = (r, w')" by force
  from os_mkdir_all_grows [OF mk, of p]
  show "prefix (content p w) (content p (snd (os_mkdir_all q m w)))"
    by (auto simp: mk content_def)
qed

lemma grows_append_file: "grows p (append_file p d)"
  by (auto simp: grows_def append_file_def content_def lookup_put split: option.split node.split)

lemma grows_file_write: "grows p (file_write p d)"
  unfolding file_write_def by (intro grows_syscall grows_bindE grows_append_file grows_read)

lemma grows_os_open_append: "grows p (os_open_append p m)"
  unfolding os_open_append_def
  by (rule grows_syscall, rule grows_read)
    (auto simp: grows_def content_def lookup_put split: option.split node.split)

lemmas grows_rules = grows_bindE grows_wrapE grows_onErrorE grows_tryE grows_checkE grows_liftE
  grows_read grows_os_chmod grows_os_mkdir_all grows_file_write grows_os_open_append

lemma grows_log_open: "grows p (log_open p)"
  unfolding log_open_def
  by (intro grows_rules) (auto intro: grows_checkE split: sum.split)

lemma grows_Log_Append: "log_file cwd l = p \<Longrightarrow> grows p (Log_Append cwd now l rec)"
  unfolding Log_Append_def write_record_def
  by (cases "log_unconfigured l") (auto intro!: grows_rules grows_log_open grows_throwE)

section \<open>Opening and appending\<close>

lemma not_prefix_butlast: "p \<noteq> [] \<Longrightarrow> \<not> prefix p (butlast p)"
  by (metis append_butlast_last_id length_append_singleton not_less_eq_eq order_refl prefix_length_le)

lemma changes_log_open [footprint]: "insert p {q. prefix q (butlast p)} \<subseteq> A \<Longrightarrow> changes A (log_open p)"
  unfolding log_open_def by (intro footprint) auto

lemma changes_Log_Append:
  "changes (insert (log_file cwd l) {q. prefix q (butlast (log_file cwd l))}) (Log_Append cwd now l rec)"
  unfolding Log_Append_def write_record_def by (intro footprint) auto

lemma os_open_append_Inr:
  assumes "os_open_append p m w = (Inr u, w')" and "p \<noteq> []"
  shows "\<exists>m'. at w' p = Some (Regular m' (content p w))"
    and "at w p = None \<or> (\<exists>m d. at w p = Some (Regular m d))"
  using assms unfolding os_open_append_def
  by (cases rule: syscall_cases;
      auto simp: fault_def content_def lookup_put split: option.splits node.splits)+

text \<open>The root cannot be opened as a log.\<close>

lemma log_open_root: "log_open [] w \<noteq> (Inr u, w')"
proof
  assume "log_open [] w = (Inr u, w')"
  then obtain v r v' w2 where st: "os_lstat [] v = (r, v')"
    and k: "(case r of
         Inr info \<Rightarrow> checkE (is_regular info) (ErrText ''audit destination is not a regular file'')
       | Inl e \<Rightarrow> checkE (is_not_exist e) (Wrap ''inspect audit log: '' e [])) v' = (Inr (), w2)"
    by (auto simp: log_open_def bindE_Inr tryE_eq)
  show False
  proof (cases r)
    case (Inl e)
    with k have "is_not_exist e" by simp
    with os_lstat_not_exist [OF st [unfolded Inl]] show False by (simp add: stat_def blocked_def parents_def)
  next
    case (Inr n)
    with k os_lstat_Inr [OF st [unfolded Inr]] show False by auto
  qed
qed

lemma log_open_Inr:
  assumes "log_open p w = (Inr u, w')" and p: "p \<noteq> []"
  shows "at w' p = Some (Regular mode_0600 (content p w))"
    and "at w p = None \<or> (\<exists>m d. at w p = Some (Regular m d))"
proof -
  from assms(1) obtain w1 r v w2 w3 where mk: "os_mkdir_all (butlast p) mode_0700 w = (Inr (), w1)"
    and st: "os_lstat p w1 = (r, v)"
    and k: "(case r of
         Inr info \<Rightarrow> checkE (is_regular info) (ErrText ''audit destination is not a regular file'')
       | Inl e \<Rightarrow> checkE (is_not_exist e) (Wrap ''inspect audit log: '' e [])) v = (Inr (), w2)"
    and op: "os_open_append p mode_0600 w2 = (Inr (), w3)"
    and ch: "os_chmod p mode_0600 w3 = (Inr u, w')"
    by (auto simp: log_open_def bindE_Inr tryE_eq)
  from k have "w2 = v" by (cases r) auto
  have w2: "at w2 p = at w p"
    using changesD [OF changes_os_mkdir_all [OF order_refl] mk, of p] not_prefix_butlast [OF p]
      os_read_files(1) [OF st] \<open>w2 = v\<close> by simp
  note opened = os_open_append_Inr [OF op p]
  from opened(1) os_chmod_Inr [OF ch] p w2
  show "at w' p = Some (Regular mode_0600 (content p w))" by (auto simp: content_def)
  from opened(2) w2 show "at w p = None \<or> (\<exists>m d. at w p = Some (Regular m d))" by simp
qed

lemma Log_Append_Inr:
  assumes "Log_Append cwd now l rec w = (Inr u, w')"
  shows "\<exists>line. marshal_record (stamp now rec) = Inr line \<and>
    at w' (log_file cwd l) =
      Some (Regular mode_0600 (content (log_file cwd l) w @ line @ [CHR 0x0A]))"
    and "at w (log_file cwd l) = None \<or> (\<exists>m d. at w (log_file cwd l) = Some (Regular m d))"
proof -
  let ?p = "log_file cwd l"
  from assms(1) obtain line w1 w2 where line: "marshal_record (stamp now rec) = Inr line"
    and op: "log_open ?p w = (Inr (), w1)" and wr: "write_record ?p (line @ [CHR 0x0A]) w1 = (Inr u, w2)"
    and w2: "w2 = w'"
    by (auto simp: Log_Append_def bindE_Inr split: if_splits)
  have p: "?p \<noteq> []" using log_open_root [of w "()" w1] op by auto
  from wr obtain v1 v2 where fw: "file_write ?p (line @ [CHR 0x0A]) w1 = (Inr (), v1)"
    and fs: "file_sync ?p v1 = (Inr (), v2)" and fc: "file_close ?p v2 = (Inr u, w2)"
    by (auto simp: write_record_def bindE_Inr)
  from log_open_Inr [OF op p] file_write_Inr [OF fw p] file_sync_files [OF fs] file_close_files [OF fc] line w2
  show "\<exists>line. marshal_record (stamp now rec) = Inr line \<and>
    at w' ?p = Some (Regular mode_0600 (content ?p w @ line @ [CHR 0x0A]))" by auto
  from log_open_Inr(2) [OF op p] show "at w ?p = None \<or> (\<exists>m d. at w ?p = Some (Regular m d))" .
qed


section \<open>Lines\<close>

text \<open>A printed value has no control character, so it is one line whatever its strings hold.\<close>

definition printable :: "char \<Rightarrow> bool" where
  "printable c \<longleftrightarrow> 32 \<le> code c"

lemma printable_hex: "list_all printable (hex_byte c)"
proof -
  have "is_hex x \<Longrightarrow> printable x" for x
    by (auto simp: is_hex_def is_digit_def printable_def)
  then show ?thesis using code_less_256 [of c] by (simp add: hex_byte_def is_hex_digit)
qed

lemma printable_ascii: "code c < 128 \<Longrightarrow> list_all printable (json_ascii c)"
  using printable_hex [of c]
  by (auto simp: json_ascii_def printable_def code_def)

lemma utf8_high:
  "utf8_two s \<Longrightarrow> 128 \<le> code (s ! 0) \<and> 128 \<le> code (s ! 1)"
  "utf8_three s \<Longrightarrow> 128 \<le> code (s ! 0) \<and> 128 \<le> code (s ! 1) \<and> 128 \<le> code (s ! 2)"
  "utf8_four s \<Longrightarrow> 128 \<le> code (s ! 0) \<and> 128 \<le> code (s ! 1) \<and> 128 \<le> code (s ! 2) \<and> 128 \<le> code (s ! 3)"
  unfolding utf8_defs in_range_def by linarith+

lemma printable_multi:
  assumes "\<not> code c < 128"
  shows "list_all printable (take (utf8_len (c # cs)) (c # cs))"
proof -
  let ?s = "c # cs"
  have "\<not> in_range 0 127 ?s 0" using assms by (simp add: in_range_def)
  then have "utf8_len ?s = 2 \<and> utf8_two ?s \<or> utf8_len ?s = 3 \<and> utf8_three ?s \<or>
      utf8_len ?s = 4 \<and> utf8_four ?s \<or> utf8_len ?s = 0"
    by (simp add: utf8_len_def)
  then have "128 \<le> code (?s ! i)" if "i < utf8_len ?s" for i
    using that utf8_high [of ?s] by (elim disjE conjE) (auto simp: less_Suc_eq numeral_eq_Suc)
  then have "printable (?s ! i)" if "i < utf8_len ?s" for i
    using that by (force simp: printable_def)
  then show ?thesis by (simp add: list_all_length)
qed

lemma printable_body: "list_all printable (json_body s)"
proof (induction s rule: json_body.induct)
  case (2 c cs)
  have esc: "printable bslash" "list_all printable ''ufffd''" "list_all printable ''u2028''" "list_all printable ''u2029''"
    by (simp_all add: printable_def code_def)
  from 2 esc printable_ascii [of c] printable_multi [of c cs] show ?case by auto
qed simp

lemma printable_string: "list_all printable (json_string s)"
  by (simp add: json_string_def printable_body) (simp add: printable_def code_def)

definition audit_line :: "Record \<Rightarrow> string" where
  "audit_line r = json_marshal (encode_record r)"

lemma printable_line: "list_all printable (audit_line r)"
  using printable_string
  by (auto simp: audit_line_def json_marshal_def encode_record_def printable_def code_def list_all_iff)

definition text_fields :: "Record \<Rightarrow> string list" where
  "text_fields r = [RequestID r, RemoteAddr r, Action r, Resource r, Outcome r, ErrorCode r]"

lemma encode_record_ok:
  assumes "list_all utf8_valid (text_fields r)"
  shows "json_ok (encode_record r)"
proof -
  have "utf8_valid ''time''" "utf8_valid ''request_id''" "utf8_valid ''remote_addr''" "utf8_valid ''action''"
    "utf8_valid ''resource''" "utf8_valid ''outcome''" "utf8_valid ''error_code''"
    by (rule utf8_valid_ascii, simp add: code_def)+
  with assms show ?thesis by (simp add: encode_record_def text_fields_def rfc3339_utf8)
qed


section \<open>Histories\<close>

text \<open>
  An append-only text: a successful addition appends its line, a failed one at most something. Over
  any sequence of additions every successful line is there, whole and in order.
\<close>

fun add_all :: "('v \<Rightarrow> unit io) \<Rightarrow> 'v list \<Rightarrow> world \<Rightarrow> world" where
  "add_all add [] w = w"
| "add_all add (v # vs) w = add_all add vs (snd (add v w))"

fun accepted :: "('v \<Rightarrow> unit io) \<Rightarrow> 'v list \<Rightarrow> world \<Rightarrow> 'v list" where
  "accepted add [] w = []"
| "accepted add (v # vs) w =
     (case add v w of
        (Inl e, w') \<Rightarrow> accepted add vs w'
      | (Inr u, w') \<Rightarrow> v # accepted add vs w')"

lemma accepted_length: "length (accepted add vs w) \<le> length vs"
  by (induction vs arbitrary: w) (auto split: prod.split sum.split intro: le_SucI)

locale append_log =
  fixes add :: "'v \<Rightarrow> unit io" and view :: "world \<Rightarrow> string" and line :: "'v \<Rightarrow> string"
  assumes add_ok: "add v w = (Inr u, w') \<Longrightarrow> view w' = view w @ line v"
    and add_err: "add v w = (Inl e, w') \<Longrightarrow> prefix (view w) (view w')"
begin

lemma history:
  "\<exists>chunks. view (add_all add vs w) = view w @ concat chunks \<and>
     subseq (map line (accepted add vs w)) chunks"
proof (induction vs arbitrary: w)
  case Nil
  show ?case by (rule exI [of _ "[]"]) simp
next
  case (Cons v vs)
  obtain r w' where a: "add v w = (r, w')" by force
  from Cons [of w'] obtain chunks where ch: "view (add_all add vs w') = view w' @ concat chunks"
    and sub: "subseq (map line (accepted add vs w')) chunks" by blast
  show ?case
  proof (cases r)
    case (Inl e)
    with add_err [of v w e w'] a obtain x where "view w' = view w @ x" by (auto simp: prefix_def)
    with a Inl ch sub show ?thesis by (intro exI [of _ "x # chunks"]) auto
  next
    case (Inr u)
    with add_ok a have "view w' = view w @ line v" by simp
    with a Inr ch sub show ?thesis by (intro exI [of _ "line v # chunks"]) auto
  qed
qed

lemma history_of_successes:
  "accepted add vs w = vs \<Longrightarrow> view (add_all add vs w) = view w @ concat (map line vs)"
proof (induction vs arbitrary: w)
  case (Cons v vs)
  obtain r w' where a: "add v w = (r, w')" by force
  have "r \<noteq> Inl e" for e
    using a Cons.prems accepted_length [of add vs w'] by auto
  then obtain u where r: "r = Inr u" by (cases r) auto
  with a Cons.prems have "accepted add vs w' = vs" by simp
  from Cons.IH [OF this] add_ok [of v w u w'] a r show ?case by simp
qed simp

end

abbreviation append_entry :: "path \<Rightarrow> Log option \<Rightarrow> instant \<times> Record \<Rightarrow> unit io" where
  "append_entry cwd l \<equiv> \<lambda>(now, rec). Log_Append cwd now l rec"

definition entry_text :: "instant \<times> Record \<Rightarrow> string" where
  "entry_text x = audit_line (stamp (fst x) (snd x)) @ [CHR 0x0A]"

lemma marshal_record_Inr: "marshal_record r = Inr line \<Longrightarrow> line = audit_line r"
  by (auto simp: marshal_record_def audit_line_def split: if_splits)

interpretation audit: append_log "append_entry cwd l" "content (log_file cwd l)" entry_text for cwd l
proof unfold_locales
  fix v w u w'
  assume "append_entry cwd l v w = (Inr u, w')"
  then have "Log_Append cwd (fst v) l (snd v) w = (Inr u, w')" by (simp add: case_prod_beta)
  from Log_Append_Inr(1) [OF this]
  show "content (log_file cwd l) w' = content (log_file cwd l) w @ entry_text v"
    by (auto simp: content_def [of _ w'] entry_text_def dest: marshal_record_Inr)
next
  fix v w e w'
  assume "append_entry cwd l v w = (Inl e, w')"
  then have "Log_Append cwd (fst v) l (snd v) w = (Inl e, w')" by (simp add: case_prod_beta)
  from growsD [OF grows_Log_Append [OF refl] this]
  show "prefix (content (log_file cwd l) w) (content (log_file cwd l) w')" .
qed

section \<open>Properties\<close>

text \<open>C30. Appending only ever extends the log: after a success the file is private and ends with the
  whole line of the record, and it was absent or a regular file before; after a failure what was
  there is still there; and nothing but the file and missing directories above it changes.\<close>

theorem audit_append_extends:
  assumes "Log_Append cwd now l rec w = (r, w')"
  shows "prefix (content (log_file cwd l) w) (content (log_file cwd l) w') \<and>
    (r = Inr () \<longrightarrow>
       at w' (log_file cwd l) = Some (Regular mode_0600
         (content (log_file cwd l) w @ audit_line (stamp now rec) @ [CHR 0x0A])) \<and>
       (at w (log_file cwd l) = None \<or> (\<exists>m d. at w (log_file cwd l) = Some (Regular m d)))) \<and>
    (\<forall>q. q \<noteq> log_file cwd l \<and> \<not> prefix q (butlast (log_file cwd l)) \<longrightarrow> at w' q = at w q)"
proof (intro conjI impI allI)
  show "prefix (content (log_file cwd l) w) (content (log_file cwd l) w')"
    by (rule growsD [OF grows_Log_Append [OF refl] assms])
next
  assume "r = Inr ()"
  with assms have ok: "Log_Append cwd now l rec w = (Inr (), w')" by simp
  from Log_Append_Inr(1) [OF ok]
  show "at w' (log_file cwd l) = Some (Regular mode_0600
         (content (log_file cwd l) w @ audit_line (stamp now rec) @ [CHR 0x0A]))"
    by (auto dest: marshal_record_Inr)
  from Log_Append_Inr(2) [OF ok]
  show "at w (log_file cwd l) = None \<or> (\<exists>m d. at w (log_file cwd l) = Some (Regular m d))" .
next
  fix q assume "q \<noteq> log_file cwd l \<and> \<not> prefix q (butlast (log_file cwd l))"
  then show "at w' q = at w q" by (intro changesD [OF changes_Log_Append assms]) auto
qed

definition audit_world :: "nat option list \<Rightarrow> world" where
  "audit_world fs = \<lparr>files = [([''data''], Directory mode_0700)], faults = fs, rand = (\<lambda>i. i), umask = 18\<rparr>"

definition demo_log :: "Log option" where
  "demo_log = Some (log_New ''/data/audit.jsonl'')"

definition demo_record :: Record where
  "demo_record = \<lparr>Time = 0, RequestID = ''r1'', RemoteAddr = ''127.0.0.1'', Action = ''POST'' @ [CHR 0x0A],
     Resource = ''/x'', Outcome = ''200'', ErrorCode = []\<rparr>"

theorem audit_append_extends_witness:
  "content [''data'', ''audit.jsonl''] (snd (Log_Append [] 1 demo_log demo_record (audit_world []))) =
     audit_line (stamp 1 demo_record) @ [CHR 0x0A]"
proof -
  have f: "log_file [] demo_log = [''data'', ''audit.jsonl'']" by code_simp
  have "fst (Log_Append [] 1 demo_log demo_record (audit_world [])) = Inr ()" by code_simp
  moreover have "content [''data'', ''audit.jsonl''] (audit_world []) = []" by code_simp
  ultimately show ?thesis
    using audit_append_extends [of "[]" 1 demo_log demo_record "audit_world []", OF prod.collapse [symmetric]] f
    by (simp add: content_def)
qed

text \<open>C32. What a successful append adds is one line and one record: the text before its line break
  has no control character, so no field can forge a second record; and when the fields are UTF-8
  text it is a JSON object with exactly the members the log documents, in this order, each with the
  field of the record it is named after, the time being that of the append when the record has none
  and the error code left out when it is empty.\<close>

theorem audit_line_is_one_record:
  assumes "Log_Append cwd now l rec w = (Inr u, w')"
  shows "\<exists>line. content (log_file cwd l) w' = content (log_file cwd l) w @ line @ [CHR 0x0A] \<and>
    list_all printable line \<and>
    (list_all utf8_valid
       [RequestID rec, RemoteAddr rec, Action rec, Resource rec, Outcome rec, ErrorCode rec] \<longrightarrow>
     (\<exists>ms. json_parse line = Some (JObj ms) \<and>
       map fst ms = [''time'', ''request_id'', ''remote_addr'', ''action'', ''resource'', ''outcome''] @
         (if ErrorCode rec = [] then [] else [''error_code'']) \<and>
       map_of ms ''time'' = Some (JStr (rfc3339_nano (if IsZero (Time rec) then now else Time rec))) \<and>
       map_of ms ''request_id'' = Some (JStr (RequestID rec)) \<and>
       map_of ms ''remote_addr'' = Some (JStr (RemoteAddr rec)) \<and>
       map_of ms ''action'' = Some (JStr (Action rec)) \<and>
       map_of ms ''resource'' = Some (JStr (Resource rec)) \<and>
       map_of ms ''outcome'' = Some (JStr (Outcome rec)) \<and>
       map_of ms ''error_code'' = (if ErrorCode rec = [] then None else Some (JStr (ErrorCode rec)))))"
proof -
  let ?r = "stamp now rec"
  from Log_Append_Inr(1) [OF assms]
  have "content (log_file cwd l) w' = content (log_file cwd l) w @ audit_line ?r @ [CHR 0x0A]"
    by (auto simp: content_def [of _ w'] dest: marshal_record_Inr)
  moreover have "json_parse (audit_line ?r) = Some (encode_record ?r)"
    if "list_all utf8_valid
       [RequestID rec, RemoteAddr rec, Action rec, Resource rec, Outcome rec, ErrorCode rec]"
  proof -
    from that have "list_all utf8_valid (text_fields ?r)" by (simp add: text_fields_def stamp_def)
    from json_parse_marshal [OF encode_record_ok [OF this], of "[]"] show ?thesis
      by (simp add: audit_line_def)
  qed
  ultimately show ?thesis
    by (intro exI [of _ "audit_line ?r"]) (simp add: printable_line encode_record_def stamp_def)
qed

theorem audit_line_is_one_record_witness:
  "\<exists>line ms. content [''data'', ''audit.jsonl''] (snd (Log_Append [] 1 demo_log demo_record (audit_world []))) =
      line @ [CHR 0x0A] \<and> json_parse line = Some (JObj ms) \<and>
     map_of ms ''action'' = Some (JStr (''POST'' @ [CHR 0x0A])) \<and> map_of ms ''outcome'' = Some (JStr ''200'')"
proof -
  have f: "log_file [] demo_log = [''data'', ''audit.jsonl'']" by code_simp
  have "fst (Log_Append [] 1 demo_log demo_record (audit_world [])) = Inr ()" by code_simp
  then have run: "Log_Append [] 1 demo_log demo_record (audit_world []) =
      (Inr (), snd (Log_Append [] 1 demo_log demo_record (audit_world [])))"
    by (metis prod.collapse)
  have "list_all utf8_valid [RequestID demo_record, RemoteAddr demo_record, Action demo_record,
      Resource demo_record, Outcome demo_record, ErrorCode demo_record]" by code_simp
  moreover have "content [''data'', ''audit.jsonl''] (audit_world []) = []" by code_simp
  moreover have "Action demo_record = ''POST'' @ [CHR 0x0A]" "Outcome demo_record = ''200''"
    by (simp_all add: demo_record_def)
  ultimately show ?thesis using audit_line_is_one_record [OF run] f by auto
qed

text \<open>C31. Over any sequence of appends, failing ones included, the log keeps what it had and after
  it has, in their order and each in one piece with its line break, the text of every record whose
  append reported success; when every append succeeded it has nothing else, so one line for each
  record. (Between two pieces a failed append may leave part of its own line.)\<close>

theorem audit_history:
  "(\<exists>chunks. content (log_file cwd l) (add_all (append_entry cwd l) xs w) =
      content (log_file cwd l) w @ concat chunks \<and>
    subseq (map entry_text (accepted (append_entry cwd l) xs w)) chunks) \<and>
   (accepted (append_entry cwd l) xs w = xs \<longrightarrow>
     content (log_file cwd l) (add_all (append_entry cwd l) xs w) =
       content (log_file cwd l) w @ concat (map entry_text xs))"
  using audit.history [of cwd l xs w] audit.history_of_successes [of cwd l xs w] by blast

theorem audit_history_witness:
  "content [''data'', ''audit.jsonl''] (add_all (append_entry [] demo_log)
       [(1, demo_record), (2, demo_record)] (audit_world [])) =
     audit_line (stamp 1 demo_record) @ [CHR 0x0A] @ audit_line (stamp 2 demo_record) @ [CHR 0x0A]"
proof -
  have f: "log_file [] demo_log = [''data'', ''audit.jsonl'']" by code_simp
  have "accepted (append_entry [] demo_log) [(1, demo_record), (2, demo_record)] (audit_world []) =
      [(1, demo_record), (2, demo_record)]" by code_simp
  moreover have "content [''data'', ''audit.jsonl''] (audit_world []) = []" by code_simp
  ultimately show ?thesis
    using audit_history [of "[]" demo_log "[(1, demo_record), (2, demo_record)]" "audit_world []"] f
    by (simp add: entry_text_def)
qed

text \<open>
  A record is not always a line of its own: after a partial write the rest of a failed line stays,
  and the next record, whose append reports success, continues it. The line it is on is then no JSON value.
\<close>

theorem torn_line_swallows_the_next_record:
  "\<exists>w xs. accepted (append_entry [] demo_log) xs w = [(2, demo_record)] \<and>
     split_on (CHR 0x0A) (content [''data'', ''audit.jsonl''] (add_all (append_entry [] demo_log) xs w)) \<noteq>
       [audit_line (stamp 2 demo_record), []] \<and>
     map json_parse (split_on (CHR 0x0A)
       (content [''data'', ''audit.jsonl''] (add_all (append_entry [] demo_log) xs w))) = [None, None]"
  by (rule exI [of _ "audit_world [None, None, None, None, Some 9]"], rule exI [of _ "[(1, demo_record), (2, demo_record)]"])
    code_simp

end
