(* ===== verification/Go_Path.thy ===== *)
theory Go_Path
  imports File_Tree
begin

text \<open>
  Package \<open>path\<close>: \<open>path.Clean\<close> on strings and \<open>filepath.Dir\<close> of a string given to
  a process working in some directory. The main result says which strings without a leading slash
  \<open>path.Clean\<close> leaves alone: those whose components name entries, after leading dot-dots.
\<close>

definition clean_step :: "bool \<Rightarrow> string \<Rightarrow> string list \<Rightarrow> string list" where
  "clean_step rooted c p =
     (if c = [] \<or> c = ''.'' then p
      else if c = ''..'' then
        (if p \<noteq> [] \<and> last p \<noteq> ''..'' then butlast p else if rooted then p else p @ [''..''])
      else p @ [c])"

definition path_Clean :: "string \<Rightarrow> string" where
  "path_Clean s =
     (let rooted = has_prefix s ''/'';
          body = join_with ''/'' (fold (clean_step rooted) (split_on (CHR ''/'') s) [])
      in if rooted then CHR ''/'' # body else if body = [] then ''.'' else body)"

text \<open>\<open>filepath.Dir\<close>: what stands before the last slash, cleaned; the working directory when there
  is no slash.\<close>

definition dir_of :: "path \<Rightarrow> string \<Rightarrow> path" where
  "dir_of cwd s = resolve cwd (rev (dropWhile (\<lambda>c. c \<noteq> CHR ''/'') (rev s)))"

text \<open>A string that ends in the name of an entry, so that text appended to it extends that name.\<close>

definition names_entry :: "string \<Rightarrow> bool" where
  "names_entry s \<longleftrightarrow> plain_segment (last (split_on (CHR ''/'') s))"

lemma split_on_snoc: "CHR ''/'' \<notin> set c \<Longrightarrow> split_on (CHR ''/'') (d @ CHR ''/'' # c) = split_on (CHR ''/'') d @ [c]"
proof (induction d)
  case (Cons x d)
  then show ?case
    by (cases "split_on (CHR ''/'') d") auto
qed (simp add: split_on_none)

lemma last_split_append:
  "CHR ''/'' \<notin> set t \<Longrightarrow> split_on (CHR ''/'') (s @ t) =
     butlast (split_on (CHR ''/'') s) @ [last (split_on (CHR ''/'') s) @ t]"
proof (induction s)
  case Nil
  then show ?case by (simp add: split_on_none)
next
  case (Cons x s)
  then show ?case by (cases "split_on (CHR ''/'') s") auto
qed

lemma split_dir_part:
  fixes s :: string
  defines "d \<equiv> rev (dropWhile (\<lambda>c. c \<noteq> CHR ''/'') (rev s))"
  shows "split_on (CHR ''/'') d = butlast (split_on (CHR ''/'') s) @ [[]]"
    and "has_prefix d ''/'' = (butlast (split_on (CHR ''/'') s) \<noteq> [] \<and> has_prefix s ''/'')"
proof -
  let ?b = "rev (takeWhile (\<lambda>c. c \<noteq> CHR ''/'') (rev s))"
  have "d @ ?b = rev (takeWhile (\<lambda>c. c \<noteq> CHR ''/'') (rev s) @ dropWhile (\<lambda>c. c \<noteq> CHR ''/'') (rev s))"
    unfolding d_def rev_append ..
  then have s: "s = d @ ?b" unfolding takeWhile_dropWhile_id rev_rev_ident by (rule sym)
  have b: "CHR ''/'' \<notin> set ?b" by (auto dest: set_takeWhileD)
  have d: "d = [] \<or> (\<exists>d'. d = d' @ [CHR ''/''])"
  proof (cases "dropWhile (\<lambda>c. c \<noteq> CHR ''/'') (rev s)")
    case (Cons x xs)
    then have "x = CHR ''/''" by (simp add: dropWhile_eq_Cons_conv)
    with Cons show ?thesis by (auto simp: d_def)
  qed (simp add: d_def)
  have l: "last (split_on (CHR ''/'') d) = []"
    using d split_on_snoc [of "[]"] by (auto simp: last_split_append)
  have sp: "split_on (CHR ''/'') s = butlast (split_on (CHR ''/'') d) @ [?b]"
    using last_split_append [OF b, of d] s l by simp
  show "split_on (CHR ''/'') d = butlast (split_on (CHR ''/'') s) @ [[]]"
    using l sp by (metis append_butlast_last_id butlast_snoc split_on_nonempty)
  show "has_prefix d ''/'' = (butlast (split_on (CHR ''/'') s) \<noteq> [] \<and> has_prefix s ''/'')"
  proof (cases "d = []")
    case True
    then have "butlast (split_on (CHR ''/'') s) = []" using sp by simp
    with True show ?thesis by (simp add: has_prefix_def)
  next
    case False
    with d obtain d' where d': "d = d' @ [CHR ''/'']" by auto
    then have "butlast (split_on (CHR ''/'') s) = split_on (CHR ''/'') d'"
      using sp split_on_snoc [of "[]" d'] by simp
    moreover have "has_prefix d ''/'' = has_prefix s ''/''"
    proof -
      have "has_prefix (d' @ ''/'') ''/'' = has_prefix ((d' @ ''/'') @ b') ''/''" for b'
        by (cases d') (auto simp: has_prefix_def)
      from this [of ?b] d' s show ?thesis by simp
    qed
    ultimately show ?thesis by simp
  qed
qed

lemma fold_path_step_snoc: "plain_segment c \<Longrightarrow> fold path_step (cs @ [c]) p = fold path_step cs p @ [c]"
  by (simp add: path_step_def plain_segment_def)

text \<open>For such a string the directory and the name are what the words say.\<close>

lemma resolve_names_entry:
  assumes "names_entry s"
  defines "b \<equiv> last (split_on (CHR ''/'') s)"
  shows "resolve cwd s = dir_of cwd s @ [b]"
    and "CHR ''/'' \<notin> set t \<Longrightarrow> plain_segment (b @ t) \<Longrightarrow> resolve cwd (s @ t) = dir_of cwd s @ [b @ t]"
proof -
  let ?sp = "split_on (CHR ''/'')"
  let ?d = "rev (dropWhile (\<lambda>c. c \<noteq> CHR ''/'') (rev s))"
  have b: "plain_segment b" using assms by (simp add: names_entry_def)
  have one: "has_prefix (s @ t) ''/'' \<longleftrightarrow> has_prefix s ''/''" for t
  proof -
    have "s \<noteq> []" using b b_def by (auto simp: plain_segment_def)
    then show ?thesis by (cases s) (auto simp: has_prefix_def)
  qed
  have rooted: "has_prefix ?d ''/'' \<longleftrightarrow> has_prefix s ''/''"
  proof -
    have "butlast (?sp s) \<noteq> []" if r: "has_prefix s ''/''"
    proof
      assume e: "butlast (?sp s) = []"
      then have "?sp s = [b]" by (metis append_Nil append_butlast_last_id b_def split_on_nonempty)
      then have "s = b" by (metis join_split join_with.simps(2))
      with b r show False by (cases s) (auto simp: plain_segment_def has_prefix_def)
    qed
    then show ?thesis using split_dir_part(2) [of s] by blast
  qed
  have dir: "dir_of cwd s = fold path_step (butlast (?sp s)) (if has_prefix s ''/'' then [] else cwd)"
    using split_dir_part(1) [of s] rooted
    by (simp add: dir_of_def resolve_def join_path_def path_step_def)
  have "?sp s = butlast (?sp s) @ [b]" by (simp add: b_def)
  then have "fold path_step (?sp s) q = fold path_step (butlast (?sp s)) q @ [b]" for q
    using fold_path_step_snoc [OF b, of "butlast (?sp s)" q] by simp
  then show "resolve cwd s = dir_of cwd s @ [b]"
    using dir by (simp add: resolve_def join_path_def)
  assume t: "CHR ''/'' \<notin> set t" and bt: "plain_segment (b @ t)"
  show "resolve cwd (s @ t) = dir_of cwd s @ [b @ t]"
    using last_split_append [OF t, of s] fold_path_step_snoc [OF bt] dir
    by (simp add: resolve_def join_path_def one b_def)
qed

section \<open>Clean strings\<close>

definition clean_stack :: "string list \<Rightarrow> bool" where
  "clean_stack p \<longleftrightarrow> (\<exists>k r. p = replicate k ''..'' @ r \<and> list_all plain_segment r)"

lemma clean_stack_elem:
  assumes "clean_stack p" and "x \<in> set p"
  shows "x \<noteq> []" and "CHR ''/'' \<notin> set x"
proof -
  from assms have "x = ''..'' \<or> plain_segment x"
    by (auto simp: clean_stack_def list_all_iff)
  then show "x \<noteq> []" and "CHR ''/'' \<notin> set x" by (auto simp: plain_segment_def)
qed

lemma clean_step_stack:
  assumes "clean_stack p" and "CHR ''/'' \<notin> set c"
  shows "clean_stack (clean_step False c p)"
proof -
  from assms obtain k r where p: "p = replicate k ''..'' @ r" and r: "list_all plain_segment r"
    by (auto simp: clean_stack_def)
  consider (skip) "c = [] \<or> c = ''.''" | (up) "c = ''..''" | (name) "plain_segment c"
    using assms(2) by (auto simp: plain_segment_def)
  then show ?thesis
  proof cases
    case skip
    with assms(1) show ?thesis by (auto simp: clean_step_def)
  next
    case name
    with p r show ?thesis
      unfolding clean_stack_def by (intro exI [of _ k] exI [of _ "r @ [c]"])
        (auto simp: clean_step_def plain_segment_def)
  next
    case up
    show ?thesis
    proof (cases "r = []")
      case True
      then have "clean_step False c p = replicate (Suc k) ''..'' @ []"
        using up p True by (cases k) (auto simp: clean_step_def replicate_append_same)
      then show ?thesis unfolding clean_stack_def by (metis list.pred_inject(1))
    next
      case False
      then have "last p \<noteq> ''..''" using p r by (auto simp: list_all_iff plain_segment_def)
      with False up p r have "clean_step False c p = replicate k ''..'' @ butlast r"
        by (simp add: clean_step_def butlast_append)
      moreover have "list_all plain_segment (butlast r)"
        using r by (auto simp: list_all_iff dest: in_set_butlastD)
      ultimately show ?thesis unfolding clean_stack_def by blast
    qed
  qed
qed

lemma fold_clean_stack:
  "clean_stack p \<Longrightarrow> (\<And>c. c \<in> set cs \<Longrightarrow> CHR ''/'' \<notin> set c) \<Longrightarrow> clean_stack (fold (clean_step False) cs p)"
  by (induction cs arbitrary: p) (auto intro: clean_step_stack)

lemma join_with_nonempty: "xs \<noteq> [] \<Longrightarrow> hd xs \<noteq> [] \<Longrightarrow> join_with sep xs \<noteq> []"
  by (induction sep xs rule: join_with.induct) auto

lemma fold_clean_plain:
  "list_all plain_segment cs \<Longrightarrow> fold (clean_step b) cs p = p @ cs"
  by (induction cs arbitrary: p) (auto simp: clean_step_def plain_segment_def)

text \<open>A string whose first component names an entry is clean exactly when all of them do.\<close>

lemma path_Clean_iff:
  assumes "plain_segment (hd (split_on (CHR ''/'') s))"
  shows "path_Clean s = s \<longleftrightarrow> list_all plain_segment (split_on (CHR ''/'') s)"
proof -
  let ?cs = "split_on (CHR ''/'') s"
  let ?f = "fold (clean_step False) ?cs []"
  have rel: "\<not> has_prefix s ''/''"
  proof
    assume "has_prefix s ''/''"
    then have "hd ?cs = []" by (cases s) (auto simp: has_prefix_def)
    with assms show False by (simp add: plain_segment_def)
  qed
  show ?thesis
  proof
    assume c: "path_Clean s = s"
    have "clean_stack []" unfolding clean_stack_def by (rule exI [of _ 0]) simp
    then have st: "clean_stack ?f"
      using fold_clean_stack [of "[]" ?cs] split_on_no_sep by auto
    have ne: "?f \<noteq> []"
    proof
      assume "?f = []"
      with c rel have "s = ''.''" by (simp add: path_Clean_def Let_def)
      then show False using assms by (simp add: plain_segment_def)
    qed
    note sep = clean_stack_elem(2) [OF st]
    have f1: "join_with ''/'' ?f \<noteq> []"
    proof -
      from clean_stack_elem(1) [OF st] hd_in_set [OF ne] have "hd ?f \<noteq> []" by blast
      with ne show ?thesis by (rule join_with_nonempty)
    qed
    then have "join_with ''/'' ?f = s" using c rel by (simp add: path_Clean_def Let_def)
    with split_join [OF ne sep] have "?f = ?cs" by simp
    moreover from st obtain k r where kr: "?f = replicate k ''..'' @ r" and r: "list_all plain_segment r"
      by (auto simp: clean_stack_def)
    moreover have "k = 0"
    proof (rule ccontr)
      assume "k \<noteq> 0"
      then have "hd ?f = ''..''" unfolding kr by (cases k) simp_all
      with \<open>?f = ?cs\<close> assms show False by (simp add: plain_segment_def)
    qed
    ultimately show "list_all plain_segment ?cs" using r by simp
  next
    assume "list_all plain_segment ?cs"
    then have "?f = ?cs" using fold_clean_plain [of ?cs] by simp
    moreover have "s \<noteq> []" using assms by (auto simp: plain_segment_def)
    ultimately show "path_Clean s = s" using rel by (simp add: path_Clean_def Let_def)
  qed
qed

end
