(* ===== verification/Go_Crypto.thy ===== *)
theory Go_Crypto
  imports Go_Json_Rules "HOL-Library.Word"
begin

text \<open>
  The cryptographic functions of Go's standard library the backup uses, written from their
  standards on byte strings: SHA-256 (FIPS 180-4), HMAC (RFC 2104), the AES block cipher with a
  256-bit key (FIPS 197) and Galois/counter mode with a 96-bit nonce (SP 800-38D). The one fact about their strength the development uses
  is that a ciphertext opens exactly when it is what sealing gives.
\<close>

unbundle bit_operations_syntax

section \<open>Bytes and words\<close>

definition byte_of :: "char \<Rightarrow> 8 word" where
  "byte_of c = of_nat (code c)"

definition char_byte :: "8 word \<Rightarrow> char" where
  "char_byte b = char_of (unat b)"

definition xor_char :: "char \<Rightarrow> char \<Rightarrow> char" where
  "xor_char c d = char_byte (byte_of c XOR byte_of d)"

definition xor_bytes :: "string \<Rightarrow> string \<Rightarrow> string" where
  "xor_bytes a b = map2 xor_char a b"

text \<open>\<open>encoding/binary\<close>'s big-endian order: the bytes of a number, and back.\<close>

fun be_bytes :: "nat \<Rightarrow> nat \<Rightarrow> string" where
  "be_bytes 0 n = []"
| "be_bytes (Suc k) n = be_bytes k (n div 256) @ [char_of (n mod 256)]"

definition be_value :: "string \<Rightarrow> nat" where
  "be_value s = foldl (\<lambda>v c. 256 * v + code c) 0 s"

text \<open>The pieces of length \<open>k\<close> of a string, the last one possibly shorter.\<close>

function chunks :: "nat \<Rightarrow> string \<Rightarrow> string list" where
  "chunks k s = (if s = [] \<or> k = 0 then [] else take k s # chunks k (drop k s))"
  by auto
termination
  by (relation "measure (\<lambda>(k, s). length s)") auto

declare chunks.simps [simp del]

definition unhex :: "string \<Rightarrow> string" where
  "unhex s = map (\<lambda>p. char_of (foldl (\<lambda>v c. 16 * v + (case hex_val c of Some d \<Rightarrow> d | None \<Rightarrow> 0)) 0 p)) (chunks 2 s)"

lemma char_byte_of [simp]: "char_byte (byte_of c) = c"
proof -
  have "unat (byte_of c) = code c"
    using code_less_256 [of c] by (simp add: byte_of_def unat_of_nat)
  then show ?thesis by (simp add: char_byte_def)
qed

lemma byte_of_char_byte [simp]: "byte_of (char_byte b) = b"
proof -
  have "unat b < 256" using unsigned_less [of b] by simp
  then show ?thesis by (simp add: byte_of_def char_byte_def code_char_of)
qed

lemma xor_char_cancel [simp]: "xor_char (xor_char a k) k = a"
  by (simp add: xor_char_def xor.assoc)

lemma length_xor_bytes [simp]: "length (xor_bytes a b) = min (length a) (length b)"
  by (simp add: xor_bytes_def)

lemma xor_bytes_cancel: "length a \<le> length k \<Longrightarrow> xor_bytes (xor_bytes a k) k = a"
proof (induction a arbitrary: k)
  case (Cons x a)
  then show ?case by (cases k) (auto simp: xor_bytes_def)
qed (simp add: xor_bytes_def)

lemma length_be_bytes [simp]: "length (be_bytes k n) = k"
  by (induction k arbitrary: n) auto

section \<open>SHA-256\<close>

text \<open>The round constants, eight words of eight hexadecimal digits to a row.\<close>

definition sha_k :: "32 word list" where
  "sha_k = map (\<lambda>c. of_nat (be_value c)) (chunks 4 (unhex (concat
     [''428a2f9871374491b5c0fbcfe9b5dba53956c25b59f111f1923f82a4ab1c5ed5'',
      ''d807aa9812835b01243185be550c7dc372be5d7480deb1fe9bdc06a7c19bf174'',
      ''e49b69c1efbe47860fc19dc6240ca1cc2de92c6f4a7484aa5cb0a9dc76f988da'',
      ''983e5152a831c66db00327c8bf597fc7c6e00bf3d5a7914706ca635114292967'',
      ''27b70a852e1b21384d2c6dfc53380d13650a7354766a0abb81c2c92e92722c85'',
      ''a2bfe8a1a81a664bc24b8b70c76c51a3d192e819d6990624f40e3585106aa070'',
      ''19a4c1161e376c082748774c34b0bcb5391c0cb34ed8aa4a5b9cca4f682e6ff3'',
      ''748f82ee78a5636f84c878148cc7020890befffaa4506cebbef9a3f7c67178f2''])))"

definition sha_init :: "32 word list" where
  "sha_init =
     [0x6a09e667, 0xbb67ae85, 0x3c6ef372, 0xa54ff53a, 0x510e527f, 0x9b05688c,
      0x1f83d9ab, 0x5be0cd19]"

definition sha_pad :: "string \<Rightarrow> string" where
  "sha_pad s =
     s @ [CHR 0x80] @ replicate ((119 - length s mod 64) mod 64) (CHR 0x00) @ be_bytes 8 (8 * length s)"

definition sha_expand :: "32 word list \<Rightarrow> 32 word list" where
  "sha_expand ws =
     (let n = length ws; a = ws ! (n - 15); b = ws ! (n - 2) in
      ws @ [ws ! (n - 16) + (word_rotr 7 a XOR word_rotr 18 a XOR drop_bit 3 a) + ws ! (n - 7)
            + (word_rotr 17 b XOR word_rotr 19 b XOR drop_bit 10 b)])"

definition sha_schedule :: "string \<Rightarrow> 32 word list" where
  "sha_schedule blk = (sha_expand ^^ 48) (map (\<lambda>c. of_nat (be_value c)) (chunks 4 blk))"

fun sha_round :: "32 word \<times> 32 word \<Rightarrow> 32 word list \<Rightarrow> 32 word list" where
  "sha_round (k, w) [a, b, c, d, e, f, g, h] =
     (let t1 = h + (word_rotr 6 e XOR word_rotr 11 e XOR word_rotr 25 e)
             + ((e AND f) XOR (NOT e AND g)) + k + w;
          t2 = (word_rotr 2 a XOR word_rotr 13 a XOR word_rotr 22 a)
             + ((a AND b) XOR (a AND c) XOR (b AND c))
      in [t1 + t2, a, b, c, d + t1, e, f, g])"
| "sha_round _ st = st"

definition sha_block :: "string \<Rightarrow> 32 word list \<Rightarrow> 32 word list" where
  "sha_block blk st = map2 (+) st (fold sha_round (zip sha_k (sha_schedule blk)) st)"

text \<open>\<open>sha256.Sum256\<close>\<close>

definition sha256 :: "string \<Rightarrow> string" where
  "sha256 s = concat (map (\<lambda>w. be_bytes 4 (unat w)) (fold sha_block (chunks 64 (sha_pad s)) sha_init))"

lemma length_sha_round: "length (sha_round kw st) = length st"
  by (cases "(kw, st)" rule: sha_round.cases) (auto simp: Let_def)

lemma length_sha_block: "length (sha_block blk st) = length st"
proof -
  have "length (fold sha_round kws st) = length st" for kws
    by (induction kws arbitrary: st) (auto simp: length_sha_round)
  then show ?thesis by (simp add: sha_block_def)
qed

lemma length_sha256 [simp]: "length (sha256 s) = 32"
proof -
  have "length (fold sha_block bs st) = length st" for bs st
    by (induction bs arbitrary: st) (auto simp: length_sha_block)
  moreover have "length (concat (map (\<lambda>w. be_bytes 4 (unat w)) ws)) = 4 * length ws" for ws :: "32 word list"
    by (induction ws) auto
  ultimately show ?thesis by (simp add: sha256_def sha_init_def)
qed

section \<open>HMAC with SHA-256\<close>

definition hmac_key :: "string \<Rightarrow> string" where
  "hmac_key k = (let k' = if 64 < length k then sha256 k else k in k' @ replicate (64 - length k') (CHR 0x00))"

text \<open>\<open>hmac.New(sha256.New, key)\<close>, \<open>Write(msg)\<close>, \<open>Sum(nil)\<close>\<close>

definition hmac_sha256 :: "string \<Rightarrow> string \<Rightarrow> string" where
  "hmac_sha256 k msg =
     sha256 (map (xor_char (CHR 0x5C)) (hmac_key k) @
       sha256 (map (xor_char (CHR 0x36)) (hmac_key k) @ msg))"

lemma length_hmac [simp]: "length (hmac_sha256 k msg) = 32"
  by (simp add: hmac_sha256_def)

section \<open>AES with a 256-bit key\<close>

definition aes_sbox :: "8 word list" where
  "aes_sbox =
     [99, 124, 119, 123, 242, 107, 111, 197, 48, 1, 103, 43, 254, 215, 171, 118,
      202, 130, 201, 125, 250, 89, 71, 240, 173, 212, 162, 175, 156, 164, 114, 192,
      183, 253, 147, 38, 54, 63, 247, 204, 52, 165, 229, 241, 113, 216, 49, 21,
      4, 199, 35, 195, 24, 150, 5, 154, 7, 18, 128, 226, 235, 39, 178, 117,
      9, 131, 44, 26, 27, 110, 90, 160, 82, 59, 214, 179, 41, 227, 47, 132,
      83, 209, 0, 237, 32, 252, 177, 91, 106, 203, 190, 57, 74, 76, 88, 207,
      208, 239, 170, 251, 67, 77, 51, 133, 69, 249, 2, 127, 80, 60, 159, 168,
      81, 163, 64, 143, 146, 157, 56, 245, 188, 182, 218, 33, 16, 255, 243, 210,
      205, 12, 19, 236, 95, 151, 68, 23, 196, 167, 126, 61, 100, 93, 25, 115,
      96, 129, 79, 220, 34, 42, 144, 136, 70, 238, 184, 20, 222, 94, 11, 219,
      224, 50, 58, 10, 73, 6, 36, 92, 194, 211, 172, 98, 145, 149, 228, 121,
      231, 200, 55, 109, 141, 213, 78, 169, 108, 86, 244, 234, 101, 122, 174, 8,
      186, 120, 37, 46, 28, 166, 180, 198, 232, 221, 116, 31, 75, 189, 139, 138,
      112, 62, 181, 102, 72, 3, 246, 14, 97, 53, 87, 185, 134, 193, 29, 158,
      225, 248, 152, 17, 105, 217, 142, 148, 155, 30, 135, 233, 206, 85, 40, 223,
      140, 161, 137, 13, 191, 230, 66, 104, 65, 153, 45, 15, 176, 84, 187, 22]"

definition sub_byte :: "8 word \<Rightarrow> 8 word" where
  "sub_byte b = aes_sbox ! unat b"

definition xtime :: "8 word \<Rightarrow> 8 word" where
  "xtime b = push_bit 1 b XOR (if bit b 7 then 0x1B else 0)"

text \<open>The four-byte words of the expanded key: the eight of the key and fifty-two derived ones.\<close>

definition key_step :: "8 word list list \<Rightarrow> 8 word list list" where
  "key_step ws =
     (let n = length ws; t = last ws;
          t' = (if n mod 8 = 0 then
                  map2 (XOR) (map sub_byte (rotate1 t)) [push_bit (n div 8 - 1) 1, 0, 0, 0]
                else if n mod 8 = 4 then map sub_byte t
                else t)
      in ws @ [map2 (XOR) (ws ! (n - 8)) t'])"

definition expand_key :: "string \<Rightarrow> 8 word list list" where
  "expand_key k = (key_step ^^ 52) (map (map byte_of) (chunks 4 k))"

text \<open>The state is the list of its sixteen bytes, column by column.\<close>

definition shift_rows :: "8 word list \<Rightarrow> 8 word list" where
  "shift_rows s = map (nth s) [0, 5, 10, 15, 4, 9, 14, 3, 8, 13, 2, 7, 12, 1, 6, 11]"

fun mix_columns :: "8 word list \<Rightarrow> 8 word list" where
  "mix_columns (a # b # c # d # r) =
     [xtime a XOR xtime b XOR b XOR c XOR d, a XOR xtime b XOR xtime c XOR c XOR d,
      a XOR b XOR xtime c XOR xtime d XOR d, xtime a XOR a XOR b XOR c XOR xtime d] @ mix_columns r"
| "mix_columns s = []"

definition round_key :: "8 word list list \<Rightarrow> nat \<Rightarrow> 8 word list" where
  "round_key ws i = concat (take 4 (drop (4 * i) ws))"

definition aes_round :: "8 word list list \<Rightarrow> nat \<Rightarrow> 8 word list \<Rightarrow> 8 word list" where
  "aes_round ws i s = map2 (XOR) (mix_columns (shift_rows (map sub_byte s))) (round_key ws i)"

definition aes_block :: "8 word list list \<Rightarrow> string \<Rightarrow> string" where
  "aes_block ws blk =
     (let s0 = map2 (XOR) (map byte_of blk) (round_key ws 0);
          s13 = fold (aes_round ws) [1..<14] s0
      in map char_byte (map2 (XOR) (shift_rows (map sub_byte s13)) (round_key ws 14)))"

definition aes256 :: "string \<Rightarrow> string \<Rightarrow> string" where
  "aes256 k blk = aes_block (expand_key k) blk"

section \<open>Galois/counter mode\<close>

text \<open>Blocks as 128-bit numbers whose bit 127 is the coefficient of 1; \<open>gf_mult\<close> multiplies
  in GF(2^128).\<close>

type_synonym block = "128 word"

definition block_of :: "string \<Rightarrow> block" where
  "block_of s = of_nat (be_value (s @ replicate (16 - length s) (CHR 0x00)))"

definition block_bytes :: "block \<Rightarrow> string" where
  "block_bytes b = be_bytes 16 (unat b)"

fun gf_steps :: "nat \<Rightarrow> block \<Rightarrow> block \<Rightarrow> block \<Rightarrow> block" where
  "gf_steps 0 x v z = z"
| "gf_steps (Suc n) x v z =
     gf_steps n x
       (drop_bit 1 v XOR (if bit v 0 then 0xE1000000000000000000000000000000 else 0))
       (if bit x n then z XOR v else z)"

definition gf_mult :: "block \<Rightarrow> block \<Rightarrow> block" where
  "gf_mult x y = gf_steps 128 x y 0"

definition ghash :: "block \<Rightarrow> block list \<Rightarrow> block" where
  "ghash h xs = foldl (\<lambda>y x. gf_mult (y XOR x) h) 0 xs"

text \<open>The counter block of a 96-bit nonce, the key stream from counter 2 on, and the tag.\<close>

definition counter_block :: "string \<Rightarrow> nat \<Rightarrow> string" where
  "counter_block nonce i = nonce @ be_bytes 4 (i mod 2 ^ 32)"

definition gcm_stream :: "string \<Rightarrow> string \<Rightarrow> nat \<Rightarrow> string" where
  "gcm_stream key nonce n =
     (let ks = expand_key key in
      concat (map (\<lambda>i. take 16 (aes_block ks (counter_block nonce (i + 2)) @ replicate 16 (CHR 0x00)))
        [0..<(n + 15) div 16]))"

definition gcm_tag :: "string \<Rightarrow> string \<Rightarrow> string \<Rightarrow> string \<Rightarrow> string" where
  "gcm_tag key nonce aad c =
     (let ks = expand_key key;
          h = block_of (aes_block ks (replicate 16 (CHR 0x00)));
          s = ghash h (map block_of (chunks 16 aad) @ map block_of (chunks 16 c) @
                [block_of (be_bytes 8 (8 * length aad) @ be_bytes 8 (8 * length c))])
      in block_bytes (s XOR block_of (aes_block ks (counter_block nonce 1))))"

text \<open>\<open>gcm.Seal\<close>, and \<open>gcm.Open\<close> of a ciphertext with its tag of sixteen bytes at
  the end.\<close>

definition gcm_seal :: "string \<Rightarrow> string \<Rightarrow> string \<Rightarrow> string \<Rightarrow> string" where
  "gcm_seal key nonce plain aad =
     (let c = xor_bytes plain (gcm_stream key nonce (length plain)) in c @ gcm_tag key nonce aad c)"

definition gcm_open :: "string \<Rightarrow> string \<Rightarrow> string \<Rightarrow> string \<Rightarrow> string option" where
  "gcm_open key nonce sealed aad =
     (if length sealed < 16 then None
      else
        let n = length sealed - 16; c = take n sealed in
        if drop n sealed = gcm_tag key nonce aad c
        then Some (xor_bytes c (gcm_stream key nonce n)) else None)"

lemma length_gcm_tag [simp]: "length (gcm_tag key nonce aad c) = 16"
  by (simp add: gcm_tag_def block_bytes_def Let_def)

lemma length_gcm_stream: "n \<le> length (gcm_stream key nonce n)"
proof -
  have "length (concat (map (\<lambda>i. take 16 (f i @ replicate 16 (CHR 0x00))) [0..<m])) = 16 * m"
    for f :: "nat \<Rightarrow> string" and m
    by (induction m) auto
  then show ?thesis by (simp add: gcm_stream_def Let_def)
qed

lemma length_gcm_seal [simp]: "length (gcm_seal key nonce plain aad) = length plain + 16"
  using length_gcm_stream [of "length plain" key nonce] by (simp add: gcm_seal_def Let_def)

lemma xor_stream_cancel:
  "length p = n \<Longrightarrow> xor_bytes (xor_bytes p (gcm_stream key nonce n)) (gcm_stream key nonce n) = p"
  using length_gcm_stream [of n key nonce] by (simp add: xor_bytes_cancel)

text \<open>A sealed text opens to its plain text, and nothing else opens.\<close>

lemma gcm_open_iff: "gcm_open key nonce sealed aad = Some p \<longleftrightarrow> sealed = gcm_seal key nonce p aad"
proof
  assume o: "gcm_open key nonce sealed aad = Some p"
  let ?n = "length sealed - 16"
  have len: "16 \<le> length sealed" using o by (simp add: gcm_open_def split: if_splits)
  from o have tag: "drop ?n sealed = gcm_tag key nonce aad (take ?n sealed)"
    and p: "p = xor_bytes (take ?n sealed) (gcm_stream key nonce ?n)"
    by (auto simp: gcm_open_def Let_def split: if_splits)
  have lp: "length p = ?n" using p length_gcm_stream [of ?n key nonce] by simp
  have "xor_bytes p (gcm_stream key nonce ?n) = take ?n sealed"
    unfolding p by (rule xor_stream_cancel) simp
  then have "gcm_seal key nonce p aad = take ?n sealed @ drop ?n sealed"
    unfolding gcm_seal_def Let_def lp tag by simp
  then show "sealed = gcm_seal key nonce p aad" by simp
next
  assume s: "sealed = gcm_seal key nonce p aad"
  let ?c = "xor_bytes p (gcm_stream key nonce (length p))"
  have "length ?c = length p" using length_gcm_stream [of "length p" key nonce] by simp
  moreover from this have "sealed = ?c @ gcm_tag key nonce aad ?c" by (simp add: s gcm_seal_def Let_def)
  ultimately show "gcm_open key nonce sealed aad = Some p"
    by (simp add: gcm_open_def Let_def xor_stream_cancel)
qed

end
