(* ===== verification/Backup_Cipher.thy ===== *)
theory Backup_Cipher
  imports Go_Crypto Os_Rules
begin

text \<open>
  The sealed form of a backup, internal/backup/backup.go: the key derivation \<open>pbkdf2\<close>,
  \<open>encrypt\<close> and \<open>decrypt\<close>. An artifact is the magic line, a salt, a nonce and the
  sealed archive; the magic line is authenticated with it.
\<close>

section \<open>Constants\<close>

definition magic :: string where
  "magic = ''CERTARIUM-BACKUP-V1'' @ [CHR 0x0A]"

definition maxBackupSize :: nat where
  "maxBackupSize = 268435456"

definition kdfIterations :: nat where
  "kdfIterations = 200000"

section \<open>Key derivation\<close>

text \<open>The loop over \<open>i\<close> from 1, on the current \<open>u\<close> and the sum \<open>t\<close>; both have
  the length of the hash.\<close>

fun pbkdf2_iterate :: "string \<Rightarrow> nat \<Rightarrow> string \<times> string \<Rightarrow> string \<times> string" where
  "pbkdf2_iterate password 0 ut = ut"
| "pbkdf2_iterate password (Suc n) (u, t) =
     (let u' = hmac_sha256 password u in pbkdf2_iterate password n (u', xor_bytes t u'))"

definition pbkdf2_block :: "string \<Rightarrow> string \<Rightarrow> nat \<Rightarrow> 32 word \<Rightarrow> string" where
  "pbkdf2_block password salt iterations block =
     (let u = hmac_sha256 password (salt @ be_bytes 4 (unat block))
      in snd (pbkdf2_iterate password (iterations - 1) (u, u)))"

lemma length_pbkdf2_iterate:
  "length t = 32 \<Longrightarrow> length (snd (pbkdf2_iterate password n (u, t))) = 32"
  by (induction n arbitrary: u t) (simp_all add: Let_def)

lemma length_pbkdf2_block [simp]: "length (pbkdf2_block password salt iterations block) = 32"
  by (simp add: pbkdf2_block_def length_pbkdf2_iterate Let_def)

text \<open>The loop over the blocks ends because each block adds thirty-two bytes.\<close>

function pbkdf2_blocks :: "string \<Rightarrow> string \<Rightarrow> nat \<Rightarrow> nat \<Rightarrow> 32 word \<Rightarrow> string \<Rightarrow> string" where
  "pbkdf2_blocks password salt iterations n block result =
     (if length result < n then
        pbkdf2_blocks password salt iterations n (block + 1)
          (result @ pbkdf2_block password salt iterations block)
      else result)"
  by auto
termination
  by (relation "measure (\<lambda>(password, salt, iterations, n, block, result). n - length result)") auto

declare pbkdf2_blocks.simps [simp del]

definition pbkdf2 :: "string \<Rightarrow> string \<Rightarrow> nat \<Rightarrow> nat \<Rightarrow> string" where
  "pbkdf2 password salt iterations n = take n (pbkdf2_blocks password salt iterations n 1 [])"

section \<open>Sealing and opening\<close>

text \<open>\<open>crypto/rand.Read\<close> of \<open>n\<close> bytes.\<close>

definition rand_read :: "nat \<Rightarrow> string io" where
  "rand_read n = syscall (\<lambda>_. throwE (ErrText ''crypto/rand: failed to read random data''))
     (\<lambda>w. (Inr (map (\<lambda>i. char_of (rand w i mod 256)) [0..<n]), w\<lparr>rand := (\<lambda>i. rand w (n + i))\<rparr>))"

text \<open>\<open>aes.NewCipher\<close> for the one key size used here; \<open>cipher.NewGCM\<close> of an AES block does not
  fail, its nonce size is 12.\<close>

definition aes_NewCipher :: "string \<Rightarrow> err + string" where
  "aes_NewCipher key =
     (if length key = 32 then Inr key
      else Inl (ErrText (''crypto/aes: invalid key size '' @ dec (length key))))"

definition encrypt :: "string \<Rightarrow> string \<Rightarrow> string io" where
  "encrypt plain password =
     bindE (rand_read 16) (\<lambda>salt.
     bindE (liftE (aes_NewCipher (pbkdf2 password salt kdfIterations 32))) (\<lambda>gcm.
     bindE (rand_read 12) (\<lambda>nonce.
     let result = (magic @ salt) @ nonce in
     returnE (result @ gcm_seal gcm nonce plain magic))))"

definition decrypt :: "string \<Rightarrow> string \<Rightarrow> err + string" where
  "decrypt data password =
     (let minimum = length magic + 16 + 12 + 16 in
      if length data < minimum \<or> take (length magic) data \<noteq> magic then
        Inl (ErrText ''backup format is invalid'')
      else
        let salt = take 16 (drop (length magic) data);
            nonce = take 12 (drop (length magic + 16) data);
            ciphertext = drop (length magic + 28) data in
        case aes_NewCipher (pbkdf2 password salt kdfIterations 32) of
          Inl e \<Rightarrow> Inl e
        | Inr gcm \<Rightarrow> (case gcm_open gcm nonce ciphertext magic of
            None \<Rightarrow> Inl (ErrText ''backup password is wrong or artifact is corrupt'')
          | Some plain \<Rightarrow> Inr plain))"

section \<open>The reference of the key derivation\<close>

text \<open>RFC 8018, section 5.2: \<open>U\<close> and \<open>F\<close> for the pseudorandom function HMAC-SHA-256.\<close>

fun rfc_U :: "string \<Rightarrow> string \<Rightarrow> nat \<Rightarrow> nat \<Rightarrow> string" where
  "rfc_U P S i 0 = hmac_sha256 P (S @ be_bytes 4 i)"
| "rfc_U P S i (Suc j) = hmac_sha256 P (rfc_U P S i j)"

definition rfc_F :: "string \<Rightarrow> string \<Rightarrow> nat \<Rightarrow> nat \<Rightarrow> string" where
  "rfc_F P S c i = foldl xor_bytes (rfc_U P S i 0) (map (rfc_U P S i) [1..<c])"

definition rfc_pbkdf2 :: "string \<Rightarrow> string \<Rightarrow> nat \<Rightarrow> nat \<Rightarrow> string" where
  "rfc_pbkdf2 P S c dkLen =
     take dkLen (concat (map (rfc_F P S c) [1..<Suc ((dkLen + 31) div 32)]))"

lemma pbkdf2_iterate_U:
  "pbkdf2_iterate P n (rfc_U P S i j, t) =
     (rfc_U P S i (j + n), foldl xor_bytes t (map (rfc_U P S i) [Suc j..<Suc (j + n)]))"
proof (induction n arbitrary: j t)
  case (Suc n)
  have "map (rfc_U P S i) [Suc j..<Suc (j + Suc n)] =
      rfc_U P S i (Suc j) # map (rfc_U P S i) [Suc (Suc j)..<Suc (Suc j + n)]"
    by (subst upt_conv_Cons) auto
  with Suc [of "Suc j"] show ?case by (simp add: Let_def del: upt_Suc)
qed simp

lemma pbkdf2_block_F:
  assumes "unat block = i"
  shows "pbkdf2_block P S c block = rfc_F P S c i"
proof -
  have e: "[Suc 0..<Suc (c - Suc 0)] = [Suc 0..<c]" by (cases c) auto
  show ?thesis
    using pbkdf2_iterate_U [of P "c - 1" S i 0 "rfc_U P S i 0"] assms
    by (simp add: pbkdf2_block_def rfc_F_def Let_def e del: upt_Suc)
qed

lemma pbkdf2_blocks_F:
  assumes "length result = 32 * k" and "k + m = (n + 31) div 32" and "n \<le> 32 * (2 ^ 32 - 1)"
    and "block = of_nat (Suc k)"
  shows "pbkdf2_blocks P S c n block result =
    result @ concat (map (rfc_F P S c) [Suc k..<Suc (k + m)])"
  using assms
proof (induction m arbitrary: k block result)
  case 0
  then have "\<not> length result < n" by simp
  then show ?case by (simp add: pbkdf2_blocks.simps)
next
  case (Suc m)
  then have less: "length result < n" by simp
  have "Suc k < 2 ^ 32" using Suc.prems(2,3) by simp
  then have "unat block = Suc k" using Suc.prems(4) by (simp add: unat_of_nat del: of_nat_Suc)
  then have b: "pbkdf2_block P S c block = rfc_F P S c (Suc k)" by (rule pbkdf2_block_F)
  then have l: "length (rfc_F P S c (Suc k)) = 32" by (metis length_pbkdf2_block)
  have "[Suc k..<Suc (k + Suc m)] = Suc k # [Suc (Suc k)..<Suc (Suc k + m)]"
    by (subst upt_conv_Cons) auto
  moreover have "pbkdf2_blocks P S c n (block + 1) (result @ rfc_F P S c (Suc k)) =
      (result @ rfc_F P S c (Suc k)) @ concat (map (rfc_F P S c) [Suc (Suc k)..<Suc (Suc k + m)])"
    by (rule Suc.IH) (use Suc.prems l in simp_all)
  ultimately show ?case
    using less b by (subst pbkdf2_blocks.simps) (simp del: upt_Suc)
qed

lemma pbkdf2_eq:
  assumes "n \<le> 32 * (2 ^ 32 - 1)"
  shows "pbkdf2 P S c n = rfc_pbkdf2 P S c n"
  using pbkdf2_blocks_F [of "[]" 0 "(n + 31) div 32" n 1 P S c] assms
  by (simp add: pbkdf2_def rfc_pbkdf2_def del: upt_Suc)

lemma length_pbkdf2 [simp]: "length (pbkdf2 P S c n) = n"
proof -
  have "n \<le> length (pbkdf2_blocks P S c n b r)" for b r
    by (induction P S c n b r rule: pbkdf2_blocks.induct) (subst pbkdf2_blocks.simps, auto)
  then show ?thesis by (simp add: pbkdf2_def)
qed

text \<open>The derived key is the one RFC 8018 defines for HMAC-SHA-256, of exactly the length asked
  for, as long as the 32-bit block counter does not wrap around.\<close>

theorem pbkdf2_is_the_standard:
  assumes "n \<le> 32 * (2 ^ 32 - 1)"
  shows "pbkdf2 password salt c n = rfc_pbkdf2 password salt c n \<and> length (pbkdf2 password salt c n) = n"
  by (intro conjI pbkdf2_eq length_pbkdf2 assms)

theorem pbkdf2_is_the_standard_witness:
  "pbkdf2 ''password'' ''salt'' 200000 40 = rfc_pbkdf2 ''password'' ''salt'' 200000 40 \<and>
   length (pbkdf2 ''password'' ''salt'' 200000 40) = 40"
  by (rule pbkdf2_is_the_standard) simp

section \<open>What an artifact is\<close>

text \<open>The artifact a salt and a nonce give.\<close>

definition artifact :: "string \<Rightarrow> string \<Rightarrow> string \<Rightarrow> string \<Rightarrow> string" where
  "artifact password salt nonce plain =
     magic @ salt @ nonce @ gcm_seal (pbkdf2 password salt kdfIterations 32) nonce plain magic"

definition sealed_with :: "string \<Rightarrow> string \<Rightarrow> string \<Rightarrow> bool" where
  "sealed_with password plain data \<longleftrightarrow>
     (\<exists>salt nonce. length salt = 16 \<and> length nonce = 12 \<and> data = artifact password salt nonce plain)"

lemma length_magic: "length magic = 20"
  by (simp add: magic_def)

lemma length_artifact:
  "length salt = 16 \<Longrightarrow> length nonce = 12 \<Longrightarrow> length (artifact password salt nonce plain) = length plain + 64"
  by (simp add: artifact_def length_magic)

lemma aes_key_ok [simp]: "aes_NewCipher (pbkdf2 P S c 32) = Inr (pbkdf2 P S c 32)"
  by (simp add: aes_NewCipher_def)

lemma decrypt_artifact:
  assumes "length salt = 16" and "length nonce = 12"
  shows "decrypt (artifact password salt nonce plain) password = Inr plain"
proof -
  let ?c = "gcm_seal (pbkdf2 password salt kdfIterations 32) nonce plain magic"
  let ?a = "artifact password salt nonce plain"
  have s: "take (length magic) ?a = magic" "take 16 (drop (length magic) ?a) = salt"
    "take 12 (drop (length magic + 16) ?a) = nonce" "drop (length magic + 28) ?a = ?c"
    using assms by (simp_all add: artifact_def)
  have o: "gcm_open (pbkdf2 password salt kdfIterations 32) nonce ?c magic = Some plain"
    by (simp add: gcm_open_iff)
  have l: "\<not> length ?a < length magic + 16 + 12 + 16"
    using length_artifact [OF assms, of password plain] by (simp add: length_magic)
  show ?thesis
    unfolding decrypt_def Let_def s by (simp only: l aes_key_ok o simp_thms if_False sum.case option.case)
qed

lemma split_three: "s = take a s @ take b (drop a s) @ take c (drop (a + b) s) @ drop (a + b + c) s"
  by (metis append_take_drop_id drop_drop add.commute)

lemma decrypt_Inr: "decrypt data password = Inr plain \<longleftrightarrow> sealed_with password plain data"
proof
  assume d: "decrypt data password = Inr plain"
  let ?salt = "take 16 (drop (length magic) data)"
  let ?nonce = "take 12 (drop (length magic + 16) data)"
  let ?c = "drop (length magic + 28) data"
  have len: "length magic + 44 \<le> length data" and m: "take (length magic) data = magic"
    using d by (auto simp: decrypt_def Let_def split: if_splits)
  have "gcm_open (pbkdf2 password ?salt kdfIterations 32) ?nonce ?c magic = Some plain"
    using d by (simp add: decrypt_def Let_def split: if_splits option.splits)
  then have c: "?c = gcm_seal (pbkdf2 password ?salt kdfIterations 32) ?nonce plain magic"
    by (simp add: gcm_open_iff)
  have "data = take (length magic) data @ ?salt @ ?nonce @ ?c"
    using split_three [of data "length magic" 16 12] by (simp add: add.assoc)
  then have "data = artifact password ?salt ?nonce plain"
    unfolding artifact_def using m c by metis
  moreover have "length ?salt = 16" "length ?nonce = 12" using len by auto
  ultimately show "sealed_with password plain data" unfolding sealed_with_def by blast
qed (auto simp: sealed_with_def decrypt_artifact)

lemma rand_read_Inr: "rand_read n w = (Inr s, w') \<Longrightarrow> length s = n \<and> files w' = files w"
  unfolding rand_read_def by (erule syscall_cases) auto

lemma rand_read_files: "rand_read n w = (r, w') \<Longrightarrow> files w' = files w"
  unfolding rand_read_def by (erule syscall_cases) auto

lemma changes_rand_read [footprint]: "changes A (rand_read n)"
  by (simp add: changes_def) (metis rand_read_files surjective_pairing)

lemma changes_encrypt [footprint]: "changes A (encrypt plain password)"
  unfolding encrypt_def Let_def by (intro footprint)

lemma encrypt_Inr:
  assumes "encrypt plain password w = (Inr data, w')"
  shows "sealed_with password plain data" and "files w' = files w"
proof -
  from assms obtain salt w1 nonce w2 where r1: "rand_read 16 w = (Inr salt, w1)"
    and r2: "rand_read 12 w1 = (Inr nonce, w2)" and w': "w' = w2"
    and data: "data = artifact password salt nonce plain"
    by (auto simp: encrypt_def bindE_Inr artifact_def Let_def)
  from rand_read_Inr [OF r1] rand_read_Inr [OF r2] data
  show "sealed_with password plain data" unfolding sealed_with_def by blast
  from rand_read_Inr [OF r1] rand_read_Inr [OF r2] w' show "files w' = files w" by simp
qed

text \<open>Without input/output errors \<open>encrypt\<close> succeeds.\<close>

lemma rand_read_total:
  "faults w = [] \<Longrightarrow> \<exists>s w'. rand_read n w = (Inr s, w') \<and> faults w' = []"
  by (simp add: rand_read_def syscall_def)

lemma encrypt_total:
  assumes "faults w = []"
  shows "\<exists>data w'. encrypt plain password w = (Inr data, w') \<and> faults w' = []"
proof -
  from rand_read_total [OF assms] obtain salt w1 where r1: "rand_read 16 w = (Inr salt, w1)" "faults w1 = []"
    by blast
  from rand_read_total [OF r1(2)] obtain nonce w2 where r2: "rand_read 12 w1 = (Inr nonce, w2)" "faults w2 = []"
    by blast
  from r1(1) r2 show ?thesis by (simp add: encrypt_def bindE_def liftE_def returnE_def Let_def)
qed

text \<open>C38. \<open>decrypt\<close> accepts exactly the artifacts that a salt and a nonce of the right lengths give
  for the password, and returns the sealed archive: what \<open>encrypt\<close> made opens to its input, and
  an artifact changed in any byte is refused unless it is another such artifact.\<close>

theorem backup_cipher_round_trip:
  "(decrypt data password = Inr plain \<longleftrightarrow> sealed_with password plain data) \<and>
   (encrypt plain password w = (Inr data, w') \<longrightarrow>
      decrypt data password = Inr plain \<and> length data = length plain + 64)"
  using encrypt_Inr(1) [of plain password w data w'] length_artifact
  by (auto simp: decrypt_Inr sealed_with_def)

theorem backup_cipher_round_trip_witness:
  "\<exists>data w'. encrypt ''archive'' ''secret'' \<lparr>files = [], faults = [], rand = (\<lambda>i. i), umask = 0\<rparr> = (Inr data, w') \<and>
     decrypt data ''secret'' = Inr ''archive'' \<and> length data = 71"
proof -
  let ?w = "\<lparr>files = [], faults = [], rand = (\<lambda>i. i), umask = 0\<rparr> :: world"
  have "faults ?w = []" by simp
  from encrypt_total [OF this] obtain data w' where e: "encrypt ''archive'' ''secret'' ?w = (Inr data, w')"
    by blast
  from backup_cipher_round_trip [of data "''secret''" "''archive''" ?w w'] e show ?thesis by auto
qed

end
