(* ===== verification/Backup_Archive.thy ===== *)
theory Backup_Archive
  imports Go_Path Go_Time Backup_Cipher "HOL-Library.AList"
begin

text \<open>
  The archive inside a backup, internal/backup/backup.go: the entries, the manifest with its JSON
  form, \<open>safeArchivePath\<close>, \<open>makeArchive\<close> and \<open>readArchive\<close>. The tar format
  and the parsing of a time are the standard library's: the parameter \<open>codec\<close>.
\<close>

section \<open>Data\<close>

record manifest =
  Version :: int
  CreatedAt :: instant
  Files :: "(string \<times> string) list"

record entry =
  entry_name :: string
  entry_mode :: mode
  entry_data :: string

text \<open>The fields of a \<open>tar.Header\<close> the code sets or looks at.\<close>

record tar_header =
  hdr_Name :: string
  hdr_Mode :: int
  hdr_Size :: int
  hdr_Typeflag :: char

definition TypeReg :: char where
  "TypeReg = CHR ''0''"

text \<open>
  \<open>tar_written\<close>: the buffer after \<open>WriteHeader\<close> and \<open>Write\<close> of these entries;
  \<open>tar_closed\<close>: after \<open>Close\<close>. \<open>tar_entries\<close>: what the calls of \<open>Next\<close>
  return on some bytes, each with the content of the entry and the error reading it ends in, if any,
  and the error after the last entry, \<open>None\<close> for \<open>io.EOF\<close>. \<open>parse_time\<close>:
  \<open>time.Time.UnmarshalJSON\<close>.
\<close>

record codec =
  tar_written :: "(tar_header \<times> string) list \<Rightarrow> err + string"
  tar_closed :: "(tar_header \<times> string) list \<Rightarrow> err + string"
  tar_entries :: "string \<Rightarrow> (tar_header \<times> string \<times> err option) list \<times> err option"
  parse_time :: "string \<Rightarrow> instant option"

section \<open>The manifest\<close>

definition encode_manifest :: "manifest \<Rightarrow> json" where
  "encode_manifest m = JObj
     [(''version'', JNum (itoa (Version m))), (''created_at'', JStr (rfc3339_nano (CreatedAt m))),
      (''files'', JObj (map (\<lambda>(k, v). (k, JStr v)) (sort_key fst (Files m))))]"

definition set_file :: "string \<Rightarrow> json \<Rightarrow> (string \<times> string) list \<Rightarrow> (string \<times> string) list option" where
  "set_file k v fs =
     (case v of JNull \<Rightarrow> Some (AList.update k [] fs) | JStr s \<Rightarrow> Some (AList.update k s fs) | _ \<Rightarrow> None)"

definition set_manifest_field :: "codec \<Rightarrow> string \<Rightarrow> json \<Rightarrow> manifest \<Rightarrow> manifest option" where
  "set_manifest_field cd k v m =
     (if field_matches k ''version'' then
        (case v of
           JNull \<Rightarrow> Some m
         | JNum l \<Rightarrow> map_option (\<lambda>i. m\<lparr>Version := i\<rparr>) (parse_int64 l)
         | _ \<Rightarrow> None)
      else if field_matches k ''created_at'' then
        (case v of
           JNull \<Rightarrow> Some m
         | JStr s \<Rightarrow> map_option (\<lambda>t. m\<lparr>CreatedAt := t\<rparr>) (parse_time cd s)
         | _ \<Rightarrow> None)
      else if field_matches k ''files'' then
        (case v of
           JNull \<Rightarrow> Some (m\<lparr>Files := []\<rparr>)
         | JObj ms \<Rightarrow> map_option (\<lambda>fs. m\<lparr>Files := fs\<rparr>) (decode_members set_file ms (Files m))
         | _ \<Rightarrow> None)
      else Some m)"

definition decode_manifest :: "codec \<Rightarrow> string \<Rightarrow> manifest option" where
  "decode_manifest cd data =
     (case json_parse data of
        None \<Rightarrow> None
      | Some j \<Rightarrow> decode_struct (set_manifest_field cd) \<lparr>Version = 0, CreatedAt = 0, Files = []\<rparr> j)"

text \<open>\<open>json.Marshal(value)\<close>: a year outside four digits is an error.\<close>

definition marshal_manifest :: "manifest \<Rightarrow> err + string" where
  "marshal_manifest m =
     (if year (CreatedAt m) < 0 \<or> 9999 < year (CreatedAt m) then
        Inl (ErrText ''json: error calling MarshalJSON for type time.Time: Time.MarshalJSON: year outside of range [0,9999]'')
      else Inr (json_marshal (encode_manifest m)))"

section \<open>Paths in the archive\<close>

definition safeArchivePath :: "string \<Rightarrow> bool" where
  "safeArchivePath name =
     (if name = [] \<or> has_prefix name ''/'' \<or> path_Clean name \<noteq> name then False
      else if name = ''manifest.json'' then True
      else has_prefix name ''data/'' \<or> has_prefix name ''config/'')"

section \<open>Writing\<close>

definition hex_digest :: "string \<Rightarrow> string" where
  "hex_digest d = concat (map hex_byte (sha256 d))"

definition file_header :: "entry \<Rightarrow> tar_header" where
  "file_header f =
     \<lparr>hdr_Name = entry_name f, hdr_Mode = uint (entry_mode f AND mode_0777),
      hdr_Size = int (length (entry_data f)), hdr_Typeflag = TypeReg\<rparr>"

definition tar_item :: "entry \<Rightarrow> tar_header \<times> string" where
  "tar_item f = (file_header f, entry_data f)"

fun write_entries :: "codec \<Rightarrow> entry list \<Rightarrow> entry list \<Rightarrow> err + string" where
  "write_entries cd done [] = tar_closed cd (map tar_item done)"
| "write_entries cd done (f # fs) =
     (case tar_written cd (map tar_item (done @ [f])) of
        Inl e \<Rightarrow> Inl e
      | Inr buffer \<Rightarrow>
          if maxBackupSize < length buffer then Inl (ErrText ''backup exceeds size limit'')
          else write_entries cd (done @ [f]) fs)"

definition makeArchive :: "codec \<Rightarrow> instant \<Rightarrow> entry list \<Rightarrow> err + string" where
  "makeArchive cd now entries =
     (let value = \<lparr>Version = 1, CreatedAt = now,
            Files = fold (\<lambda>f fs. AList.update (entry_name f) (hex_digest (entry_data f)) fs) entries []\<rparr> in
      case marshal_manifest value of
        Inl e \<Rightarrow> Inl e
      | Inr manifestData \<Rightarrow>
          let all = entries @ [\<lparr>entry_name = ''manifest.json'', entry_mode = mode_0600, entry_data = manifestData\<rparr>]
          in write_entries cd [] (sort_key entry_name all))"

section \<open>Reading\<close>

text \<open>The loop over the archive: the files so far, the manifest and whether it was seen. Of an entry,
  \<open>maxBackupSize + 1\<close> bytes are read at most.\<close>

fun read_entries ::
    "codec \<Rightarrow> (tar_header \<times> string \<times> err option) list \<Rightarrow> err option \<Rightarrow>
     entry list \<Rightarrow> manifest \<Rightarrow> bool \<Rightarrow> err + entry list \<times> manifest \<times> bool" where
  "read_entries cd [] end found expected seen =
     (case end of
        None \<Rightarrow> Inr (found, expected, seen)
      | Some e \<Rightarrow> Inl (Wrap ''read backup archive: '' e []))"
| "read_entries cd ((h, data, rerr) # items) end found expected seen =
     (if hdr_Typeflag h \<noteq> TypeReg \<or> \<not> safeArchivePath (hdr_Name h) \<or> hdr_Size h < 0
         \<or> int maxBackupSize < hdr_Size h then
        Inl (ErrText ''backup contains unsafe archive entry'')
      else if rerr \<noteq> None \<or> maxBackupSize < length data then
        Inl (ErrText ''backup archive entry exceeds limit'')
      else if list_ex (\<lambda>f. entry_name f = hdr_Name h) found \<or> hdr_Name h = ''manifest.json'' \<and> seen then
        Inl (ErrText ''backup contains duplicate entry'')
      else if hdr_Name h = ''manifest.json'' then
        (case decode_manifest cd data of
           None \<Rightarrow> Inl (ErrText ''backup manifest is invalid'')
         | Some m \<Rightarrow>
             if Version m \<noteq> 1 then Inl (ErrText ''backup manifest is invalid'')
             else read_entries cd items end found m True)
      else
        read_entries cd items end
          (found @ [\<lparr>entry_name = hdr_Name h, entry_mode = of_int (hdr_Mode h) AND mode_0777, entry_data = data\<rparr>])
          expected seen)"

text \<open>The entries are checked in the unspecified order of a map; every mismatch gives the same error,
  and the result is sorted.\<close>

definition digest_matches :: "manifest \<Rightarrow> entry \<Rightarrow> bool" where
  "digest_matches m f \<longleftrightarrow>
     (case map_of (Files m) (entry_name f) of None \<Rightarrow> [] | Some d \<Rightarrow> d) = hex_digest (entry_data f)"

definition readArchive :: "codec \<Rightarrow> string \<Rightarrow> err + entry list" where
  "readArchive cd plain =
     (case tar_entries cd plain of (items, end) \<Rightarrow>
      case read_entries cd items end [] \<lparr>Version = 0, CreatedAt = 0, Files = []\<rparr> False of
        Inl e \<Rightarrow> Inl e
      | Inr (found, expected, manifestSeen) \<Rightarrow>
          if \<not> manifestSeen \<or> length found \<noteq> length (Files expected) then
            Inl (ErrText ''backup manifest does not match archive'')
          else if \<not> list_all (digest_matches expected) found then
            Inl (ErrText ''backup file hash mismatch'')
          else Inr (sort_key entry_name found))"

section \<open>Safe paths\<close>

text \<open>The shape of a file's path: below one of the two directories, every component an entry name.\<close>

definition archive_file :: "string \<Rightarrow> bool" where
  "archive_file name \<longleftrightarrow>
     (\<exists>tp segs. (tp = ''data'' \<or> tp = ''config'') \<and> segs \<noteq> [] \<and> list_all plain_segment segs \<and>
        name = join_with ''/'' (tp # segs))"

lemma has_prefix_top:
  assumes "CHR ''/'' \<notin> set tp"
  shows "has_prefix name (tp @ ''/'') \<longleftrightarrow>
    (\<exists>segs. segs \<noteq> [] \<and> split_on (CHR ''/'') name = tp # segs)"
proof
  assume "has_prefix name (tp @ ''/'')"
  then obtain r where "name = tp @ CHR ''/'' # r" by (auto simp: has_prefix_iff prefix_def)
  with split_on_append_sep [OF assms] show "\<exists>segs. segs \<noteq> [] \<and> split_on (CHR ''/'') name = tp # segs"
    by simp
next
  assume "\<exists>segs. segs \<noteq> [] \<and> split_on (CHR ''/'') name = tp # segs"
  then obtain s segs where "split_on (CHR ''/'') name = tp # s # segs" by (metis neq_Nil_conv)
  then have "name = tp @ ''/'' @ join_with ''/'' (s # segs)"
    using join_split [of "CHR ''/''" name] by simp
  then show "has_prefix name (tp @ ''/'')" by (simp add: has_prefix_iff)
qed

lemma safeArchivePath_iff: "safeArchivePath name \<longleftrightarrow> name = ''manifest.json'' \<or> archive_file name"
proof (cases "name = ''manifest.json''")
  case True
  have "safeArchivePath ''manifest.json''" by code_simp
  with True show ?thesis by simp
next
  case False
  have tp: "CHR ''/'' \<notin> set ''data''" "CHR ''/'' \<notin> set ''config''" by simp_all
  have p: "plain_segment ''data''" "plain_segment ''config''" by (simp_all add: plain_segment_def)
  have pre: "has_prefix name ''data/'' \<or> has_prefix name ''config/'' \<longleftrightarrow>
    (\<exists>tp segs. (tp = ''data'' \<or> tp = ''config'') \<and> segs \<noteq> [] \<and> split_on (CHR ''/'') name = tp # segs)"
    using has_prefix_top [OF tp(1), of name] has_prefix_top [OF tp(2), of name] by auto
  show ?thesis
  proof
    assume s: "safeArchivePath name"
    with False pre obtain tp segs where t: "tp = ''data'' \<or> tp = ''config''" and ne: "segs \<noteq> []"
      and sp: "split_on (CHR ''/'') name = tp # segs"
      by (auto simp: safeArchivePath_def split: if_splits)
    have "plain_segment (hd (split_on (CHR ''/'') name))" using t p sp by auto
    moreover have "path_Clean name = name" using s by (auto simp: safeArchivePath_def split: if_splits)
    ultimately have "list_all plain_segment segs" using path_Clean_iff [of name] sp by simp
    moreover have "name = join_with ''/'' (tp # segs)" using join_split [of "CHR ''/''" name] sp by simp
    ultimately show "name = ''manifest.json'' \<or> archive_file name"
      unfolding archive_file_def using t ne by blast
  next
    assume "name = ''manifest.json'' \<or> archive_file name"
    with False obtain tp segs where t: "tp = ''data'' \<or> tp = ''config''" and ne: "segs \<noteq> []"
      and all: "list_all plain_segment segs" and name: "name = join_with ''/'' (tp # segs)"
      by (auto simp: archive_file_def)
    have "plain_segment x" if "x \<in> set (tp # segs)" for x
      using that t p all by (auto simp: list_all_iff)
    then have "CHR ''/'' \<notin> set x" if "x \<in> set (tp # segs)" for x
      using that unfolding plain_segment_def by blast
    then have sp: "split_on (CHR ''/'') name = tp # segs" unfolding name by (intro split_join) auto
    have "path_Clean name = name"
      using path_Clean_iff [of name] sp t p all by auto
    moreover have "has_prefix name ''data/'' \<or> has_prefix name ''config/''"
      using pre t ne sp by blast
    moreover have "name \<noteq> []" and "\<not> has_prefix name ''/''"
      using t ne unfolding name by (cases segs; auto simp: has_prefix_def)+
    ultimately show "safeArchivePath name" by (simp add: safeArchivePath_def)
  qed
qed

text \<open>C40. \<open>safeArchivePath\<close> accepts the manifest's name and exactly the relative paths below
  \<open>data\<close> or \<open>config\<close> whose further components all name entries: none is empty, a dot or
  a dot-dot.\<close>

theorem safe_paths_stay_inside:
  "safeArchivePath name \<longleftrightarrow> name = ''manifest.json'' \<or> archive_file name"
  by (rule safeArchivePath_iff)

section \<open>What is accepted\<close>

text \<open>The entry \<open>f\<close> is one of the regular files of the archive, read to its end.\<close>

definition from_item :: "(tar_header \<times> string \<times> err option) list \<Rightarrow> entry \<Rightarrow> bool" where
  "from_item items f \<longleftrightarrow>
     (\<exists>h. (h, entry_data f, None) \<in> set items \<and> hdr_Typeflag h = TypeReg \<and> hdr_Name h = entry_name f \<and>
        entry_mode f = of_int (hdr_Mode h) AND mode_0777) \<and>
     archive_file (entry_name f) \<and> length (entry_data f) \<le> maxBackupSize"

definition manifest_item :: "codec \<Rightarrow> (tar_header \<times> string \<times> err option) list \<Rightarrow> manifest \<Rightarrow> bool" where
  "manifest_item cd items m \<longleftrightarrow>
     (\<exists>h d. (h, d, None) \<in> set items \<and> hdr_Name h = ''manifest.json'' \<and> decode_manifest cd d = Some m \<and>
        Version m = 1)"

lemma from_item_Cons: "from_item items f \<Longrightarrow> from_item (x # items) f"
  by (auto simp: from_item_def)

lemma manifest_item_Cons: "manifest_item cd items m \<Longrightarrow> manifest_item cd (x # items) m"
  by (auto simp: manifest_item_def)

lemma read_entries_sound:
  assumes "read_entries cd items end found m seen = Inr (found', m', seen')"
  shows "(\<forall>f \<in> set found'. f \<in> set found \<or> from_item items f) \<and>
    (distinct (map entry_name found) \<longrightarrow> distinct (map entry_name found')) \<and>
    (seen' \<longrightarrow> seen \<and> m' = m \<or> manifest_item cd items m') \<and> end = None"
  using assms
proof (induction cd items "end" found m seen rule: read_entries.induct)
  case (1 cd fin found expected seen)
  then show ?case by (auto split: option.splits)
next
  case (2 cd h data rerr items fin found expected seen)
  have ok: "hdr_Typeflag h = TypeReg" "safeArchivePath (hdr_Name h)" "rerr = None" "length data \<le> maxBackupSize"
    "\<not> list_ex (\<lambda>f. entry_name f = hdr_Name h) found" "\<not> (hdr_Name h = ''manifest.json'' \<and> seen)"
    using "2.prems" by (auto split: if_splits)
  show ?case
  proof (cases "hdr_Name h = ''manifest.json''")
    case True
    with "2.prems" ok obtain m where m: "decode_manifest cd data = Some m" "Version m = 1"
      and rd: "read_entries cd items fin found m True = Inr (found', m', seen')"
      by (auto split: if_splits option.splits)
    have "manifest_item cd ((h, data, rerr) # items) m"
      using True m ok(3) by (auto simp: manifest_item_def)
    moreover have "(\<forall>f \<in> set found'. f \<in> set found \<or> from_item items f) \<and>
      (distinct (map entry_name found) \<longrightarrow> distinct (map entry_name found')) \<and>
      (seen' \<longrightarrow> True \<and> m' = m \<or> manifest_item cd items m') \<and> fin = None"
      by (rule "2.IH"(1) [OF _ _ _ True m(1) _ rd]) (use "2.prems" ok m in \<open>auto split: if_splits\<close>)
    ultimately show ?thesis by (auto intro: from_item_Cons manifest_item_Cons)
  next
    case False
    let ?f = "\<lparr>entry_name = hdr_Name h, entry_mode = of_int (hdr_Mode h) AND mode_0777, entry_data = data\<rparr>"
    from "2.prems" ok False
    have rd: "read_entries cd items fin (found @ [?f]) expected seen = Inr (found', m', seen')"
      by (auto split: if_splits)
    have IH: "(\<forall>f \<in> set found'. f \<in> set (found @ [?f]) \<or> from_item items f) \<and>
      (distinct (map entry_name (found @ [?f])) \<longrightarrow> distinct (map entry_name found')) \<and>
      (seen' \<longrightarrow> seen \<and> m' = expected \<or> manifest_item cd items m') \<and> fin = None"
      by (rule "2.IH"(2) [OF _ _ _ False rd]) (use "2.prems" ok in \<open>auto split: if_splits\<close>)
    have "from_item ((h, data, rerr) # items) ?f"
      using ok False safeArchivePath_iff [of "hdr_Name h"] by (auto simp: from_item_def)
    moreover have "distinct (map entry_name found) \<longrightarrow> distinct (map entry_name (found @ [?f]))"
      using ok(5) by (auto simp: list_ex_iff)
    ultimately show ?thesis using IH by (auto intro: from_item_Cons manifest_item_Cons)
  qed
qed

lemma decode_members_distinct:
  "decode_members set_file ms fs = Some fs' \<Longrightarrow> distinct (map fst fs) \<Longrightarrow> distinct (map fst fs')"
  by (induction set_file ms fs rule: decode_members.induct)
    (auto simp: set_file_def distinct_update split: option.splits json.splits)

lemma decode_manifest_distinct:
  assumes "decode_manifest cd d = Some m"
  shows "distinct (map fst (Files m))"
proof -
  have field: "distinct (map fst (Files b))" if "set_manifest_field cd k v a = Some b" and "distinct (map fst (Files a))"
    for k v a b
    using that
    by (auto simp: set_manifest_field_def split: if_splits json.splits dest: decode_members_distinct)
  have "decode_members (set_manifest_field cd) ms a = Some b \<Longrightarrow> distinct (map fst (Files a)) \<Longrightarrow>
      distinct (map fst (Files b))" for ms a b
    by (induction "set_manifest_field cd" ms a rule: decode_members.induct)
      (auto split: option.splits dest: field)
  with assms show ?thesis
    by (auto simp: decode_manifest_def decode_struct_def split: option.splits json.splits)
qed

lemma distinct_map_mset: "mset xs = mset ys \<Longrightarrow> distinct (map k xs) = distinct (map k ys)"
  by (metis mset_map mset_eq_imp_distinct_iff)

text \<open>The entries and the manifest list the same files with the same digests.\<close>

definition listed :: "manifest \<Rightarrow> entry list \<Rightarrow> bool" where
  "listed m es \<longleftrightarrow>
     (\<forall>name d. map_of (Files m) name = Some d \<longleftrightarrow>
        (\<exists>f \<in> set es. entry_name f = name \<and> d = hex_digest (entry_data f)))"

lemma hex_digest_nonempty: "hex_digest d \<noteq> []"
proof -
  have "length (concat (map hex_byte s)) = 2 * length s" for s
    by (induction s) (simp_all add: hex_byte_def)
  then have "length (hex_digest d) = 64" by (simp add: hex_digest_def)
  then show ?thesis by auto
qed

lemma digests_listed:
  assumes "list_all (digest_matches m) es" and "length es = length (Files m)"
    and d: "distinct (map entry_name es)" "distinct (map fst (Files m))"
  shows "listed m es"
proof -
  have each: "map_of (Files m) (entry_name f) = Some (hex_digest (entry_data f))" if "f \<in> set es" for f
  proof -
    have "digest_matches m f" using assms(1) that by (simp add: list_all_iff)
    then show ?thesis
      using hex_digest_nonempty [of "entry_data f"]
      by (cases "map_of (Files m) (entry_name f)") (simp_all add: digest_matches_def)
  qed
  have "set (map entry_name es) \<subseteq> set (map fst (Files m))"
  proof
    fix n assume "n \<in> set (map entry_name es)"
    then obtain f where "f \<in> set es" "n = entry_name f" by auto
    with each have "map_of (Files m) n = Some (hex_digest (entry_data f))" by simp
    from map_of_SomeD [OF this] show "n \<in> set (map fst (Files m))" by force
  qed
  moreover have "card (set (map entry_name es)) = card (set (map fst (Files m)))"
    using d assms(2) by (metis distinct_card length_map)
  ultimately have same: "set (map entry_name es) = set (map fst (Files m))"
    by (intro card_subset_eq) auto
  show ?thesis
    unfolding listed_def
  proof (intro allI iffI)
    fix name x assume n: "map_of (Files m) name = Some x"
    then have "name \<in> set (map fst (Files m))" by (metis map_of_SomeD fst_conv image_eqI set_map)
    then obtain f where "f \<in> set es" "entry_name f = name" unfolding same [symmetric] by auto
    with each [of f] n show "\<exists>f \<in> set es. entry_name f = name \<and> x = hex_digest (entry_data f)" by auto
  next
    fix name x assume "\<exists>f \<in> set es. entry_name f = name \<and> x = hex_digest (entry_data f)"
    with each show "map_of (Files m) name = Some x" by auto
  qed
qed

lemma listed_set: "set es = set es' \<Longrightarrow> listed m es = listed m es'"
  by (simp add: listed_def)

lemma readArchive_Inr:
  assumes "readArchive cd plain = Inr es"
  shows "(\<forall>f \<in> set es. from_item (fst (tar_entries cd plain)) f)"
    and "distinct (map entry_name es)" and "sorted (map entry_name es)"
    and "\<exists>m. manifest_item cd (fst (tar_entries cd plain)) m \<and> listed m es"
    and "snd (tar_entries cd plain) = None"
proof -
  obtain items fin where t: "tar_entries cd plain = (items, fin)" by force
  from assms t obtain found m where
    rd: "read_entries cd items fin [] \<lparr>Version = 0, CreatedAt = 0, Files = []\<rparr> False = Inr (found, m, True)"
    and len: "length found = length (Files m)" and dig: "list_all (digest_matches m) found"
    and es: "es = sort_key entry_name found"
    by (auto simp: readArchive_def split: sum.splits if_splits)
  note snd = read_entries_sound [OF rd, simplified]
  have mi: "manifest_item cd items m" using snd by simp
  then have dm: "distinct (map fst (Files m))"
    by (auto simp: manifest_item_def dest: decode_manifest_distinct)
  show "\<forall>f \<in> set es. from_item (fst (tar_entries cd plain)) f" using snd t es by simp
  show "snd (tar_entries cd plain) = None" using snd t by simp
  show "distinct (map entry_name es)" using snd by (simp add: es distinct_map_mset [OF mset_sort])
  show "sorted (map entry_name es)" by (simp add: es)
  have "listed m found" using digests_listed [OF dig len _ dm] snd by simp
  then have "listed m es" using listed_set [of es found] es by simp
  with mi t show "\<exists>m. manifest_item cd (fst (tar_entries cd plain)) m \<and> listed m es" by auto
qed

end
