(* ===== verification/Backup_Trip.thy ===== *)
theory Backup_Trip
  imports Backup_Archive
begin

text \<open>
  The round trip of an archive: what \<open>makeArchive\<close> writes \<open>readArchive\<close> gives back,
  sorted, for any codec that reads back what it wrote.
\<close>

section \<open>What is relied on\<close>

text \<open>Headers of regular files with a proper name, as the code makes them; the tar package reads such
  entries back, and its buffer holds the data written.\<close>

definition plain_header :: "tar_header \<Rightarrow> string \<Rightarrow> bool" where
  "plain_header h d \<longleftrightarrow>
     hdr_Typeflag h = TypeReg \<and> hdr_Size h = int (length d) \<and> 0 \<le> hdr_Mode h \<and> hdr_Mode h \<le> 511 \<and>
     hdr_Name h \<noteq> [] \<and> utf8_valid (hdr_Name h) \<and> CHR 0x00 \<notin> set (hdr_Name h) \<and> \<not> has_suffix (hdr_Name h) ''/''"

definition tar_faithful :: "codec \<Rightarrow> bool" where
  "tar_faithful cd \<longleftrightarrow>
     (\<forall>items b. list_all (\<lambda>(h, d). plain_header h d) items \<longrightarrow>
        (tar_written cd items = Inr b \<longrightarrow> list_all (\<lambda>(h, d). length d \<le> length b) items) \<and>
        (tar_closed cd items = Inr b \<longrightarrow> tar_entries cd b = (map (\<lambda>(h, d). (h, d, None)) items, None)))"

text \<open>A file the archive can carry: a safe path that is a proper text.\<close>

definition archivable :: "entry \<Rightarrow> bool" where
  "archivable f \<longleftrightarrow> archive_file (entry_name f) \<and> utf8_valid (entry_name f) \<and> CHR 0x00 \<notin> set (entry_name f)"

definition masked :: "entry \<Rightarrow> entry" where
  "masked f = f\<lparr>entry_mode := entry_mode f AND mode_0777\<rparr>"

section \<open>Names and headers\<close>

lemma archive_file_props:
  assumes "archive_file name"
  shows "name \<noteq> ''manifest.json''" and "name \<noteq> []" and "\<not> has_suffix name ''/''"
proof -
  from assms obtain tp segs where ne: "segs \<noteq> []" and pl: "list_all plain_segment segs"
    and name: "name = join_with ''/'' (tp # segs)"
    by (auto simp: archive_file_def)
  have j: "join_with ''/'' (x # xs @ [y]) = join_with ''/'' (x # xs) @ ''/'' @ y" for x y :: string and xs
  proof (induction xs arbitrary: x)
    case (Cons z xs)
    then show ?case by (cases xs) auto
  qed simp
  have "segs = butlast segs @ [last segs]" using ne by simp
  then have n: "name = join_with ''/'' (tp # butlast segs) @ ''/'' @ last segs"
    unfolding name by (metis j)
  have l: "plain_segment (last segs)" using ne pl by (simp add: list_all_iff)
  show "name \<noteq> []" using n by simp
  have "CHR ''/'' \<in> set name" using n by simp
  then show "name \<noteq> ''manifest.json''" by auto
  from l have "last name = last (last segs)" "last segs \<noteq> []" using n by (auto simp: plain_segment_def)
  then have "last name \<noteq> CHR ''/''" using l by (metis last_in_set plain_segment_def)
  then show "\<not> has_suffix name ''/''" by (auto simp: has_suffix_iff suffix_def)
qed

lemma manifest_name_ok: "utf8_valid ''manifest.json''"
  by (rule utf8_valid_ascii) (simp add: code_def)

lemma mode_mask: "of_int (uint (m AND mode_0777)) AND mode_0777 = m AND (mode_0777 :: mode)"
  by (simp add: and.assoc)

lemma mode_bound: "uint (m AND (mode_0777 :: mode)) \<le> 511"
proof -
  have "m AND mode_0777 \<le> (mode_0777 :: mode)" by (rule word_and_le1)
  then have "uint (m AND mode_0777) \<le> uint (mode_0777 :: mode)" by (simp only: word_le_def)
  then show ?thesis by simp
qed

lemma file_header_plain:
  "archivable f \<or> entry_name f = ''manifest.json'' \<Longrightarrow> plain_header (file_header f) (entry_data f)"
  using archive_file_props [of "entry_name f"] mode_bound [of "entry_mode f"] manifest_name_ok
  by (auto simp: plain_header_def file_header_def archivable_def has_suffix_def)

section \<open>The manifest reads back\<close>

lemma set_files:
  "distinct (map fst (acc @ fs)) \<Longrightarrow>
     decode_members set_file (map (\<lambda>(k, v). (k, JStr v)) fs) acc = Some (acc @ fs)"
proof (induction fs arbitrary: acc)
  case (Cons x fs)
  obtain k v where x: "x = (k, v)" by (cases x)
  have "k \<notin> set (map fst acc)" using Cons.prems x by auto
  then have "AList.update k v acc = acc @ [(k, v)]" by (induction acc) auto
  with Cons.IH [of "acc @ [(k, v)]"] Cons.prems x show ?case by (simp add: set_file_def)
qed simp

lemma members_ok_files:
  "list_all (\<lambda>(k, v). utf8_valid k \<and> utf8_valid v) fs \<Longrightarrow> members_ok (map (\<lambda>(k, v). (k, JStr v)) fs)"
  by (induction fs) auto

lemma decode_encode_manifest:
  assumes t: "parse_time cd (rfc3339_nano (CreatedAt m)) = Some t"
    and fs: "distinct (map fst (Files m))" "list_all (\<lambda>(k, v). utf8_valid k \<and> utf8_valid v) (Files m)"
    and v: "Version m = 1"
  shows "decode_manifest cd (json_marshal (encode_manifest m)) =
    Some \<lparr>Version = 1, CreatedAt = t, Files = sort_key fst (Files m)\<rparr>"
proof -
  have "utf8_valid ''version''" "utf8_valid ''created_at''" "utf8_valid ''files''"
    by (rule utf8_valid_ascii, simp add: code_def)+
  moreover have "list_all (\<lambda>(k, v). utf8_valid k \<and> utf8_valid v) (sort_key fst (Files m))"
    using fs(2) by (simp add: list_all_iff)
  ultimately have "json_ok (encode_manifest m)"
    using members_ok_files by (auto simp: encode_manifest_def rfc3339_utf8)
  from json_parse_marshal [OF this, of "[]"]
  have p: "json_parse (json_marshal (encode_manifest m)) = Some (encode_manifest m)" by simp
  have "distinct (map fst (sort_key fst (Files m)))"
    using fs(1) by (simp add: distinct_map)
  then have f: "decode_members set_file (map (\<lambda>(k, v). (k, JStr v)) (sort_key fst (Files m))) [] =
      Some (sort_key fst (Files m))"
    using set_files [of "[]"] by simp
  have m: "field_matches ''version'' ''version''" "\<not> field_matches ''created_at'' ''version''"
    "field_matches ''created_at'' ''created_at''" "\<not> field_matches ''files'' ''version''"
    "\<not> field_matches ''files'' ''created_at''" "field_matches ''files'' ''files''"
    by (simp_all add: field_matches_def is_lower_def code_def)
  show ?thesis
    unfolding decode_manifest_def p
    using v by (simp add: decode_struct_def encode_manifest_def set_manifest_field_def m t f parse_int64_itoa)
qed

lemma fold_update_files:
  "distinct (map fst acc @ map entry_name es) \<Longrightarrow>
     fold (\<lambda>f fs. AList.update (entry_name f) (g f) fs) es acc = acc @ map (\<lambda>f. (entry_name f, g f)) es"
proof (induction es arbitrary: acc)
  case (Cons f es)
  have "entry_name f \<notin> set (map fst acc)" using Cons.prems by auto
  then have "AList.update (entry_name f) (g f) acc = acc @ [(entry_name f, g f)]" by (induction acc) auto
  with Cons.IH [of "acc @ [(entry_name f, g f)]"] Cons.prems show ?case by simp
qed simp

lemma hex_digest_utf8: "utf8_valid (hex_digest d)"
proof (rule utf8_valid_ascii)
  have "code c < 128" if "is_hex c" for c using that by (auto simp: is_hex_def is_digit_def)
  moreover have "list_all is_hex (hex_byte c)" for c
    using code_less_256 [of c] by (auto simp: hex_byte_def intro!: is_hex_digit)
  ultimately show "list_all (\<lambda>c. code c < 128) (hex_digest d)"
    by (auto simp: hex_digest_def list_all_iff)
qed

section \<open>Reading what was written\<close>

lemma write_entries_Inr:
  "write_entries cd done xs = Inr b \<Longrightarrow>
     tar_closed cd (map tar_item (done @ xs)) = Inr b \<and>
     (\<forall>f \<in> set xs. \<exists>ys b'. f \<in> set ys \<and> set ys \<subseteq> set (done @ xs) \<and> tar_written cd (map tar_item ys) = Inr b' \<and>
        length b' \<le> maxBackupSize)"
proof (induction cd "done" xs rule: write_entries.induct)
  case (2 cd "done" f fs)
  from "2.prems" obtain b1 where w: "tar_written cd (map tar_item (done @ [f])) = Inr b1" "length b1 \<le> maxBackupSize"
    and r: "write_entries cd (done @ [f]) fs = Inr b"
    by (auto split: sum.splits if_splits)
  from "2.IH" [OF w(1) _ r] w(2)
  have IH: "tar_closed cd (map tar_item ((done @ [f]) @ fs)) = Inr b \<and>
     (\<forall>g \<in> set fs. \<exists>ys b'. g \<in> set ys \<and> set ys \<subseteq> set ((done @ [f]) @ fs) \<and> tar_written cd (map tar_item ys) = Inr b' \<and>
        length b' \<le> maxBackupSize)" by simp
  show ?case
  proof (intro conjI ballI)
    show "tar_closed cd (map tar_item (done @ f # fs)) = Inr b" using IH by simp
    fix g assume "g \<in> set (f # fs)"
    then show "\<exists>ys b'. g \<in> set ys \<and> set ys \<subseteq> set (done @ f # fs) \<and> tar_written cd (map tar_item ys) = Inr b' \<and>
        length b' \<le> maxBackupSize"
    proof (cases "g = f")
      case True
      with w show ?thesis by (intro exI [of _ "done @ [f]"] exI [of _ b1]) auto
    next
      case False
      with \<open>g \<in> set (f # fs)\<close> have "g \<in> set fs" by simp
      with IH have "\<exists>ys b'. g \<in> set ys \<and> set ys \<subseteq> set ((done @ [f]) @ fs) \<and> tar_written cd (map tar_item ys) = Inr b' \<and>
        length b' \<le> maxBackupSize" by blast
      then show ?thesis by simp
    qed
  qed
qed simp

definition written_item :: "entry \<Rightarrow> tar_header \<times> string \<times> err option" where
  "written_item f = (file_header f, entry_data f, None)"

abbreviation is_manifest :: "entry \<Rightarrow> bool" where
  "is_manifest f \<equiv> entry_name f = ''manifest.json''"

lemma read_written:
  assumes "\<And>f. f \<in> set xs \<Longrightarrow> is_manifest f \<and> decode_manifest cd (entry_data f) = Some m1 \<or> archive_file (entry_name f)"
    and "Version m1 = 1" and "\<And>f. f \<in> set xs \<Longrightarrow> length (entry_data f) \<le> maxBackupSize"
    and "distinct (map entry_name (found @ xs))"
    and "seen \<longrightarrow> \<not> (\<exists>f \<in> set xs. is_manifest f)"
  shows "read_entries cd (map written_item xs) None found m seen =
    Inr (found @ map masked (filter (\<lambda>f. \<not> is_manifest f) xs),
         if \<exists>f \<in> set xs. is_manifest f then m1 else m, seen \<or> (\<exists>f \<in> set xs. is_manifest f))"
  using assms
proof (induction xs arbitrary: found m seen)
  case (Cons f xs)
  have f: "is_manifest f \<and> decode_manifest cd (entry_data f) = Some m1 \<or> archive_file (entry_name f)"
    and len: "length (entry_data f) \<le> maxBackupSize"
    using Cons.prems(1,3) by auto
  have fresh: "\<not> list_ex (\<lambda>g. entry_name g = entry_name f) found"
  proof
    assume "list_ex (\<lambda>g. entry_name g = entry_name f) found"
    then have "entry_name f \<in> entry_name ` set found" by (auto simp: list_ex_iff intro: rev_image_eqI)
    with Cons.prems(4) show False by auto
  qed
  have safe: "safeArchivePath (entry_name f)" using f safeArchivePath_iff by auto
  have hd: "hdr_Typeflag (file_header f) = TypeReg" "hdr_Name (file_header f) = entry_name f"
    "hdr_Size (file_header f) = int (length (entry_data f))"
    "of_int (hdr_Mode (file_header f)) AND mode_0777 = entry_mode f AND mode_0777"
    by (simp_all add: file_header_def mode_mask)
  show ?case
  proof (cases "is_manifest f")
    case True
    with f archive_file_props(1) have d: "decode_manifest cd (entry_data f) = Some m1" by auto
    have none: "\<not> (\<exists>g \<in> set xs. is_manifest g)"
    proof
      assume "\<exists>g \<in> set xs. is_manifest g"
      then have "entry_name f \<in> entry_name ` set xs" using True by (auto intro: rev_image_eqI)
      with Cons.prems(4) show False by auto
    qed
    have ns: "\<not> seen" using Cons.prems(5) True by auto
    have "read_entries cd (map written_item xs) None found m1 True =
      Inr (found @ map masked (filter (\<lambda>f. \<not> is_manifest f) xs),
         if \<exists>f \<in> set xs. is_manifest f then m1 else m1, True \<or> (\<exists>f \<in> set xs. is_manifest f))"
      by (rule Cons.IH) (use Cons.prems none in auto)
    with True d none ns fresh safe len hd Cons.prems(2) show ?thesis
      by (simp add: written_item_def [of f])
  next
    case False
    let ?g = "\<lparr>entry_name = entry_name f, entry_mode = entry_mode f AND mode_0777, entry_data = entry_data f\<rparr>"
    have g: "?g = masked f" by (cases f) (simp add: masked_def)
    have "read_entries cd (map written_item xs) None (found @ [?g]) m seen =
      Inr ((found @ [?g]) @ map masked (filter (\<lambda>f. \<not> is_manifest f) xs),
         if \<exists>f \<in> set xs. is_manifest f then m1 else m, seen \<or> (\<exists>f \<in> set xs. is_manifest f))"
      by (rule Cons.IH) (use Cons.prems False in auto)
    with False fresh safe len hd g show ?thesis
      by (simp add: written_item_def [of f])
  qed
qed simp

lemma not_image: "(\<And>f. f \<in> A \<Longrightarrow> g f \<noteq> x) \<Longrightarrow> x \<notin> g ` A"
  by auto

lemma archive_trip:
  assumes tar: "tar_faithful cd" and time: "parse_time cd (rfc3339_nano now) \<noteq> None"
    and made: "makeArchive cd now es = Inr plain"
    and d: "distinct (map entry_name es)" and ok: "list_all archivable es"
  shows "readArchive cd plain = Inr (sort_key entry_name (map masked es))"
proof -
  let ?files = "map (\<lambda>f. (entry_name f, hex_digest (entry_data f))) es"
  let ?mani = "\<lparr>Version = 1, CreatedAt = now, Files = ?files\<rparr>"
  have fl: "fold (\<lambda>f fs. AList.update (entry_name f) (hex_digest (entry_data f)) fs) es [] = ?files"
    using fold_update_files [of "[]" es] d by simp
  define md where "md = json_marshal (encode_manifest ?mani)"
  let ?mf = "\<lparr>entry_name = ''manifest.json'', entry_mode = mode_0600, entry_data = md\<rparr>"
  let ?all = "sort_key entry_name (es @ [?mf])"
  from made have w: "write_entries cd [] ?all = Inr plain"
    by (auto simp: makeArchive_def fl Let_def marshal_manifest_def md_def split: if_splits sum.splits)
  note written = write_entries_Inr [OF w, simplified]
  have kinds: "archivable f \<or> is_manifest f" if "f \<in> set ?all" for f
    using that ok by (auto simp: list_all_iff)
  have heads: "list_all (\<lambda>(h, d). plain_header h d) (map tar_item ys)" if "set ys \<subseteq> set ?all" for ys
  proof -
    have "plain_header (file_header f) (entry_data f)" if "f \<in> set ys" for f
      using that \<open>set ys \<subseteq> set ?all\<close> kinds file_header_plain by blast
    then show ?thesis by (auto simp: list_all_iff tar_item_def)
  qed
  have "tar_closed cd (map tar_item ?all) = Inr plain" using written by simp
  with tar heads [of ?all]
  have ent: "tar_entries cd plain = (map written_item ?all, None)"
    by (auto simp: tar_faithful_def tar_item_def written_item_def comp_def)
  have small: "length (entry_data f) \<le> maxBackupSize" if f: "f \<in> set ?all" for f
  proof -
    from f written obtain ys b' where y: "f \<in> set ys" "set ys \<subseteq> set ?all"
      "tar_written cd (map tar_item ys) = Inr b'" "length b' \<le> maxBackupSize" by auto
    have "list_all (\<lambda>(h, d). length d \<le> length b') (map tar_item ys)"
      using tar heads [OF y(2)] y(3) unfolding tar_faithful_def by blast
    with y(1) have "length (entry_data f) \<le> length b'" by (auto simp: list_all_iff tar_item_def)
    with y(4) show ?thesis by simp
  qed
  from time obtain t where t: "parse_time cd (rfc3339_nano now) = Some t" by auto
  let ?m1 = "\<lparr>Version = 1, CreatedAt = t, Files = sort_key fst ?files\<rparr>"
  have fd: "distinct (map fst ?files)" using d by (simp add: comp_def)
  have "list_all (\<lambda>(k, v). utf8_valid k \<and> utf8_valid v) ?files"
    using ok hex_digest_utf8 by (auto simp: list_all_iff archivable_def)
  with t fd have dec: "decode_manifest cd md = Some ?m1"
    unfolding md_def by (subst decode_encode_manifest) simp_all
  have nm: "\<not> is_manifest f" if "f \<in> set es" for f
    using that ok archive_file_props(1) by (auto simp: list_all_iff archivable_def)
  have da: "distinct (map entry_name ?all)"
  proof -
    have "''manifest.json'' \<notin> entry_name ` set es" using not_image [OF nm] .
    moreover have "map entry_name (es @ [?mf]) = map entry_name es @ [''manifest.json'']" by simp
    ultimately have "distinct (map entry_name (es @ [?mf]))"
      using d by (simp only: distinct_append set_map) simp
    then show ?thesis by (simp only: distinct_map_mset [OF mset_sort])
  qed
  define kept where "kept = map masked (filter (\<lambda>f. \<not> is_manifest f) ?all)"
  have "read_entries cd (map written_item ?all) None [] \<lparr>Version = 0, CreatedAt = 0, Files = []\<rparr> False =
      Inr ([] @ map masked (filter (\<lambda>f. \<not> is_manifest f) ?all),
        if \<exists>f \<in> set ?all. is_manifest f then ?m1 else \<lparr>Version = 0, CreatedAt = 0, Files = []\<rparr>,
        False \<or> (\<exists>f \<in> set ?all. is_manifest f))"
    by (rule read_written) (use kinds dec small da ok in \<open>auto simp: list_all_iff archivable_def\<close>)
  then have rd: "read_entries cd (map written_item ?all) None [] \<lparr>Version = 0, CreatedAt = 0, Files = []\<rparr> False =
      Inr (kept, ?m1, True)" by (auto simp: kept_def)
  have "filter (\<lambda>f. \<not> is_manifest f) es = es"
    using nm by (simp add: filter_id_conv)
  then have "filter (\<lambda>f. \<not> is_manifest f) (es @ [?mf]) = es" by simp
  then have "mset (filter (\<lambda>f. \<not> is_manifest f) ?all) = mset es"
    unfolding mset_filter mset_sort by (metis mset_filter)
  then have mk: "mset kept = mset (map masked es)" unfolding kept_def mset_map by (rule arg_cong)
  have names: "entry_name (masked f) = entry_name f" "entry_data (masked f) = entry_data f" for f
    by (simp_all add: masked_def)
  have len: "length kept = length (Files ?m1)"
    using mset_eq_length [OF mk] by simp
  have "list_all (digest_matches ?m1) kept"
  proof -
    have "map_of (sort_key fst ?files) (entry_name f) = Some (hex_digest (entry_data f))" if "f \<in> set es" for f
    proof -
      have "distinct (map fst (sort_key fst ?files))"
        using fd by (simp only: distinct_map_mset [OF mset_sort])
      with that show ?thesis by (auto simp: map_of_eq_Some_iff)
    qed
    moreover have "set kept = masked ` set es" using mk by (metis set_map set_mset_mset)
    ultimately show ?thesis by (auto simp: list_all_iff digest_matches_def names)
  qed
  with rd ent len have "readArchive cd plain = Inr (sort_key entry_name kept)"
    by (simp add: readArchive_def)
  also have "sort_key entry_name kept = sort_key entry_name (map masked es)"
  proof (rule sort_key_inj_key_eq)
    show "mset kept = mset (sort_key entry_name (map masked es))" using mk by simp
    have "distinct (map entry_name (map masked es))" using d by (simp add: names comp_def)
    then have "distinct (map entry_name kept)" by (simp only: distinct_map_mset [OF mk])
    then show "inj_on entry_name (set kept)" by (simp add: distinct_map)
  qed simp
  finally show ?thesis .
qed

text \<open>An archive made of distinctly named files at safe paths reads back as exactly these files, with
  the permission bits of their modes, sorted by name. Of the tar package only that it reads back the
  entries it wrote is relied on.\<close>

theorem archive_round_trip:
  assumes "tar_faithful cd" and "parse_time cd (rfc3339_nano now) \<noteq> None"
    and "makeArchive cd now es = Inr plain" and "distinct (map entry_name es)" and "list_all archivable es"
  shows "readArchive cd plain = Inr (sort_key entry_name (map masked es))"
  using assms by (rule archive_trip)

section \<open>A codec\<close>

text \<open>A codec for which the reliance holds: the entries as a JSON text.\<close>

definition demo_text :: "string \<Rightarrow> json" where
  "demo_text s = JArr (map (\<lambda>c. JNum (itoa (int (code c)))) s)"

fun demo_number :: "json \<Rightarrow> int" where
  "demo_number (JNum l) = (case parse_int64 l of Some i \<Rightarrow> i | None \<Rightarrow> 0)"
| "demo_number v = 0"

fun demo_untext :: "json \<Rightarrow> string" where
  "demo_untext (JArr vs) = map (\<lambda>v. char_of (nat (demo_number v))) vs"
| "demo_untext v = []"

definition demo_item :: "tar_header \<times> string \<Rightarrow> json" where
  "demo_item e = JArr [demo_text (hdr_Name (fst e)), JNum (itoa (hdr_Mode (fst e))), demo_text (snd e)]"

fun demo_unitem :: "json \<Rightarrow> tar_header \<times> string \<times> err option" where
  "demo_unitem (JArr [n, m, d]) =
     (\<lparr>hdr_Name = demo_untext n, hdr_Mode = demo_number m, hdr_Size = int (length (demo_untext d)),
       hdr_Typeflag = TypeReg\<rparr>, demo_untext d, None)"
| "demo_unitem v = (\<lparr>hdr_Name = [], hdr_Mode = 0, hdr_Size = 0, hdr_Typeflag = TypeReg\<rparr>, [], None)"

definition demo_codec :: codec where
  "demo_codec =
     \<lparr>tar_written = (\<lambda>items. Inr (concat (map snd items))),
      tar_closed = (\<lambda>items. Inr (json_marshal (JArr (map demo_item items)))),
      tar_entries = (\<lambda>b. case json_parse b of
          Some (JArr vs) \<Rightarrow> (map demo_unitem vs, None)
        | _ \<Rightarrow> ([], Some (ErrText ''archive/tar: invalid tar header''))),
      parse_time = (\<lambda>s. if s = rfc3339_nano 0 then Some 0 else None)\<rparr>"

lemma demo_untext_text [simp]: "demo_untext (demo_text s) = s"
proof -
  have "parse_int64 (itoa (int (code c))) = Some (int (code c))" for c
    using code_less_256 [of c] by (intro parse_int64_itoa) auto
  then show ?thesis by (simp add: demo_text_def comp_def)
qed

lemma demo_unitem_item: "plain_header h d \<Longrightarrow> demo_unitem (demo_item (h, d)) = (h, d, None)"
  by (cases h) (simp add: demo_item_def plain_header_def parse_int64_itoa)

lemma demo_text_ok: "json_ok (demo_text s)"
  by (induction s) (auto simp: demo_text_def)

lemma demo_faithful: "tar_faithful demo_codec"
  unfolding tar_faithful_def
proof (intro allI impI conjI)
  fix items b
  assume ok: "list_all (\<lambda>(h, d). plain_header h d) items"
  have "length d \<le> length (concat (map snd items))" if "(h, d) \<in> set items" for h d
    using that by (induction items) auto
  then show "tar_written demo_codec items = Inr b \<Longrightarrow> list_all (\<lambda>(h, d). length d \<le> length b) items"
    by (auto simp: demo_codec_def list_all_iff)
  have "elems_ok (map demo_item items)"
    by (induction items) (auto simp: demo_item_def demo_text_ok)
  then have "json_ok (JArr (map demo_item items))" by simp
  from json_parse_marshal [OF this, of "[]"]
  have "json_parse (json_marshal (JArr (map demo_item items))) = Some (JArr (map demo_item items))" by simp
  moreover have "map demo_unitem (map demo_item items) = map (\<lambda>(h, d). (h, d, None)) items"
    using ok demo_unitem_item by (induction items) auto
  ultimately show "tar_closed demo_codec items = Inr b \<Longrightarrow>
      tar_entries demo_codec b = (map (\<lambda>(h, d). (h, d, None)) items, None)"
    by (auto simp: demo_codec_def)
qed

text \<open>The length of a text, to see that a small archive is within the limit.\<close>

lemma length_json_body: "length (json_body s) \<le> 6 * length s"
proof (induction s rule: json_body.induct)
  case (2 c cs)
  have "length (json_ascii c) \<le> 6" by (simp add: json_ascii_def hex_byte_def)
  moreover have "length (take (utf8_len (c # cs)) (c # cs)) \<le> utf8_len (c # cs)" by simp
  moreover have "utf8_len (c # cs) \<le> Suc (length cs)" using utf8_len_le [of "c # cs"] by simp
  ultimately show ?case using 2 by (auto simp: Let_def)
qed simp

lemma length_emit_array:
  assumes "\<And>x d. x \<in> set xs \<Longrightarrow> length (emit (\<lambda>_. []) col d (g x)) \<le> f x"
  shows "length (emit (\<lambda>_. []) col d (JArr (map g xs))) \<le> 2 + sum_list (map (\<lambda>x. f x + 1) xs)"
proof -
  have "length (emit_elems (\<lambda>_. []) col d (map g xs)) \<le> sum_list (map (\<lambda>x. f x + 1) xs)" for d
    using assms
  proof (induction xs)
    case (Cons x xs)
    have "length (emit_elems (\<lambda>_. []) col d (map g xs)) \<le> sum_list (map (\<lambda>x. f x + 1) xs)"
      by (rule Cons.IH) (use Cons.prems in simp)
    moreover have "length (emit (\<lambda>_. []) col d (g x)) \<le> f x" using Cons.prems by simp
    ultimately show ?case by simp
  qed simp
  from this [of "Suc d"] show ?thesis by simp
qed

lemma length_small_number:
  assumes "0 \<le> i" and "i < 1000"
  shows "length (itoa i) \<le> 3"
proof -
  have "n < 10 ^ Suc k \<Longrightarrow> length (dec n) \<le> Suc k" for n k
    by (induction k arbitrary: n) (simp_all add: dec.simps)
  from this [of "nat i" 2] have "length (dec (nat i)) \<le> 3" using assms by simp
  with assms show ?thesis by (simp add: itoa_def)
qed

lemma length_demo_text: "length (emit (\<lambda>_. []) col d (demo_text s)) \<le> 2 + 4 * length s"
proof -
  have "length (emit (\<lambda>_. []) col d (JArr (map (\<lambda>c. JNum (itoa (int (code c)))) s))) \<le>
      2 + sum_list (map (\<lambda>_. 3 + 1) s)"
  proof (rule length_emit_array)
    fix c :: char and d'
    show "length (emit (\<lambda>_. []) col d' (JNum (itoa (int (code c))))) \<le> 3"
      using length_small_number [of "int (code c)"] code_less_256 [of c] by simp
  qed
  then show ?thesis by (auto simp: demo_text_def sum_list_triv)
qed

lemma length_demo_item:
  "length (emit (\<lambda>_. []) col d (demo_item (tar_item f))) \<le> 14 + 4 * (length (entry_name f) + length (entry_data f))"
proof -
  have "length (itoa (uint (entry_mode f AND mode_0777))) \<le> 3"
    by (rule length_small_number) (use mode_bound [of "entry_mode f"] in auto)
  then show ?thesis
    using length_demo_text [of col "Suc d" "entry_name f"] length_demo_text [of col "Suc d" "entry_data f"]
    by (simp add: demo_item_def tar_item_def file_header_def)
qed

lemma demo_writes:
  "sum_list (map (\<lambda>f. length (entry_data f)) (done @ xs)) \<le> maxBackupSize \<Longrightarrow>
     \<exists>b. write_entries demo_codec done xs = Inr b \<and>
       length b \<le> 2 + sum_list (map (\<lambda>f. 15 + 4 * (length (entry_name f) + length (entry_data f))) (done @ xs))"
proof (induction xs arbitrary: "done")
  case Nil
  have "length (emit (\<lambda>_. []) '':'' 0 (JArr (map (\<lambda>f. demo_item (tar_item f)) done))) \<le>
      2 + sum_list (map (\<lambda>f. (14 + 4 * (length (entry_name f) + length (entry_data f))) + 1) done)"
    by (rule length_emit_array) (rule length_demo_item)
  then show ?case by (auto simp: demo_codec_def json_marshal_def comp_def)
next
  case (Cons f fs)
  have "length (concat (map snd (map tar_item (done @ [f])))) = sum_list (map (\<lambda>f. length (entry_data f)) (done @ [f]))"
    by (simp add: length_concat comp_def tar_item_def)
  moreover have "\<exists>b. write_entries demo_codec (done @ [f]) fs = Inr b \<and>
      length b \<le> 2 + sum_list (map (\<lambda>f. 15 + 4 * (length (entry_name f) + length (entry_data f))) ((done @ [f]) @ fs))"
    by (rule Cons.IH) (use Cons.prems in simp)
  ultimately show ?case using Cons.prems by (auto simp: demo_codec_def)
qed

definition demo_entries :: "entry list" where
  "demo_entries =
     [\<lparr>entry_name = ''config/ca.pass'', entry_mode = 256, entry_data = ''ca-secret''\<rparr>,
      \<lparr>entry_name = ''data/pki/state.json'', entry_mode = mode_0600, entry_data = ''{}''\<rparr>]"

lemma demo_entries_sorted: "sort_key entry_name demo_entries = demo_entries"
  by code_simp

lemma demo_entries_ok: "distinct (map entry_name demo_entries)" "list_all archivable demo_entries"
proof -
  show "distinct (map entry_name demo_entries)" by (simp add: demo_entries_def)
  have "utf8_valid ''data/pki/state.json''" "utf8_valid ''config/ca.pass''"
    by (rule utf8_valid_ascii, simp add: code_def)+
  moreover have "safeArchivePath ''data/pki/state.json''" "safeArchivePath ''config/ca.pass''"
    by code_simp+
  ultimately show "list_all archivable demo_entries"
    by (simp add: demo_entries_def archivable_def safeArchivePath_iff)
qed

lemma length_hex_digest [simp]: "length (hex_digest d) = 64"
proof -
  have "length (concat (map hex_byte s)) = 2 * length s" for s
    by (induction s) (simp_all add: hex_byte_def)
  then show ?thesis by (simp add: hex_digest_def)
qed

lemma length_json_string: "length (json_string s) \<le> 6 * length s + 2"
  using length_json_body [of s] by (simp add: json_string_def)

lemma demo_manifest_length:
  "length (json_marshal (JObj [(''version'', JNum ''1''), (''created_at'', JStr ''0001-01-01T00:00:00Z''),
     (''files'', JObj [(''config/ca.pass'', JStr (hex_digest a)), (''data/pki/state.json'', JStr (hex_digest b))])])) \<le> 2000"
  using length_json_string [of "''version''"] length_json_string [of "''created_at''"]
    length_json_string [of "''files''"] length_json_string [of "''config/ca.pass''"]
    length_json_string [of "''data/pki/state.json''"] length_json_string [of "hex_digest a"]
    length_json_string [of "hex_digest b"] length_json_string [of "''0001-01-01T00:00:00Z''"]
  by (simp add: json_marshal_def)

lemma demo_archive: "\<exists>plain. makeArchive demo_codec 0 demo_entries = Inr plain \<and> length plain \<le> 10000"
proof -
  let ?files = "map (\<lambda>f. (entry_name f, hex_digest (entry_data f))) demo_entries"
  let ?mani = "\<lparr>Version = 1, CreatedAt = 0, Files = ?files\<rparr>"
  let ?mf = "\<lparr>entry_name = ''manifest.json'', entry_mode = mode_0600,
    entry_data = json_marshal (encode_manifest ?mani)\<rparr>"
  have fl: "fold (\<lambda>f fs. AList.update (entry_name f) (hex_digest (entry_data f)) fs) demo_entries [] = ?files"
    using fold_update_files [of "[]" demo_entries] demo_entries_ok(1) by simp
  have y: "year 0 = 1" by code_simp
  have "rfc3339_nano 0 = ''0001-01-01T00:00:00Z''" "itoa 1 = ''1''" by code_simp+
  moreover have "sort_key fst ?files =
      [(''config/ca.pass'', hex_digest ''ca-secret''), (''data/pki/state.json'', hex_digest ''{}'')]"
  proof (rule sort_key_inj_key_eq)
    show "inj_on fst (set ?files)" by (auto simp: demo_entries_def inj_on_def)
    have "''config/ca.pass'' \<le> ''data/pki/state.json''" by code_simp
    then show "sorted (map fst [(''config/ca.pass'', hex_digest ''ca-secret''), (''data/pki/state.json'', hex_digest ''{}'')])"
      by simp
  qed (simp add: demo_entries_def)
  ultimately have "length (json_marshal (encode_manifest ?mani)) \<le> 2000"
    using demo_manifest_length by (simp add: encode_manifest_def)
  then have bounds: "sum_list (map (\<lambda>f. length (entry_data f)) (demo_entries @ [?mf])) \<le> maxBackupSize"
    "2 + sum_list (map (\<lambda>f. 15 + 4 * (length (entry_name f) + length (entry_data f))) (demo_entries @ [?mf])) \<le> 10000"
    by (simp_all add: demo_entries_def maxBackupSize_def)
  have perm: "sum_list (map g (sort_key k xs)) = sum_list (map g xs)" for g :: "entry \<Rightarrow> nat" and k :: "entry \<Rightarrow> string" and xs
    by (metis mset_map mset_sort sum_mset_sum_list)
  from bounds(1) have "sum_list (map (\<lambda>f. length (entry_data f)) ([] @ sort_key entry_name (demo_entries @ [?mf]))) \<le> maxBackupSize"
    by (simp only: append_Nil perm)
  from demo_writes [OF this] obtain b where
    "write_entries demo_codec [] (sort_key entry_name (demo_entries @ [?mf])) = Inr b"
    and "length b \<le> 2 + sum_list (map (\<lambda>f. 15 + 4 * (length (entry_name f) + length (entry_data f))) (demo_entries @ [?mf]))"
    by (auto simp only: append_Nil perm)
  with bounds(2) show ?thesis
    by (simp add: makeArchive_def fl Let_def marshal_manifest_def y del: sort_key_simps)
qed

theorem archive_round_trip_witness:
  "\<exists>plain. makeArchive demo_codec 0 demo_entries = Inr plain \<and>
     readArchive demo_codec plain = Inr (sort_key entry_name (map masked demo_entries))"
proof -
  from demo_archive obtain plain where m: "makeArchive demo_codec 0 demo_entries = Inr plain" by blast
  have "parse_time demo_codec (rfc3339_nano 0) \<noteq> None" by (simp add: demo_codec_def)
  from archive_round_trip [OF demo_faithful this m demo_entries_ok] m show ?thesis by blast
qed

text \<open>C37. Whatever bytes \<open>readArchive\<close> is given, the entries it returns are regular files of the
  archive at safe paths below \<open>data\<close> or \<open>config\<close>, within the size limit, each at most
  once and in order, and they are, with the digests of their contents, exactly the files a manifest of
  version 1 in the archive lists.\<close>

theorem archive_entries_are_listed:
  assumes "readArchive cd plain = Inr es"
  shows "(\<forall>f \<in> set es. from_item (fst (tar_entries cd plain)) f) \<and> distinct (map entry_name es) \<and>
    sorted (map entry_name es) \<and> (\<exists>m. manifest_item cd (fst (tar_entries cd plain)) m \<and> listed m es)"
  using readArchive_Inr [OF assms] by blast

theorem archive_entries_are_listed_witness:
  "\<exists>plain es. readArchive demo_codec plain = Inr es \<and> length es = 2 \<and>
     (\<forall>f \<in> set es. from_item (fst (tar_entries demo_codec plain)) f) \<and> distinct (map entry_name es) \<and>
     sorted (map entry_name es) \<and>
     (\<exists>m. manifest_item demo_codec (fst (tar_entries demo_codec plain)) m \<and> listed m es)"
proof -
  have "parse_time demo_codec (rfc3339_nano 0) \<noteq> None" by (simp add: demo_codec_def)
  moreover from demo_archive obtain plain where "makeArchive demo_codec 0 demo_entries = Inr plain" by blast
  ultimately have r: "readArchive demo_codec plain = Inr (sort_key entry_name (map masked demo_entries))"
    by (intro archive_trip demo_faithful demo_entries_ok)
  have "length (sort_key entry_name (map masked demo_entries)) = 2" by (simp add: demo_entries_def)
  with archive_entries_are_listed [OF r] r show ?thesis by blast
qed


text \<open>The demonstration entries, archived and read back.\<close>

lemma demo_trip:
  "\<exists>plain. makeArchive demo_codec 0 demo_entries = Inr plain \<and> length plain \<le> 10000 \<and>
     readArchive demo_codec plain = Inr demo_entries"
proof -
  from demo_archive obtain plain where m: "makeArchive demo_codec 0 demo_entries = Inr plain"
    and len: "length plain \<le> 10000" by blast
  have "parse_time demo_codec (rfc3339_nano 0) \<noteq> None" by (simp add: demo_codec_def)
  from archive_trip [OF demo_faithful this m demo_entries_ok]
  have "readArchive demo_codec plain = Inr (sort_key entry_name (map masked demo_entries))" .
  moreover have "map masked demo_entries = demo_entries" by (simp add: demo_entries_def masked_def)
  ultimately show ?thesis using m len by (simp add: demo_entries_sorted)
qed

end
