(* ===== verification/Backup.thy ===== *)
theory Backup
  imports Backup_Trip Os_Replace
begin

text \<open>
  The two operations of internal/backup/backup.go and the steps they are made of: \<open>collect\<close>,
  \<open>materialize\<close>, \<open>publish\<close> and \<open>rollback\<close>, \<open>Create\<close> and
  \<open>Restore\<close>. Paths come as the strings the caller gave; \<open>cwd\<close> is the directory the
  process works in. The proofs are in the theories that import this one.
\<close>

section \<open>Collecting the files\<close>

text \<open>
  \<open>filepath.WalkDir\<close>: the visit of a node, then of the entries of a directory in their
  order. The depth of the tree is fuel enough, because each level is one component longer.
\<close>

definition out_of_fuel :: err where
  "out_of_fuel = Sentinel ''directory tree deeper than its longest path''"

primrec walk :: "nat \<Rightarrow> (path \<Rightarrow> 'a list io) \<Rightarrow> path \<Rightarrow> bool \<Rightarrow> 'a list io" where
  "walk 0 visit p isdir = throwE out_of_fuel"
| "walk (Suc n) visit p isdir =
     bindE (visit p) (\<lambda>xs.
       if \<not> isdir then returnE xs
       else
         bindE (os_read_dir p) (\<lambda>es.
         bindE (mapE (\<lambda>e. walk n visit (p @ [fst e]) (is_directory (snd e))) es) (\<lambda>yss.
         returnE (xs @ concat yss))))"

definition tree_depth :: "fsys \<Rightarrow> nat" where
  "tree_depth f = fold (\<lambda>e n. max (length (fst e)) n) f 0"

definition walk_dir :: "(path \<Rightarrow> 'a list io) \<Rightarrow> path \<Rightarrow> 'a list io" where
  "walk_dir visit root = bindE (os_lstat root) (\<lambda>info w.
     walk (Suc (tree_depth (files w))) visit root (is_directory info) w)"

definition collect_file :: "string \<Rightarrow> path \<Rightarrow> path \<Rightarrow> entry list io" where
  "collect_file pre root file =
     (if file = root then returnE []
      else
        bindE (os_lstat file) (\<lambda>info.
        if is_directory info then returnE []
        else if \<not> is_regular info then
          throwE (ErrText (''backup source contains unsupported file '' @ go_quote (path_str file)))
        else
          let relative = drop (length root) file;
              name = path_Clean (join_with ''/'' (pre # relative)) in
          if \<not> safeArchivePath name then throwE (ErrText (''unsafe backup path '' @ go_quote name))
          else
            bindE (os_read_file file) (\<lambda>d.
            returnE [\<lparr>entry_name = name, entry_mode = node_mode info AND mode_0777, entry_data = d\<rparr>])))"

definition collect :: "path \<Rightarrow> string \<Rightarrow> string \<Rightarrow> entry list io" where
  "collect cwd dataDir configDir =
     bindE (mapE (\<lambda>(pre, root).
         wrapE (''collect '' @ pre @ '' backup files'')
           (walk_dir (collect_file pre (resolve cwd root)) (resolve cwd root)))
       [(''data'', dataDir), (''config'', configDir)]) (\<lambda>entries.
     returnE (sort_key entry_name (concat entries)))"

section \<open>Create\<close>

definition fill_output :: "path \<Rightarrow> string \<Rightarrow> unit io" where
  "fill_output t encrypted =
     bindE (onErrorE (file_close t) (os_chmod t mode_0600)) (\<lambda>_.
     bindE (onErrorE (file_close t) (wrapE ''write backup'' (file_write t encrypted))) (\<lambda>_.
     bindE (onErrorE (file_close t) (wrapE ''sync backup'' (file_sync t))) (\<lambda>_.
     file_close t)))"

definition Create :: "codec \<Rightarrow> path \<Rightarrow> instant \<Rightarrow> string \<Rightarrow> string \<Rightarrow> string \<Rightarrow> string \<Rightarrow> unit io" where
  "Create cd cwd now dataDir configDir output password =
     bindE (checkE (password \<noteq> []) (ErrText ''backup password is required'')) (\<lambda>_.
     bindE (collect cwd dataDir configDir) (\<lambda>entries.
     bindE (liftE (makeArchive cd now entries)) (\<lambda>plain.
     bindE (encrypt plain password) (\<lambda>encrypted.
     bindE (wrapE ''create backup output directory'' (os_mkdir_all (dir_of cwd output) mode_0700)) (\<lambda>_.
     bindE (wrapE ''create backup output''
         (os_create_temp (dir_of cwd output) ''.certarium-backup-'' ''.tmp'')) (\<lambda>name.
     deferE (os_remove name)
      (bindE (fill_output name encrypted) (\<lambda>_.
       wrapE ''publish backup'' (os_rename name (resolve cwd output))))))))))"

section \<open>Materialising the entries\<close>

definition materialize_file :: "path \<Rightarrow> string \<Rightarrow> entry \<Rightarrow> unit io" where
  "materialize_file temp pre f =
     (if \<not> has_prefix (entry_name f) (pre @ ''/'') then returnE ()
      else
        let relative = trim_prefix (entry_name f) (pre @ ''/'');
            destination = join_path temp relative in
        bindE (os_mkdir_all (butlast destination) mode_0700) (\<lambda>_.
        os_write_file destination (entry_data f) (entry_mode f AND mode_0777)))"

definition materialize :: "path \<Rightarrow> string \<Rightarrow> entry list \<Rightarrow> path io" where
  "materialize parent pre entries =
     bindE (os_mkdir_all parent mode_0700) (\<lambda>_.
     bindE (os_mkdir_temp parent ''.certarium-restore-'') (\<lambda>temp.
     bindE (onErrorE (os_remove_all temp)
       (bindE (os_chmod temp mode_0700) (\<lambda>_. forE entries (materialize_file temp pre)))) (\<lambda>_.
     returnE temp)))"

section \<open>Publishing\<close>

text \<open>The field \<open>temp\<close> is not looked at again after its directory was renamed.\<close>

record publication =
  temp :: path
  destination :: string
  old :: string

definition rollback :: "path \<Rightarrow> publication list \<Rightarrow> nat \<Rightarrow> unit io" where
  "rollback cwd items n =
     forE (rev (take n items)) (\<lambda>i.
       if old i = [] then returnE ()
       else
         bindE (tryE (os_remove_all (resolve cwd (destination i)))) (\<lambda>_.
         bindE (tryE (os_rename (resolve cwd (old i)) (resolve cwd (destination i)))) (\<lambda>_.
         returnE ())))"

text \<open>One round of the loop: \<open>done\<close> are the items before it; \<open>nano\<close> is
  \<open>time.Now().UnixNano()\<close> of the round.\<close>

definition publish_item :: "path \<Rightarrow> (nat \<Rightarrow> int) \<Rightarrow> bool \<Rightarrow> publication list \<Rightarrow> publication \<Rightarrow> publication io" where
  "publish_item cwd nano replace done item =
     bindE (onErrorE (rollback cwd (done @ [item]) (length done))
       (os_mkdir_all (dir_of cwd (destination item)) mode_0700)) (\<lambda>_.
     bindE (tryE (os_lstat (resolve cwd (destination item)))) (\<lambda>r.
     bindE (case r of
         Inl e \<Rightarrow> returnE item
       | Inr info \<Rightarrow>
           if \<not> replace then
             bindE (rollback cwd (done @ [item]) (length done)) (\<lambda>_.
             throwE (ErrText ''restore destination already exists''))
           else
             let item' = item\<lparr>old := destination item @ ''.before-restore-'' @ itoa (nano (length done))\<rparr> in
             bindE (onErrorE (rollback cwd (done @ [item']) (length done))
               (os_rename (resolve cwd (destination item')) (resolve cwd (old item')))) (\<lambda>_.
             returnE item')) (\<lambda>item'.
     bindE (onErrorE (rollback cwd (done @ [item']) (Suc (length done)))
       (os_rename (temp item') (resolve cwd (destination item')))) (\<lambda>_.
     returnE item'))))"

fun publish_items ::
    "path \<Rightarrow> (nat \<Rightarrow> int) \<Rightarrow> bool \<Rightarrow> publication list \<Rightarrow> publication list \<Rightarrow> publication list io" where
  "publish_items cwd nano replace done [] = returnE done"
| "publish_items cwd nano replace done (item # items) =
     bindE (publish_item cwd nano replace done item) (\<lambda>item'.
     publish_items cwd nano replace (done @ [item']) items)"

definition publish :: "path \<Rightarrow> (nat \<Rightarrow> int) \<Rightarrow> publication list \<Rightarrow> bool \<Rightarrow> unit io" where
  "publish cwd nano items replace =
     bindE (publish_items cwd nano replace [] items) (\<lambda>items'.
     forE items' (\<lambda>i.
       if old i \<noteq> [] then bindE (tryE (os_remove_all (resolve cwd (old i)))) (\<lambda>_. returnE ())
       else returnE ()))"

section \<open>Restore\<close>

definition bounded_regular :: "node \<Rightarrow> bool" where
  "bounded_regular n = (case n of Regular m d \<Rightarrow> length d \<le> maxBackupSize | _ \<Rightarrow> False)"

definition refuse_existing :: "path \<Rightarrow> string \<Rightarrow> unit io" where
  "refuse_existing cwd dest =
     bindE (tryE (os_lstat (resolve cwd dest))) (\<lambda>r.
       checkE (case r of Inl e \<Rightarrow> is_not_exist e | Inr info \<Rightarrow> False)
         (ErrText ''restore destination already exists''))"

definition Restore ::
    "codec \<Rightarrow> path \<Rightarrow> (nat \<Rightarrow> int) \<Rightarrow> string \<Rightarrow> string \<Rightarrow> string \<Rightarrow> string \<Rightarrow> bool \<Rightarrow> unit io" where
  "Restore cd cwd nano input dataDir configDir password replace =
     bindE (checkE (password \<noteq> []) (ErrText ''backup password is required'')) (\<lambda>_.
     bindE (tryE (os_lstat (resolve cwd input))) (\<lambda>r.
     bindE (checkE (case r of Inl e \<Rightarrow> False | Inr info \<Rightarrow> bounded_regular info)
         (ErrText ''backup input must be a bounded regular file'')) (\<lambda>_.
     bindE (wrapE ''read backup'' (os_read_file (resolve cwd input))) (\<lambda>encrypted.
     bindE (liftE (decrypt encrypted password)) (\<lambda>plain.
     bindE (liftE (readArchive cd plain)) (\<lambda>entries.
     bindE (if \<not> replace then forE [dataDir, configDir] (refuse_existing cwd) else returnE ()) (\<lambda>_.
     bindE (materialize (dir_of cwd dataDir) ''data'' entries) (\<lambda>dataTemp.
     deferE (os_remove_all dataTemp)
      (bindE (materialize (dir_of cwd configDir) ''config'' entries) (\<lambda>configTemp.
       deferE (os_remove_all configTemp)
        (publish cwd nano
          [\<lparr>temp = dataTemp, destination = dataDir, old = []\<rparr>,
           \<lparr>temp = configTemp, destination = configDir, old = []\<rparr>] replace)))))))))))"

end
