(* ===== verification/Backup_Collect.thy ===== *)
theory Backup_Collect
  imports Backup
begin

text \<open>
  What \<open>collect\<close> gathers: the walk ends whatever the tree, and the entries are exactly the
  regular files below the two directories.
\<close>

section \<open>The walk ends\<close>

lemma tree_depth_le: "e \<in> set f \<Longrightarrow> length (fst e) \<le> tree_depth f"
proof -
  have mono: "n \<le> fold (\<lambda>e n. max (length (fst e)) n) f n" for n :: nat and f :: fsys
    by (induction f arbitrary: n) (auto intro: order_trans [OF max.cobounded2])
  have "e \<in> set f \<Longrightarrow> length (fst e) \<le> fold (\<lambda>e n. max (length (fst e)) n) f n" for n
    by (induction f arbitrary: n) (auto intro: order_trans [OF max.cobounded1 mono])
  then show "e \<in> set f \<Longrightarrow> length (fst e) \<le> tree_depth f" unfolding tree_depth_def by blast
qed

lemma reads_collect_file [quiet]: "reads_only (collect_file pre root p)"
  unfolding collect_file_def by (intro quiet)

lemma os_Inl:
  "os_lstat p w = (Inl e, w') \<Longrightarrow> \<exists>op en. e = PathErr op p en"
  "os_read_file p w = (Inl e, w') \<Longrightarrow> \<exists>op en. e = PathErr op p en"
  "os_read_dir p w = (Inl e, w') \<Longrightarrow> \<exists>op en. e = PathErr op p en"
  unfolding os_lstat_def os_read_file_def os_read_dir_def
  by (erule syscall_cases; auto simp: fault_def split: sum.splits node.splits option.splits)+

lemma os_not_fuel:
  "os_lstat p w = (Inl e, w') \<Longrightarrow> \<not> errors_is e out_of_fuel"
  "os_read_file p w = (Inl e, w') \<Longrightarrow> \<not> errors_is e out_of_fuel"
  "os_read_dir p w = (Inl e, w') \<Longrightarrow> \<not> errors_is e out_of_fuel"
  using os_Inl [of p w e w'] by (auto simp: out_of_fuel_def)

lemma collect_file_Inl:
  assumes "collect_file pre root p w = (Inl e, w')"
  shows "\<not> errors_is e out_of_fuel"
proof -
  from assms have "os_lstat p w = (Inl e, w') \<or> (\<exists>v. os_read_file p v = (Inl e, w')) \<or> (\<exists>t. e = ErrText t)"
    by (auto simp: collect_file_def bindE_Inl Let_def split: if_splits)
  then show ?thesis using os_not_fuel(1,2) by (elim disjE exE) (blast, blast, simp add: out_of_fuel_def)
qed

lemma reads_walk: "(\<And>p. reads_only (visit p)) \<Longrightarrow> reads_only (walk n visit p b)"
  by (induction n arbitrary: p b) (auto intro!: quiet)

lemma walk_fuel:
  assumes "\<And>p. reads_only (visit p)" and "\<And>p v e v'. visit p v = (Inl e, v') \<Longrightarrow> \<not> errors_is e out_of_fuel"
  shows "walk n visit p b w = (Inl e, w') \<Longrightarrow> 0 < n \<Longrightarrow> tree_depth (files w) < length p + n \<Longrightarrow>
    \<not> errors_is e out_of_fuel"
proof (induction n arbitrary: p b w e w')
  case (Suc n)
  from Suc.prems(1) consider (visit) "visit p w = (Inl e, w')"
    | (dir) xs w1 where "visit p w = (Inr xs, w1)" and "os_read_dir p w1 = (Inl e, w')"
    | (sub) xs w1 es w2 where "visit p w = (Inr xs, w1)" and "os_read_dir p w1 = (Inr es, w2)"
      and "mapE (\<lambda>e. walk n visit (p @ [fst e]) (is_directory (snd e))) es w2 = (Inl e, w')"
    by (auto simp: bindE_Inl split: if_splits)
  then show ?case
  proof cases
    case visit
    then show ?thesis using assms(2) by blast
  next
    case dir
    then show ?thesis using os_not_fuel(3) by blast
  next
    case sub
    have fw: "files w1 = files w" using reads_onlyD [OF assms(1) sub(1)] .
    from os_read_dir_Inr [OF sub(2)] fw have es: "es = children p (files w)" and fw2: "files w2 = files w" by auto
    from mapE_Inl [OF sub(3) reads_walk [OF assms(1)]] obtain x v v' where
      x: "x \<in> set es" and fv: "files v = files w2"
      and run: "walk n visit (p @ [fst x]) (is_directory (snd x)) v = (Inl e, v')" by blast
    have "(p @ [fst x], snd x) \<in> set (files w)" using x unfolding es by (simp add: set_children [symmetric])
    from tree_depth_le [OF this] have "Suc (length p) \<le> tree_depth (files w)" by simp
    with Suc.prems(3) have "0 < n" and "tree_depth (files v) < length (p @ [fst x]) + n"
      using fv fw2 by simp_all
    from Suc.IH [OF run this] show ?thesis .
  qed
qed simp

lemma walk_dir_fuel:
  assumes "walk_dir (collect_file pre root) root w = (Inl e, w')"
  shows "\<not> errors_is e out_of_fuel"
proof -
  from assms consider "os_lstat root w = (Inl e, w')"
    | info w1 where "walk (Suc (tree_depth (files w1))) (collect_file pre root) root (is_directory info) w1 = (Inl e, w')"
    by (auto simp: walk_dir_def bindE_Inl)
  then show ?thesis
  proof cases
    case 1
    then show ?thesis using os_not_fuel(1) by blast
  next
    case 2
    show ?thesis by (rule walk_fuel [OF reads_collect_file collect_file_Inl 2]) auto
  qed
qed

lemma reads_walk_dir [quiet]: "reads_only (walk_dir (collect_file pre root) root)"
proof -
  have "reads_only (walk n (collect_file pre root) root b)" for n b
    by (rule reads_walk) (rule reads_collect_file)
  then have "reads_only (\<lambda>w. walk (f w) (collect_file pre root) root b w)" for f b
    unfolding reads_only_def by blast
  then show ?thesis unfolding walk_dir_def by (intro quiet)
qed

lemma reads_collect [quiet]: "reads_only (collect cwd dataDir configDir)"
  unfolding collect_def by (intro quiet)

text \<open>The walk over the two directories always ends: its fuel, the length of the longest path, is never
  used up.\<close>

theorem collect_ends:
  "fst (collect cwd dataDir configDir w) \<notin> Inl ` {e. errors_is e out_of_fuel}"
proof
  let ?f = "\<lambda>(pre, root). wrapE (''collect '' @ pre @ '' backup files'')
           (walk_dir (collect_file pre (resolve cwd root)) (resolve cwd root))"
  assume "fst (collect cwd dataDir configDir w) \<in> Inl ` {e. errors_is e out_of_fuel}"
  then obtain e w' where e: "errors_is e out_of_fuel" and c: "collect cwd dataDir configDir w = (Inl e, w')"
    by (metis (mono_tags) imageE mem_Collect_eq prod.collapse)
  from c have "mapE ?f [(''data'', dataDir), (''config'', configDir)] w = (Inl e, w')"
    unfolding collect_def bindE_Inl by auto
  then have "\<exists>x \<in> set [(''data'', dataDir), (''config'', configDir)]. \<exists>v v'. files v = files w \<and> ?f x v = (Inl e, v')"
    by (rule mapE_Inl) (intro quiet)
  then obtain x v v' where "?f x v = (Inl e, v')" by blast
  then obtain pre root where "?f (pre, root) v = (Inl e, v')" by (cases x) auto
  then obtain e' where "e = Wrap ((''collect '' @ pre @ '' backup files'') @ '': '') e' []"
    and "walk_dir (collect_file pre (resolve cwd root)) (resolve cwd root) v = (Inl e', v')"
    by (auto simp: wrapE_Inl)
  with walk_dir_fuel e show False by simp
qed

section \<open>What is collected\<close>

text \<open>Trees as a file system has them: one node at a path, every component a proper name.\<close>

definition wf_tree :: "fsys \<Rightarrow> bool" where
  "wf_tree f \<longleftrightarrow> distinct (map fst f) \<and> (\<forall>e \<in> set f. fst e \<noteq> [] \<and> list_all plain_segment (fst e))"

lemma wf_children:
  assumes "wf_tree f"
  shows "(c, n) \<in> set (children p f) \<longleftrightarrow> lookup f (p @ [c]) = Some n"
  using assms by (simp add: set_children lookup_def wf_tree_def)

lemma wf_lookup_plain: "wf_tree f \<Longrightarrow> lookup f p = Some n \<Longrightarrow> list_all plain_segment p"
  by (auto simp: wf_tree_def lookup_def split: if_splits dest!: map_of_SomeD)

lemma distinct_children:
  assumes "wf_tree f"
  shows "distinct (map fst (children p f))"
proof -
  let ?g = "filter (\<lambda>e. fst e \<noteq> [] \<and> butlast (fst e) = p) f"
  have "inj_on (last \<circ> fst) (set ?g)"
  proof (rule inj_onI)
    fix a b assume ab: "a \<in> set ?g" "b \<in> set ?g" and l: "(last \<circ> fst) a = (last \<circ> fst) b"
    then have "fst a = fst b"
      by simp (metis append_butlast_last_id)
    with ab assms show "a = b" by (auto simp: wf_tree_def distinct_map inj_on_def)
  qed
  moreover have "distinct ?g" using assms by (simp add: wf_tree_def distinct_map)
  ultimately have "distinct (map (last \<circ> fst) ?g)" by (simp add: distinct_map)
  then have "distinct (map fst (map (\<lambda>e. (last (fst e), snd e)) ?g))" by (simp add: comp_def)
  then show ?thesis unfolding children_def by (simp only: distinct_map_mset [OF mset_sort])
qed

definition file_entry :: "string \<Rightarrow> path \<Rightarrow> mode \<Rightarrow> string \<Rightarrow> entry" where
  "file_entry pre r m d =
     \<lparr>entry_name = join_with ''/'' (pre # r), entry_mode = m AND mode_0777, entry_data = d\<rparr>"

definition entries_at :: "string \<Rightarrow> path \<Rightarrow> fsys \<Rightarrow> path \<Rightarrow> entry list" where
  "entries_at pre root f p =
     (if p = root then []
      else case lookup f p of Some (Regular m d) \<Rightarrow> [file_entry pre (drop (length root) p) m d] | _ \<Rightarrow> [])"

definition reach :: "fsys \<Rightarrow> path \<Rightarrow> path \<Rightarrow> bool" where
  "reach f p r \<longleftrightarrow> (\<forall>q. prefix p q \<and> strict_prefix q (p @ r) \<longrightarrow> dir_at f q)"

lemma reach_Nil [simp]: "reach f p []"
  by (auto simp: reach_def strict_prefix_def)

lemma reach_Cons: "reach f p (c # r) \<longleftrightarrow> dir_at f p \<and> reach f (p @ [c]) r"
proof -
  have "prefix p q \<and> strict_prefix q (p @ c # r) \<longleftrightarrow> q = p \<or> prefix (p @ [c]) q \<and> strict_prefix q ((p @ [c]) @ r)" for q
    by (auto simp: strict_prefix_def prefix_def append_eq_Cons_conv Cons_eq_append_conv)
  then show ?thesis by (auto simp: reach_def)
qed

lemma archive_tops: "pre = ''data'' \<or> pre = ''config'' \<Longrightarrow> plain_segment pre"
  by (auto simp: plain_segment_def)

lemma split_archive_name:
  assumes "plain_segment pre" and "list_all plain_segment r"
  shows "split_on (CHR ''/'') (join_with ''/'' (pre # r)) = pre # r"
  by (rule split_join) (use assms in \<open>auto simp: list_all_iff plain_segment_def\<close>)

lemma collect_file_Inr:
  assumes run: "collect_file pre root p w = (Inr xs, w')" and wf: "wf_tree (files w)"
    and pre: "pre = ''data'' \<or> pre = ''config''"
  shows "xs = entries_at pre root (files w) p"
proof (cases "p = root")
  case True
  with run show ?thesis by (simp add: collect_file_def entries_at_def)
next
  case False
  let ?nm = "join_with ''/'' (pre # drop (length root) p)"
  from run [unfolded collect_file_def Let_def] False obtain info w1 where l: "os_lstat p w = (Inr info, w1)"
    and rest: "(if is_directory info then returnE []
        else if \<not> is_regular info then
          throwE (ErrText (''backup source contains unsupported file '' @ go_quote (path_str p)))
        else if \<not> safeArchivePath (path_Clean ?nm) then throwE (ErrText (''unsafe backup path '' @ go_quote (path_Clean ?nm)))
          else bindE (os_read_file p) (\<lambda>d.
            returnE [\<lparr>entry_name = path_Clean ?nm, entry_mode = node_mode info AND mode_0777, entry_data = d\<rparr>])) w1
      = (Inr xs, w')"
    by (auto simp: bindE_Inr)
  note info = os_lstat_Inr [OF l]
  show ?thesis
  proof (cases info)
    case (Directory m)
    with rest info False show ?thesis by (auto simp: entries_at_def)
  next
    case (Irregular m d)
    with rest show ?thesis by simp
  next
    case (Regular m d)
    have "list_all plain_segment p" using wf_lookup_plain [OF wf info(1)] .
    then have "list_all plain_segment (drop (length root) p)"
      by (auto simp: list_all_iff dest: in_set_dropD)
    with split_archive_name [OF archive_tops [OF pre]] archive_tops [OF pre]
    have clean: "path_Clean ?nm = ?nm" by (subst path_Clean_iff) auto
    from rest Regular obtain d' where rd: "os_read_file p w1 = (Inr d', w')"
      and xs: "xs = [\<lparr>entry_name = ?nm, entry_mode = m AND mode_0777, entry_data = d'\<rparr>]"
      by (auto simp: clean bindE_Inr split: if_splits)
    from os_read_file_Inr(1) [OF rd] info Regular have "d' = d" by auto
    with xs Regular info False show ?thesis by (simp add: entries_at_def file_entry_def)
  qed
qed

lemma distinct_concat_disjoint:
  "(\<And>x. x \<in> set xss \<Longrightarrow> distinct (map g x)) \<Longrightarrow>
   sorted_wrt (\<lambda>a b. g ` set a \<inter> g ` set b = {}) xss \<Longrightarrow> distinct (map g (concat xss))"
proof (induction xss)
  case (Cons x xss)
  have "g ` set x \<inter> g ` set (concat xss) = {}" using Cons.prems(2) by auto
  moreover have "distinct (map g (concat xss))" by (rule Cons.IH) (use Cons.prems in auto)
  moreover have "distinct (map g x)" using Cons.prems(1) by simp
  ultimately show ?case by simp
qed simp

lemma entries_at_name:
  assumes "g \<in> set (entries_at pre root f p)"
  shows "entry_name g = join_with ''/'' (pre # drop (length root) p)" and "lookup f p \<noteq> None"
proof -
  from assms obtain m d where "p \<noteq> root" and "lookup f p = Some (Regular m d)"
    and "g = file_entry pre (drop (length root) p) m d"
    by (cases "lookup f p"; cases "the (lookup f p)") (auto simp: entries_at_def split: if_splits)
  then show "entry_name g = join_with ''/'' (pre # drop (length root) p)" and "lookup f p \<noteq> None"
    by (auto simp: file_entry_def)
qed

lemma entries_at_path:
  assumes wf: "wf_tree f" and pre: "plain_segment pre"
    and g: "g \<in> set (entries_at pre root f (root @ r))" "h \<in> set (entries_at pre root f (root @ s))"
    and "entry_name g = entry_name h"
  shows "r = s"
proof -
  from g entries_at_name(2) obtain n n' where "lookup f (root @ r) = Some n" "lookup f (root @ s) = Some n'"
    by blast
  then have "list_all plain_segment r" "list_all plain_segment s"
    using wf_lookup_plain [OF wf] by (auto simp: list_all_iff)
  moreover have "join_with ''/'' (pre # r) = join_with ''/'' (pre # s)"
    using entries_at_name(1) [OF g(1)] entries_at_name(1) [OF g(2)] assms(5) by simp
  ultimately show ?thesis using split_archive_name [OF pre] by (metis list.inject)
qed

lemma walk_Inr:
  assumes wf: "wf_tree f" and pre: "pre = ''data'' \<or> pre = ''config''"
  shows "walk n (collect_file pre root) (root @ s) (is_directory nd) w = (Inr xs, w') \<Longrightarrow> files w = f \<Longrightarrow>
    lookup f (root @ s) = Some nd \<Longrightarrow>
    set xs = (\<Union>r \<in> {r. reach f (root @ s) r}. set (entries_at pre root f (root @ s @ r))) \<and>
    distinct (map entry_name xs)"
proof (induction n arbitrary: s nd w xs w')
  case (Suc n)
  let ?p = "root @ s"
  let ?E = "\<lambda>r. set (entries_at pre root f (root @ r))"
  from Suc.prems(1) obtain xs0 w1 where v: "collect_file pre root ?p w = (Inr xs0, w1)" by (auto simp: bindE_Inr)
  have xs0: "xs0 = entries_at pre root f ?p" using collect_file_Inr [OF v _ pre] wf Suc.prems(2) by simp
  have fw1: "files w1 = f" using reads_onlyD [OF reads_collect_file v] Suc.prems(2) by simp
  show ?case
  proof (cases "is_directory nd")
    case False
    then have nd: "\<not> dir_at f ?p" using Suc.prems(3) by (simp add: dir_at_def)
    have "reach f ?p r \<longleftrightarrow> r = []" for r using nd by (cases r) (auto simp: reach_Cons)
    moreover have "xs = xs0" using Suc.prems(1) v False by (auto simp: bindE_Inr)
    moreover have "distinct (map entry_name xs0)"
      unfolding xs0 entries_at_def by (auto split: option.split node.split)
    ultimately show ?thesis using xs0 by auto
  next
    case True
    then have pd: "dir_at f ?p" using Suc.prems(3) by (simp add: dir_at_def)
    let ?sub = "\<lambda>e. walk n (collect_file pre root) (?p @ [fst e]) (is_directory (snd e))"
    from Suc.prems(1) v True obtain es w2 yss where rd: "os_read_dir ?p w1 = (Inr es, w2)"
      and m: "mapE ?sub es w2 = (Inr yss, w')" and xs: "xs = xs0 @ concat yss"
      by (auto simp: bindE_Inr)
    have xs0': "xs0 = []" unfolding xs0 using True Suc.prems(3)
      by (auto simp: entries_at_def split: node.split)
    from os_read_dir_Inr [OF rd] fw1 have es: "es = children ?p f" and fw2: "files w2 = f" by auto
    have len: "length yss = length es"
      and each: "\<And>i. i < length es \<Longrightarrow> \<exists>u u'. files u = f \<and> ?sub (es ! i) u = (Inr (yss ! i), u')"
      using mapE_Inr_nth [OF m reads_walk [OF reads_collect_file]] fw2 by auto
    have child: "lookup f (root @ s @ [fst (es ! i)]) = Some (snd (es ! i))" if "i < length es" for i
      using wf_children [OF wf, of "fst (es ! i)" "snd (es ! i)" ?p] that es by simp
    have sub: "set (yss ! i) = (\<Union>r \<in> {r. reach f (root @ s @ [fst (es ! i)]) r}. ?E (s @ [fst (es ! i)] @ r)) \<and>
        distinct (map entry_name (yss ! i))" if i: "i < length es" for i
    proof -
      obtain u u' where "files u = f" and "?sub (es ! i) u = (Inr (yss ! i), u')" using each [OF i] by blast
      from Suc.IH [of "s @ [fst (es ! i)]" "snd (es ! i)" u "yss ! i" u'] this child [OF i]
      show ?thesis by simp
    qed
    have set_yss: "set xs = (\<Union>i < length es. set (yss ! i))"
    proof -
      have "set yss = {yss ! i | i. i < length es}" using len by (auto simp: set_conv_nth)
      then show ?thesis unfolding xs xs0' by auto
    qed
    have "g \<in> set xs \<longleftrightarrow> g \<in> (\<Union>r \<in> {r. reach f ?p r}. ?E (s @ r))" for g
    proof
      assume "g \<in> set xs"
      then obtain i where i: "i < length es" "g \<in> set (yss ! i)" unfolding set_yss by blast
      with sub obtain r where "reach f (root @ s @ [fst (es ! i)]) r" "g \<in> ?E (s @ [fst (es ! i)] @ r)" by blast
      with pd show "g \<in> (\<Union>r \<in> {r. reach f ?p r}. ?E (s @ r))"
        by (intro UN_I [of "fst (es ! i) # r"]) (auto simp: reach_Cons)
    next
      assume "g \<in> (\<Union>r \<in> {r. reach f ?p r}. ?E (s @ r))"
      then obtain r where r: "reach f ?p r" "g \<in> ?E (s @ r)" by blast
      have "r \<noteq> []" using r(2) xs0 xs0' by auto
      then obtain c r' where c: "r = c # r'" by (cases r) auto
      have rc: "reach f (?p @ [c]) r'" using r(1) c by (simp add: reach_Cons)
      have "lookup f (?p @ [c]) \<noteq> None"
      proof (cases r')
        case Nil
        then show ?thesis using entries_at_name(2) [OF r(2)] c by simp
      next
        case (Cons a r'')
        then have "dir_at f (?p @ [c])" using rc by (simp add: reach_Cons)
        then show ?thesis by (auto simp: dir_at_def split: option.splits)
      qed
      then obtain n' where "lookup f (?p @ [c]) = Some n'" by blast
      then have "(c, n') \<in> set es" using wf_children [OF wf] es by simp
      then obtain i where i: "i < length es" "es ! i = (c, n')" by (auto simp: in_set_conv_nth)
      then have "g \<in> set (yss ! i)" using sub [OF i(1)] rc r(2) c by auto
      with i(1) show "g \<in> set xs" unfolding set_yss by blast
    qed
    moreover have "distinct (map entry_name (concat yss))"
    proof (rule distinct_concat_disjoint)
      fix x assume "x \<in> set yss"
      then show "distinct (map entry_name x)" using sub len by (metis in_set_conv_nth)
    next
      show "sorted_wrt (\<lambda>a b. entry_name ` set a \<inter> entry_name ` set b = {}) yss"
        unfolding sorted_wrt_iff_nth_less
      proof (intro allI impI)
        fix i j assume ij: "i < j" "j < length yss"
        have ne: "fst (es ! i) \<noteq> fst (es ! j)"
          using distinct_children [OF wf, of ?p] ij len es nth_eq_iff_index_eq [of "map fst es" i j] by auto
        show "entry_name ` set (yss ! i) \<inter> entry_name ` set (yss ! j) = {}"
        proof (rule ccontr)
          assume "entry_name ` set (yss ! i) \<inter> entry_name ` set (yss ! j) \<noteq> {}"
          then obtain g h where gh: "g \<in> set (yss ! i)" "h \<in> set (yss ! j)" "entry_name g = entry_name h" by auto
          from gh(1) sub [of i] ij len obtain r where r: "g \<in> ?E (s @ [fst (es ! i)] @ r)" by auto
          from gh(2) sub [of j] ij len obtain t where t: "h \<in> ?E (s @ [fst (es ! j)] @ t)" by auto
          from entries_at_path [OF wf archive_tops [OF pre] r t gh(3)] ne show False by simp
        qed
      qed
    qed
    ultimately show ?thesis using xs xs0' by auto
  qed
qed simp

text \<open>A regular file below \<open>dir\<close>, reached through directories.\<close>

definition source_file :: "world \<Rightarrow> path \<Rightarrow> path \<Rightarrow> mode \<Rightarrow> string \<Rightarrow> bool" where
  "source_file w dir r m d \<longleftrightarrow> r \<noteq> [] \<and> reach (files w) dir r \<and> at w (dir @ r) = Some (Regular m d)"

lemma in_entries_at:
  "g \<in> set (entries_at pre root f (root @ r)) \<longleftrightarrow>
     r \<noteq> [] \<and> (\<exists>m d. lookup f (root @ r) = Some (Regular m d) \<and> g = file_entry pre r m d)"
  by (cases "lookup f (root @ r)"; cases "the (lookup f (root @ r))") (auto simp: entries_at_def)

lemma walk_dir_Inr:
  assumes "walk_dir (collect_file pre root) root w = (Inr xs, w')" and "wf_tree (files w)"
    and "pre = ''data'' \<or> pre = ''config''"
  shows "g \<in> set xs \<longleftrightarrow> (\<exists>r m d. source_file w root r m d \<and> g = file_entry pre r m d)"
    and "distinct (map entry_name xs)"
proof -
  from assms(1) obtain info w1 where l: "os_lstat root w = (Inr info, w1)"
    and k: "walk (Suc (tree_depth (files w1))) (collect_file pre root) root (is_directory info) w1 = (Inr xs, w')"
    by (auto simp: walk_dir_def bindE_Inr)
  note info = os_lstat_Inr [OF l]
  have "walk (Suc (tree_depth (files w1))) (collect_file pre root) (root @ []) (is_directory info) w1 = (Inr xs, w')"
    using k by simp
  from walk_Inr [OF assms(2,3) this] info
  have "set xs = (\<Union>r \<in> {r. reach (files w) root r}. set (entries_at pre root (files w) (root @ r))) \<and>
      distinct (map entry_name xs)" by simp
  then show "g \<in> set xs \<longleftrightarrow> (\<exists>r m d. source_file w root r m d \<and> g = file_entry pre r m d)"
    and "distinct (map entry_name xs)"
    by (auto simp: in_entries_at source_file_def)
qed

lemma source_file_plain: "source_file w dir r m d \<Longrightarrow> wf_tree (files w) \<Longrightarrow> list_all plain_segment r"
  by (auto simp: source_file_def dest: wf_lookup_plain)

lemma file_entry_name_inj:
  assumes "entry_name (file_entry pre r m d) = entry_name (file_entry pre' r' m' d')"
    and "plain_segment pre" and "plain_segment pre'" and "list_all plain_segment r" and "list_all plain_segment r'"
  shows "pre = pre' \<and> r = r'"
proof -
  have "join_with ''/'' (pre # r) = join_with ''/'' (pre' # r')"
    using assms(1) by (simp only: file_entry_def entry.select_convs)
  then have "split_on (CHR ''/'') (join_with ''/'' (pre # r)) = split_on (CHR ''/'') (join_with ''/'' (pre' # r'))"
    by (rule arg_cong)
  then have "pre # r = pre' # r'"
    by (simp only: split_archive_name [OF assms(2,4)] split_archive_name [OF assms(3,5)])
  then show ?thesis by simp
qed

lemma collect_Inr:
  assumes run: "collect cwd dataDir configDir w = (Inr es, w')" and wf: "wf_tree (files w)"
  shows "g \<in> set es \<longleftrightarrow>
      (\<exists>r m d. source_file w (resolve cwd dataDir) r m d \<and> g = file_entry ''data'' r m d) \<or>
      (\<exists>r m d. source_file w (resolve cwd configDir) r m d \<and> g = file_entry ''config'' r m d)"
    and "distinct (map entry_name es)" and "sorted (map entry_name es)"
proof -
  let ?D = "resolve cwd dataDir" and ?C = "resolve cwd configDir"
  from run obtain xs w1 ys w2 where d: "walk_dir (collect_file ''data'' ?D) ?D w = (Inr xs, w1)"
    and c: "walk_dir (collect_file ''config'' ?C) ?C w1 = (Inr ys, w2)" and es: "es = sort_key entry_name (xs @ ys)"
    by (auto simp: collect_def bindE_Inr)
  have f1: "files w1 = files w" using reads_onlyD [OF reads_walk_dir d] .
  then have sf: "source_file w1 = source_file w" by (simp add: source_file_def fun_eq_iff)
  note D = walk_dir_Inr [OF d wf] and C = walk_dir_Inr [OF c]
  have dxs: "g \<in> set xs \<longleftrightarrow> (\<exists>r m d. source_file w ?D r m d \<and> g = file_entry ''data'' r m d)" for g
    using D(1) by simp
  have cys: "g \<in> set ys \<longleftrightarrow> (\<exists>r m d. source_file w ?C r m d \<and> g = file_entry ''config'' r m d)" for g
    using C(1) wf f1 sf by simp
  show "g \<in> set es \<longleftrightarrow>
      (\<exists>r m d. source_file w ?D r m d \<and> g = file_entry ''data'' r m d) \<or>
      (\<exists>r m d. source_file w ?C r m d \<and> g = file_entry ''config'' r m d)"
    using dxs cys es by simp
  show "sorted (map entry_name es)" by (simp add: es)
  have "entry_name ` set xs \<inter> entry_name ` set ys = {}"
  proof (rule ccontr)
    assume "entry_name ` set xs \<inter> entry_name ` set ys \<noteq> {}"
    then obtain a b where ab: "a \<in> set xs" "b \<in> set ys" "entry_name a = entry_name b" by auto
    from ab(1) obtain r m x where a: "source_file w ?D r m x" "a = file_entry ''data'' r m x" unfolding dxs by blast
    from ab(2) obtain r' m' x' where b: "source_file w ?C r' m' x'" "b = file_entry ''config'' r' m' x'"
      unfolding cys by blast
    have p: "plain_segment ''data''" "plain_segment ''config''" using archive_tops by blast+
    have "''data'' = ''config'' \<and> r = r'"
      by (rule file_entry_name_inj [OF ab(3) [unfolded a(2) b(2)] p
            source_file_plain [OF a(1) wf] source_file_plain [OF b(1) wf]])
    then show False by simp
  qed
  moreover have "distinct (map entry_name xs)" "distinct (map entry_name ys)"
    using D(2) C(2) wf f1 by simp_all
  ultimately have "distinct (map entry_name (xs @ ys))" by simp
  then show "distinct (map entry_name es)" unfolding es by (simp only: distinct_map_mset [OF mset_sort])
qed

text \<open>C39. A backup misses nothing: when \<open>collect\<close> succeeds, its entries are exactly the regular files
  below the data directory and the configuration directory, each once, with its path, permission bits
  and content, and nothing was changed.\<close>

theorem collect_is_complete:
  assumes "collect cwd dataDir configDir w = (Inr es, w')" and "wf_tree (files w)"
  shows "(\<forall>g. g \<in> set es \<longleftrightarrow>
      (\<exists>r m d. source_file w (resolve cwd dataDir) r m d \<and> g = file_entry ''data'' r m d) \<or>
      (\<exists>r m d. source_file w (resolve cwd configDir) r m d \<and> g = file_entry ''config'' r m d)) \<and>
    distinct (map entry_name es) \<and> sorted (map entry_name es) \<and> files w' = files w"
  using collect_Inr [OF assms] reads_onlyD [OF reads_collect assms(1)] by blast

definition source_world :: world where
  "source_world =
     \<lparr>files =
        [([''srv''], Directory mode_0755), ([''srv'', ''data''], Directory mode_0700),
         ([''srv'', ''data'', ''pki''], Directory mode_0700),
         ([''srv'', ''data'', ''pki'', ''state.json''], Regular mode_0600 ''{}''),
         ([''srv'', ''config''], Directory mode_0700),
         ([''srv'', ''config'', ''ca.pass''], Regular 256 ''ca-secret'')],
      faults = [], rand = (\<lambda>i. i), umask = 63\<rparr>"

lemma source_world_wf: "wf_tree (files source_world)"
  by (simp add: wf_tree_def source_world_def plain_segment_def)

lemma source_world_collect:
  "\<exists>w'. collect [''srv''] ''data'' ''config'' source_world = (Inr (sort_key entry_name demo_entries), w')"
proof -
  have "fst (collect [''srv''] ''data'' ''config'' source_world) = Inr (sort_key entry_name demo_entries)"
    by code_simp
  then show ?thesis by (metis prod.collapse)
qed

theorem collect_is_complete_witness:
  "\<forall>g. g \<in> set (sort_key entry_name demo_entries) \<longleftrightarrow>
      (\<exists>r m d. source_file source_world (resolve [''srv''] ''data'') r m d \<and> g = file_entry ''data'' r m d) \<or>
      (\<exists>r m d. source_file source_world (resolve [''srv''] ''config'') r m d \<and> g = file_entry ''config'' r m d)"
proof -
  from source_world_collect obtain w' where
    "collect [''srv''] ''data'' ''config'' source_world = (Inr (sort_key entry_name demo_entries), w')" by blast
  from collect_is_complete [OF this source_world_wf] show ?thesis by blast
qed

end
