(* ===== verification/Backup_Restore.thy ===== *)
theory Backup_Restore
  imports Backup_Collect
begin

text \<open>
  What \<open>materialize\<close> writes: nothing outside its fresh temporary directory, and in it exactly
  the files of the entries.
\<close>

section \<open>More on system calls\<close>

lemma os_umask:
  "os_mkdir_all p m w = (r, w') \<Longrightarrow> umask w' = umask w"
  "os_write_file p d m w = (r, w') \<Longrightarrow> umask w' = umask w"
  "os_chmod p m w = (r, w') \<Longrightarrow> umask w' = umask w"
proof -
  have mk: "mkdirs ps m v = (s, v') \<Longrightarrow> umask v' = umask v" for ps v s v'
    by (induction ps arbitrary: v) (auto split: option.splits if_splits)
  show "os_mkdir_all p m w = (r, w') \<Longrightarrow> umask w' = umask w"
    unfolding os_mkdir_all_def by (erule syscall_cases) (auto simp: fault_def dest: mk)
  have st: "store_file p d m v = (s, v') \<Longrightarrow> umask v' = umask v" for d v s v'
    by (auto simp: store_file_def split: option.splits node.splits)
  show "os_write_file p d m w = (r, w') \<Longrightarrow> umask w' = umask w"
    unfolding os_write_file_def
    by (erule syscall_cases)
      (auto simp: fault_def bindE_def throwE_def split: if_splits prod.splits sum.splits dest: st)
  show "os_chmod p m w = (r, w') \<Longrightarrow> umask w' = umask w"
    unfolding os_chmod_def by (erule syscall_cases) (auto simp: fault_def split: sum.splits)
qed

lemma os_write_file_new:
  assumes "os_write_file p d m w = (Inr u, w')" and "p \<noteq> []"
  shows "at w p = None \<and> at w' = (at w)(p \<mapsto> Regular (m AND NOT (umask w)) d) \<or>
    (\<exists>m' d'. at w p = Some (Regular m' d'))"
  using assms unfolding os_write_file_def
  by (cases rule: syscall_cases)
    (auto simp: fault_def bindE_Inr store_file_def lookup_put_fun split: if_splits option.splits node.splits)

lemma create_temp_open:
  assumes "create_temp n dir pre suf w = (Inr p, w')"
  shows "q = dir \<or> strict_prefix q dir \<Longrightarrow> dir_at (files w) q" and "umask w' = umask w"
proof -
  have "blocked (files w) (dir @ [pre]) = None \<and> umask w' = umask w"
    using assms unfolding create_temp_def
    by (cases rule: syscall_cases)
      (auto simp: fault_def split: option.splits prod.splits sum.splits dest!: pick_name_props)
  then show "q = dir \<or> strict_prefix q dir \<Longrightarrow> dir_at (files w) q" and "umask w' = umask w"
    by (auto simp: blocked_None strict_prefix_def prefix_def)
qed

section \<open>Where an entry goes\<close>

lemma fold_path_step_plain: "list_all plain_segment segs \<Longrightarrow> fold path_step segs p = p @ segs"
  by (induction segs arbitrary: p) (auto simp: path_step_def plain_segment_def)

lemma join_path_segs:
  assumes "segs \<noteq> []" and "list_all plain_segment segs"
  shows "join_path t (join_with ''/'' segs) = t @ segs"
proof -
  have "split_on (CHR ''/'') (join_with ''/'' segs) = segs"
    by (rule split_join) (use assms in \<open>auto simp: list_all_iff plain_segment_def\<close>)
  then show ?thesis using fold_path_step_plain [OF assms(2)] by (simp add: join_path_def)
qed

text \<open>The components of an entry's path below \<open>pre\<close>.\<close>

definition entry_segs :: "string \<Rightarrow> entry \<Rightarrow> path \<Rightarrow> bool" where
  "entry_segs pre f segs \<longleftrightarrow> segs \<noteq> [] \<and> list_all plain_segment segs \<and> entry_name f = join_with ''/'' (pre # segs)"

lemma entry_segs_cases:
  assumes "archive_file (entry_name f)" and "pre = ''data'' \<or> pre = ''config''"
  shows "if has_prefix (entry_name f) (pre @ ''/'') then \<exists>segs. entry_segs pre f segs
    else \<not> (\<exists>segs. entry_segs pre f segs)"
proof -
  have "CHR ''/'' \<notin> set pre" using assms(2) by auto
  note top = has_prefix_top [OF this, of "entry_name f"]
  from assms(1) obtain tp segs where t: "tp = ''data'' \<or> tp = ''config''" "segs \<noteq> []" "list_all plain_segment segs"
    and n: "entry_name f = join_with ''/'' (tp # segs)"
    by (auto simp: archive_file_def)
  have sp: "split_on (CHR ''/'') (entry_name f) = tp # segs"
    unfolding n by (rule split_archive_name [OF archive_tops [OF t(1)] t(3)])
  have "entry_segs pre f s \<Longrightarrow> split_on (CHR ''/'') (entry_name f) = pre # s" for s
    using split_archive_name [OF archive_tops [OF assms(2)]] by (simp add: entry_segs_def)
  with top sp t n show ?thesis
    by (cases "pre = tp") (auto simp: entry_segs_def)
qed

lemma entry_segs_unique:
  assumes "entry_segs pre f segs" and "entry_segs pre g segs'" and "entry_name f = entry_name g"
    and "pre = ''data'' \<or> pre = ''config''"
  shows "segs = segs'"
proof -
  have "join_with ''/'' (pre # segs) = join_with ''/'' (pre # segs')"
    using assms(1,2,3) unfolding entry_segs_def by metis
  then have "split_on (CHR ''/'') (join_with ''/'' (pre # segs)) = split_on (CHR ''/'') (join_with ''/'' (pre # segs'))"
    by (rule arg_cong)
  moreover have "list_all plain_segment segs" "list_all plain_segment segs'"
    using assms(1,2) by (simp_all add: entry_segs_def)
  ultimately have "pre # segs = pre # segs'"
    by (simp only: split_archive_name [OF archive_tops [OF assms(4)]])
  then show ?thesis by simp
qed

lemma materialize_target:
  assumes "entry_segs pre f segs" and "pre = ''data'' \<or> pre = ''config''"
  shows "materialize_file t pre f =
    bindE (os_mkdir_all (t @ butlast segs) mode_0700) (\<lambda>_.
      os_write_file (t @ segs) (entry_data f) (entry_mode f AND mode_0777))"
proof -
  obtain s ss where segs: "segs = s # ss" using assms(1) by (cases segs) (auto simp: entry_segs_def)
  have n: "entry_name f = (pre @ ''/'') @ join_with ''/'' segs"
    using assms(1) segs by (simp add: entry_segs_def)
  have p: "has_prefix (entry_name f) (pre @ ''/'')" unfolding n by (simp add: has_prefix_iff)
  have "trim_prefix (entry_name f) (pre @ ''/'') = join_with ''/'' segs"
    using p unfolding trim_prefix_def by (simp only: n if_True append_eq_conv_conj) simp
  moreover have "join_path t (join_with ''/'' segs) = t @ segs"
    using assms(1) by (intro join_path_segs) (auto simp: entry_segs_def)
  moreover have "butlast (t @ segs) = t @ butlast segs" using segs by (simp add: butlast_append)
  ultimately show ?thesis using p by (simp add: materialize_file_def)
qed

section \<open>Writing the entries\<close>

text \<open>The temporary directory and everything on the way to it are directories.\<close>

definition opened :: "path \<Rightarrow> world \<Rightarrow> bool" where
  "opened t w \<longleftrightarrow> (\<forall>q. prefix q t \<longrightarrow> dir_at (files w) q)"

lemma openedD: "opened t w \<Longrightarrow> prefix q t \<Longrightarrow> at w q \<noteq> None"
  by (auto simp: opened_def dir_at_iff)

text \<open>The regular files below \<open>t\<close> are those of \<open>es\<close>.\<close>

definition holds :: "mode \<Rightarrow> path \<Rightarrow> string \<Rightarrow> entry list \<Rightarrow> world \<Rightarrow> bool" where
  "holds u t pre es w \<longleftrightarrow>
     (\<forall>r m d. at w (t @ r) = Some (Regular m d) \<longleftrightarrow>
        (\<exists>f \<in> set es. entry_segs pre f r \<and> m = entry_mode f AND mode_0777 AND NOT u \<and> d = entry_data f))"

lemma mkdir_below:
  assumes run: "os_mkdir_all (t @ s) m w = (r, w')" and op: "opened t w"
  shows "opened t w'" and "\<And>q. \<not> strict_prefix t q \<Longrightarrow> at w' q = at w q"
    and "\<And>q n. at w q = Some n \<Longrightarrow> at w' q = Some n"
    and "\<And>q. at w q = None \<Longrightarrow> at w' q = None \<or> dir_at (files w') q"
proof -
  note g = os_mkdir_all_grows [OF run]
  show same: "at w' q = at w q" if "\<not> strict_prefix t q" for q
  proof (cases "prefix q (t @ s)")
    case True
    with that have "prefix q t" by (auto simp: prefix_append strict_prefix_def)
    with openedD [OF op] have "at w q \<noteq> None" .
    with g [of q] show ?thesis by simp
  next
    case False
    have "changes {q. prefix q (t @ s)} (os_mkdir_all (t @ s) m)" by (intro footprint order_refl)
    from changesD [OF this run, of q] False show ?thesis by simp
  qed
  have "\<not> strict_prefix t q" if "prefix q t" for q
    using that by (auto simp: strict_prefix_def prefix_order.eq_iff)
  with op same show "opened t w'" by (simp add: opened_def dir_at_def)
  show "at w q = Some n \<Longrightarrow> at w' q = Some n" for q n using g [of q] by simp
  show "at w q = None \<Longrightarrow> at w' q = None \<or> dir_at (files w') q" for q using g [of q] by auto
qed

lemma materialize_file_changes:
  assumes run: "materialize_file t pre f w = (r, w')" and op: "opened t w"
    and af: "archive_file (entry_name f)" and pre: "pre = ''data'' \<or> pre = ''config''"
  shows "opened t w' \<and> umask w' = umask w \<and> (\<forall>q. \<not> strict_prefix t q \<longrightarrow> at w' q = at w q)"
proof (cases "has_prefix (entry_name f) (pre @ ''/'')")
  case False
  with run op show ?thesis by (simp add: materialize_file_def)
next
  case True
  with entry_segs_cases [OF af pre] obtain segs where s: "entry_segs pre f segs" by auto
  obtain r1 w1 where mk: "os_mkdir_all (t @ butlast segs) mode_0700 w = (r1, w1)" by force
  note m = mkdir_below [OF mk op]
  show ?thesis
  proof (cases r1)
    case (Inl e)
    with run mk have "w' = w1" unfolding materialize_target [OF s pre] by (simp add: bindE_def)
    with m(1,2) os_umask(1) [OF mk] show ?thesis by simp
  next
    case (Inr u)
    with run mk have wr: "os_write_file (t @ segs) (entry_data f) (entry_mode f AND mode_0777) w1 = (r, w')"
      unfolding materialize_target [OF s pre] by (simp add: bindE_def)
    have "segs \<noteq> []" using s by (simp add: entry_segs_def)
    then have out: "\<not> strict_prefix t q \<Longrightarrow> q \<noteq> t @ segs" for q by (auto simp: strict_prefix_def)
    have "changes {t @ segs} (os_write_file (t @ segs) (entry_data f) (entry_mode f AND mode_0777))"
      by (intro footprint) simp
    from changesD [OF this wr] out have same: "\<not> strict_prefix t q \<Longrightarrow> at w' q = at w1 q" for q by auto
    have "\<not> strict_prefix t q" if "prefix q t" for q
      using that by (auto simp: strict_prefix_def prefix_order.eq_iff)
    with m(1) same have "opened t w'" by (simp add: opened_def dir_at_def)
    with same m(2) os_umask(1) [OF mk] os_umask(2) [OF wr] show ?thesis by simp
  qed
qed

lemma materialize_all_changes:
  assumes "forE es (materialize_file t pre) w = (r, w')" and "opened t w"
    and "\<forall>f \<in> set es. archive_file (entry_name f)" and pre: "pre = ''data'' \<or> pre = ''config''"
  shows "opened t w' \<and> umask w' = umask w \<and> (\<forall>q. \<not> strict_prefix t q \<longrightarrow> at w' q = at w q)"
  using assms(1,2,3)
proof (induction es arbitrary: w)
  case (Cons f es)
  obtain r1 w1 where f: "materialize_file t pre f w = (r1, w1)" by force
  note step = materialize_file_changes [OF f Cons.prems(2) _ pre]
  show ?case
  proof (cases r1)
    case (Inl e)
    with Cons.prems f step show ?thesis by (simp add: bindE_def)
  next
    case (Inr u)
    with Cons.prems(1) f have rest: "forE es (materialize_file t pre) w1 = (r, w')" by (simp add: bindE_def)
    have s1: "opened t w1 \<and> umask w1 = umask w \<and> (\<forall>q. \<not> strict_prefix t q \<longrightarrow> at w1 q = at w q)"
      using step Cons.prems(3) by simp
    have "opened t w' \<and> umask w' = umask w1 \<and> (\<forall>q. \<not> strict_prefix t q \<longrightarrow> at w' q = at w1 q)"
      by (rule Cons.IH [OF rest]) (use s1 Cons.prems(3) in auto)
    with s1 show ?thesis by auto
  qed
qed simp

lemma materialize_all_holds:
  assumes "forE es (materialize_file t pre) w = (Inr u, w')" and "opened t w"
    and "\<forall>f \<in> set es. archive_file (entry_name f)" and pre: "pre = ''data'' \<or> pre = ''config''"
    and "distinct (map entry_name (done @ es))" and "holds (umask w) t pre done w"
  shows "holds (umask w) t pre (done @ es) w'"
  using assms(1,2,3,5,6)
proof (induction es arbitrary: w "done")
  case (Cons f es)
  from Cons.prems(1) obtain w1 where f: "materialize_file t pre f w = (Inr (), w1)"
    and rest: "forE es (materialize_file t pre) w1 = (Inr u, w')"
    by (auto simp: bindE_Inr)
  have af: "archive_file (entry_name f)" using Cons.prems(3) by simp
  note s1 = materialize_file_changes [OF f Cons.prems(2) af pre]
  have "holds (umask w) t pre (done @ [f]) w1"
  proof (cases "has_prefix (entry_name f) (pre @ ''/'')")
    case False
    with f have "w1 = w" by (simp add: materialize_file_def)
    moreover have "\<not> entry_segs pre f r" for r using entry_segs_cases [OF af pre] False by auto
    ultimately show ?thesis using Cons.prems(5) by (simp add: holds_def)
  next
    case True
    with entry_segs_cases [OF af pre] obtain segs where s: "entry_segs pre f segs" by auto
    from f obtain v where mk: "os_mkdir_all (t @ butlast segs) mode_0700 w = (Inr (), v)"
      and wr: "os_write_file (t @ segs) (entry_data f) (entry_mode f AND mode_0777) v = (Inr (), w1)"
      unfolding materialize_target [OF s pre] by (auto simp: bindE_Inr)
    note m = mkdir_below [OF mk Cons.prems(2)]
    have reg: "at v q = Some (Regular a b) \<longleftrightarrow> at w q = Some (Regular a b)" for q a b
    proof
      assume r: "at v q = Some (Regular a b)"
      show "at w q = Some (Regular a b)"
      proof (cases "at w q")
        case None
        with m(4) [of q] r show ?thesis by (auto simp: dir_at_def)
      next
        case (Some n)
        with m(3) [OF Some] r show ?thesis by simp
      qed
    qed (use m(3) in blast)
    have uv: "umask v = umask w" using os_umask(1) [OF mk] .
    have ne: "t @ segs \<noteq> []" using s by (simp add: entry_segs_def)
    have fresh: "\<not> entry_segs pre g segs" if "g \<in> set done" for g
    proof
      assume "entry_segs pre g segs"
      with s have "entry_name f = entry_name g" by (simp add: entry_segs_def)
      with that have "entry_name f \<in> entry_name ` set done" by (rule rev_image_eqI)
      with Cons.prems(4) show False by auto
    qed
    have "at w (t @ segs) \<noteq> Some (Regular a b)" for a b
      using Cons.prems(5) fresh unfolding holds_def by blast
    with os_write_file_new [OF wr ne] reg have
      w1: "at w1 = (at v)(t @ segs \<mapsto> Regular (entry_mode f AND mode_0777 AND NOT (umask w)) (entry_data f))"
      by (auto simp: uv and.assoc)
    have only: "entry_segs pre f r \<Longrightarrow> r = segs" for r
      using entry_segs_unique [OF _ s _ pre] by blast
    show ?thesis
      unfolding holds_def
    proof (intro allI)
      fix r a b
      let ?like = "\<lambda>g. a = entry_mode g AND mode_0777 AND NOT (umask w) \<and> b = entry_data g"
      show "at w1 (t @ r) = Some (Regular a b) \<longleftrightarrow> (\<exists>g \<in> set (done @ [f]). entry_segs pre g r \<and> ?like g)"
      proof (cases "r = segs")
        case True
        then have "at w1 (t @ r) = Some (Regular a b) \<longleftrightarrow> ?like f" by (auto simp: w1)
        moreover have "(\<exists>g \<in> set (done @ [f]). entry_segs pre g r \<and> ?like g) \<longleftrightarrow> ?like f"
          using True fresh s by auto
        ultimately show ?thesis by (simp only:)
      next
        case False
        then have "at w1 (t @ r) = Some (Regular a b) \<longleftrightarrow> at w (t @ r) = Some (Regular a b)" by (simp add: w1 reg)
        moreover have "\<not> entry_segs pre f r" using False only by blast
        ultimately show ?thesis using Cons.prems(5) unfolding holds_def by simp
      qed
    qed
  qed
  with s1 have h1: "holds (umask w1) t pre (done @ [f]) w1" by simp
  have "holds (umask w1) t pre ((done @ [f]) @ es) w'"
    by (rule Cons.IH [OF rest]) (use s1 h1 Cons.prems in auto)
  with s1 show ?case by simp
qed simp

section \<open>A whole directory\<close>

abbreviation restore_pre :: string where
  "restore_pre \<equiv> ''.certarium-restore-''"

lemma prefix_mkdir_grows:
  assumes "os_mkdir_all p m w = (r, w')" and "\<not> prefix q p"
  shows "at w' q = at w q"
proof -
  have "changes {q. prefix q p} (os_mkdir_all p m)" by (intro footprint order_refl)
  from changesD [OF this assms(1), of q] assms(2) show ?thesis by simp
qed

text \<open>Outside the temporary names, \<open>materialize\<close> at most adds directories on the way to
  \<open>parent\<close>.\<close>

definition only_grown :: "path \<Rightarrow> world \<Rightarrow> world \<Rightarrow> bool" where
  "only_grown parent w w' \<longleftrightarrow>
     (\<forall>q. q \<notin> scratch parent restore_pre [] \<longrightarrow>
        at w' q = at w q \<or> prefix q parent \<and> at w q = None \<and> dir_at (files w') q)"

text \<open>No file hides below a name the temporary directory may take.\<close>

definition no_strays :: "path \<Rightarrow> world \<Rightarrow> bool" where
  "no_strays parent w \<longleftrightarrow>
     (\<forall>t s m d. temp_name parent restore_pre [] t \<longrightarrow> at w t = None \<longrightarrow> at w (t @ s) \<noteq> Some (Regular m d))"

lemma opened_keep: "opened t w \<Longrightarrow> (\<And>q. prefix q t \<Longrightarrow> at w' q = at w q) \<Longrightarrow> opened t w'"
  by (simp add: opened_def dir_at_def)

lemma only_grownI:
  assumes "\<And>q. \<not> prefix t q \<Longrightarrow> at w' q = at w1 q" and "temp_name parent restore_pre [] t"
    and "\<And>q. at w1 q = at w q \<or> prefix q parent \<and> at w q = None \<and> dir_at (files w1) q"
  shows "only_grown parent w w'"
  unfolding only_grown_def
proof (intro allI impI)
  fix q assume "q \<notin> scratch parent restore_pre []"
  then have "\<not> prefix t q" using assms(2) by auto
  from assms(1) [OF this] assms(3) [of q]
  show "at w' q = at w q \<or> prefix q parent \<and> at w q = None \<and> dir_at (files w') q" by (auto simp: dir_at_def)
qed

definition made :: "path \<Rightarrow> string \<Rightarrow> entry list \<Rightarrow> world \<Rightarrow> world \<Rightarrow> path \<Rightarrow> bool" where
  "made parent pre es w w' t \<longleftrightarrow>
     temp_name parent restore_pre [] t \<and> at w t = None \<and> opened t w' \<and> umask w' = umask w \<and>
     (\<forall>q. \<not> prefix t q \<longrightarrow> at w' q = at w q \<or> prefix q parent \<and> at w q = None \<and> dir_at (files w') q) \<and>
     (no_strays parent w \<longrightarrow> distinct (map entry_name es) \<longrightarrow> holds (umask w) t pre es w')"

lemma materialize_result:
  assumes run: "materialize parent pre es w = (r, w')" and af: "\<forall>f \<in> set es. archive_file (entry_name f)"
    and pre: "pre = ''data'' \<or> pre = ''config''"
  shows "only_grown parent w w' \<and> (\<forall>t. r = Inr t \<longrightarrow> made parent pre es w w' t)"
proof -
  obtain r1 w1 where mk: "os_mkdir_all parent mode_0700 w = (r1, w1)" by force
  have g1: "at w1 q = at w q \<or> prefix q parent \<and> at w q = None \<and> dir_at (files w1) q" for q
    using os_mkdir_all_grows [OF mk, of q] prefix_mkdir_grows [OF mk, of q] by auto
  have u1: "umask w1 = umask w" using os_umask(1) [OF mk] .
  show ?thesis
  proof (cases r1)
    case (Inl e)
    with run mk have "r = Inl e" "w' = w1" by (auto simp: materialize_def bindE_def)
    with g1 show ?thesis by (auto simp: only_grown_def)
  next
    case r1: (Inr u)
    obtain r2 w2 where tmp: "os_mkdir_temp parent restore_pre w1 = (r2, w2)" by force
    show ?thesis
    proof (cases r2)
      case (Inl e)
      with tmp have "create_temp (Directory mode_0700) parent restore_pre [] w1 = (Inl e, w2)"
        by (simp add: os_mkdir_temp_def)
      from create_temp_Inl [OF this] have "files w2 = files w1" .
      moreover have "r = Inl e" "w' = w2" using run mk r1 tmp Inl by (auto simp: materialize_def bindE_def)
      ultimately show ?thesis using g1 by (auto simp: only_grown_def dir_at_def)
    next
      case (Inr t)
      note c = create_temp_Inr [OF tmp [unfolded Inr os_mkdir_temp_def]]
        and op = create_temp_open [OF tmp [unfolded Inr os_mkdir_temp_def]]
      have t: "t \<noteq> []" "butlast t = parent" using temp_name_parts [OF c(1)] by auto
      from c(3) obtain m where w2: "at w2 = (at w1)(t \<mapsto> Directory m)" by auto
      have opened2: "opened t w2"
        unfolding opened_def
      proof (intro allI impI)
        fix q assume q: "prefix q t"
        show "dir_at (files w2) q"
        proof (cases "q = t")
          case False
          with q have "prefix q parent" using t by (metis append_butlast_last_id prefix_snoc)
          with op(1) [of q] False show ?thesis by (auto simp: w2 dir_at_def strict_prefix_def)
        qed (simp add: w2 dir_at_def)
      qed
      let ?fill = "bindE (os_chmod t mode_0700) (\<lambda>_. forE es (materialize_file t pre))"
      obtain r3 w3 where ch: "os_chmod t mode_0700 w2 = (r3, w3)" by force
      have cht: "changes {t} (os_chmod t mode_0700)" by (intro footprint) simp
      have rm: "changes (below t) (os_remove_all t)" by (intro footprint order_refl)
      obtain r5 w5 where fill: "?fill w2 = (r5, w5)" by force
      have fin: "w' = (case r5 of Inl e \<Rightarrow> snd (os_remove_all t w5) | Inr x \<Rightarrow> w5)"
        "r = (case r5 of Inl e \<Rightarrow> Inl e | Inr x \<Rightarrow> Inr t)"
        using run mk r1 tmp Inr fill
        by (auto simp: materialize_def bindE_def onErrorE_def returnE_def split: sum.splits)
      have w5: "(\<forall>q. \<not> prefix t q \<longrightarrow> at w5 q = at w1 q) \<and>
        (\<forall>x. r5 = Inr x \<longrightarrow> opened t w5 \<and> umask w5 = umask w \<and>
          (no_strays parent w \<longrightarrow> distinct (map entry_name es) \<longrightarrow> holds (umask w) t pre es w5))"
      proof (cases r3)
        case (Inl e)
        with fill ch have "r5 = Inl e" "w5 = w3" by (auto simp: bindE_def)
        with changesD [OF cht ch] show ?thesis by (auto simp: w2)
      next
        case (Inr v)
        with fill ch have rest: "forE es (materialize_file t pre) w3 = (r5, w5)" by (simp add: bindE_def)
        from os_chmod_Inr [OF ch [unfolded Inr]] t(1) have w3: "at w3 = (at w2)(t \<mapsto> Directory mode_0700)"
          by (auto simp: w2)
        have op3: "opened t w3" using opened2 by (auto simp: opened_def w3 dir_at_def)
        have u3: "umask w3 = umask w" using os_umask(3) [OF ch] op(2) u1 by simp
        note step = materialize_all_changes [OF rest op3 af pre]
        have "at w5 q = at w1 q" if "\<not> prefix t q" for q
          using step that by (auto simp: w3 w2 strict_prefix_def)
        moreover have "holds (umask w) t pre es w5"
          if ns: "no_strays parent w" and d: "distinct (map entry_name es)" and ok: "r5 = Inr x" for x
        proof -
          have "at w t = None" using g1 [of t] c(2) by (auto simp: dir_at_def)
          then have "at w (t @ s) \<noteq> Some (Regular a b)" for s a b
            using ns c(1) unfolding no_strays_def by blast
          then have "at w1 (t @ s) \<noteq> Some (Regular a b)" for s a b
            using g1 [of "t @ s"] by (auto simp: dir_at_def)
          then have "holds (umask w3) t pre [] w3" by (simp add: holds_def w3 w2)
          from materialize_all_holds [OF rest [unfolded ok] op3 af pre _ this] d u3 show ?thesis by simp
        qed
        ultimately show ?thesis using step u3 by simp
      qed
      have same: "at w' q = at w1 q" if "\<not> prefix t q" for q
        using w5 that fin(1) rm unfolding changes_def by (cases r5) auto
      have grown: "only_grown parent w w'" by (rule only_grownI [OF same c(1) g1])
      have "made parent pre es w w' t'" if "r = Inr t'" for t'
      proof -
        from that fin obtain x where x: "r5 = Inr x" "t' = t" "w' = w5" by (cases r5) auto
        have "at w t = None" using g1 [of t] c(2) by (auto simp: dir_at_def)
        moreover have "at w' q = at w q \<or> prefix q parent \<and> at w q = None \<and> dir_at (files w') q"
          if "\<not> prefix t q" for q
          using same [OF that] g1 [of q] by (auto simp: dir_at_def)
        ultimately show ?thesis using w5 x c(1) unfolding made_def by blast
      qed
      with grown show ?thesis by blast
    qed
  qed
qed

end
