(* ===== verification/Backup_Publish.thy ===== *)
theory Backup_Publish
  imports Backup_Restore
begin

text \<open>
  What \<open>publish\<close> does to the destinations: on success each is the temporary directory made for
  it; on failure what stood there is still there, or under its side name.
\<close>

section \<open>Destinations and their side names\<close>

definition side :: "path \<Rightarrow> string \<Rightarrow> int \<Rightarrow> path" where
  "side cwd d n = resolve cwd (d @ ''.before-restore-'' @ itoa n)"

text \<open>What belongs to a destination: the trees at it and at its side names.\<close>

definition region :: "path \<Rightarrow> string \<Rightarrow> path set" where
  "region cwd d = below (resolve cwd d) \<union> (\<Union>n. below (side cwd d n))"

definition entry_base :: "string \<Rightarrow> string" where
  "entry_base d = last (split_on (CHR ''/'') d)"

lemma itoa_no_slash: "CHR ''/'' \<notin> set (itoa n)"
proof -
  have "CHR ''/'' \<notin> set (dec k)" for k
    using dec_char [of "CHR ''/''" k] by (auto simp: is_digit_def code_def)
  then show ?thesis by (simp add: itoa_def)
qed

lemma destination_paths:
  assumes "names_entry d"
  shows "resolve cwd d = dir_of cwd d @ [entry_base d]"
    and "side cwd d n = dir_of cwd d @ [entry_base d @ ''.before-restore-'' @ itoa n]"
proof -
  show "resolve cwd d = dir_of cwd d @ [entry_base d]"
    using resolve_names_entry(1) [OF assms] by (simp add: entry_base_def)
  have "CHR ''/'' \<notin> set (''.before-restore-'' @ itoa n)" using itoa_no_slash by simp
  moreover have "plain_segment (entry_base d @ ''.before-restore-'' @ itoa n)"
    using assms itoa_no_slash [of n] by (auto simp: names_entry_def plain_segment_def entry_base_def)
  ultimately show "side cwd d n = dir_of cwd d @ [entry_base d @ ''.before-restore-'' @ itoa n]"
    unfolding side_def entry_base_def by (intro resolve_names_entry(2) assms) auto
qed

lemma side_apart:
  assumes "names_entry d"
  shows "side cwd d n \<noteq> resolve cwd d" and "\<not> prefix (side cwd d n) (resolve cwd d @ s)"
    and "\<not> prefix (resolve cwd d) (side cwd d n @ s)"
  by (simp_all add: destination_paths [OF assms])

lemma side_below:
  assumes "names_entry d"
  shows "below (side cwd d n) \<inter> below (resolve cwd d) = {}"
proof (rule ccontr)
  assume "below (side cwd d n) \<inter> below (resolve cwd d) \<noteq> {}"
  then obtain q where "prefix (side cwd d n) q" "prefix (resolve cwd d) q" by auto
  then have "prefix (side cwd d n) (resolve cwd d) \<or> prefix (resolve cwd d) (side cwd d n)"
    by (rule prefix_same_cases)
  then show False using side_apart(2,3) [OF assms, of cwd n "[]"] by simp
qed

lemma in_region [simp]: "resolve cwd d @ s \<in> region cwd d" "side cwd d n @ s \<in> region cwd d"
proof -
  show "resolve cwd d @ s \<in> region cwd d" by (simp add: region_def)
  show "side cwd d n @ s \<in> region cwd d" unfolding region_def
    by (rule UnI2, rule UN_I [OF UNIV_I [of n]]) simp
qed

lemma region_parts: "below (resolve cwd d) \<subseteq> region cwd d" "below (side cwd d n) \<subseteq> region cwd d"
  by (auto simp: region_def)

lemma region_up: "p \<in> region cwd d \<Longrightarrow> prefix p q \<Longrightarrow> q \<in> region cwd d"
  by (auto simp: region_def intro: prefix_order.trans)

lemma region_parent:
  assumes "names_entry d" and "prefix q (dir_of cwd d)"
  shows "q \<notin> region cwd d"
proof
  assume "q \<in> region cwd d"
  then have "length (dir_of cwd d) < length q"
    by (auto simp: region_def destination_paths [OF assms(1)] dest: prefix_length_le)
  with prefix_length_le [OF assms(2)] show False by simp
qed

section \<open>Rolling undone\<close>

definition same_tree :: "path \<Rightarrow> world \<Rightarrow> path \<Rightarrow> world \<Rightarrow> bool" where
  "same_tree p w q w' \<longleftrightarrow> (\<forall>s. at w' (q @ s) = at w (p @ s))"

text \<open>What stood at \<open>d\<close> in \<open>w0\<close> is in \<open>w\<close>, there or at a side name.\<close>

definition kept :: "path \<Rightarrow> world \<Rightarrow> string \<Rightarrow> world \<Rightarrow> bool" where
  "kept cwd w0 d w \<longleftrightarrow>
     at w0 (resolve cwd d) = None \<or> same_tree (resolve cwd d) w0 (resolve cwd d) w \<or>
     (\<exists>n. same_tree (resolve cwd d) w0 (side cwd d n) w)"

definition tracked :: "path \<Rightarrow> world \<Rightarrow> publication \<Rightarrow> world \<Rightarrow> bool" where
  "tracked cwd w0 i w \<longleftrightarrow>
     (if old i = [] then kept cwd w0 (destination i) w
      else \<exists>n. old i = destination i @ ''.before-restore-'' @ itoa n \<and>
        same_tree (resolve cwd (destination i)) w0 (side cwd (destination i) n) w)"

definition agree :: "path set \<Rightarrow> world \<Rightarrow> world \<Rightarrow> bool" where
  "agree A w w' \<longleftrightarrow> (\<forall>q \<in> A. at w' q = at w q)"

lemma agreeD: "agree A w w' \<Longrightarrow> q \<in> A \<Longrightarrow> at w' q = at w q"
  by (simp add: agree_def)

lemma agree_mono: "agree A w w' \<Longrightarrow> B \<subseteq> A \<Longrightarrow> agree B w w'"
  by (auto simp: agree_def)

lemma agree_trans: "agree A w w' \<Longrightarrow> agree A w' w'' \<Longrightarrow> agree A w w''"
  by (simp add: agree_def)

lemma agree_changes: "changes A m \<Longrightarrow> m w = (r, w') \<Longrightarrow> A \<inter> B = {} \<Longrightarrow> agree B w w'"
  unfolding agree_def by (metis changesD disjoint_iff)

lemma same_tree_region:
  assumes "agree (region cwd d) w w'"
  shows "same_tree p w0 (resolve cwd d) w' = same_tree p w0 (resolve cwd d) w"
    and "same_tree p w0 (side cwd d n) w' = same_tree p w0 (side cwd d n) w"
  using agreeD [OF assms in_region(1)] agreeD [OF assms in_region(2)] by (simp_all add: same_tree_def)

lemma kept_region: "agree (region cwd d) w w' \<Longrightarrow> kept cwd w0 d w' = kept cwd w0 d w"
  unfolding kept_def by (simp only: same_tree_region)

lemma tracked_region:
  assumes "agree (region cwd (destination i)) w w'"
  shows "tracked cwd w0 i w' = tracked cwd w0 i w"
  unfolding tracked_def by (simp only: same_tree_region [OF assms] kept_region [OF assms])

lemma tracked_kept: "tracked cwd w0 i w \<Longrightarrow> kept cwd w0 (destination i) w"
  by (auto simp: tracked_def kept_def split: if_splits)

definition undo :: "path \<Rightarrow> publication \<Rightarrow> unit io" where
  "undo cwd i =
     (if old i = [] then returnE ()
      else
        bindE (tryE (os_remove_all (resolve cwd (destination i)))) (\<lambda>_.
        bindE (tryE (os_rename (resolve cwd (old i)) (resolve cwd (destination i)))) (\<lambda>_.
        returnE ())))"

lemma rollback_undo: "rollback cwd items n = forE (rev (take n items)) (undo cwd)"
  by (simp add: rollback_def undo_def [abs_def])

definition proper :: "path \<Rightarrow> publication \<Rightarrow> bool" where
  "proper cwd i \<longleftrightarrow> names_entry (destination i) \<and>
     (old i = [] \<or> (\<exists>n. old i = destination i @ ''.before-restore-'' @ itoa n))"

lemma changes_undo: "proper cwd i \<Longrightarrow> changes (region cwd (destination i)) (undo cwd i)"
proof (cases "old i = []")
  case False
  assume "proper cwd i"
  with False obtain n where "old i = destination i @ ''.before-restore-'' @ itoa n" by (auto simp: proper_def)
  then have "resolve cwd (old i) = side cwd (destination i) n" by (simp add: side_def)
  with False show ?thesis unfolding undo_def using region_parts [of cwd "destination i"]
    by (simp, intro footprint) auto
qed (simp add: undo_def changes_returnE)

lemma undo_kept:
  assumes run: "undo cwd i w = (r, w')" and tr: "tracked cwd w0 i w" and ne: "names_entry (destination i)"
  shows "kept cwd w0 (destination i) w'" and "r = Inr ()"
proof -
  have "kept cwd w0 (destination i) w' \<and> r = Inr ()"
  proof (cases "old i = []")
    case True
    with run tr show ?thesis by (simp add: undo_def tracked_kept)
  next
    case False
    let ?D = "resolve cwd (destination i)"
    from tr False obtain n where o: "old i = destination i @ ''.before-restore-'' @ itoa n"
      and same: "same_tree ?D w0 (side cwd (destination i) n) w" by (auto simp: tracked_def)
    have so: "resolve cwd (old i) = side cwd (destination i) n" by (simp add: o side_def)
    note apart = side_apart [OF ne, of cwd n]
    obtain r1 w1 where rm: "os_remove_all ?D w = (r1, w1)" by force
    obtain r2 w2 where rn: "os_rename (side cwd (destination i) n) ?D w1 = (r2, w2)" by force
    have "w' = w2" and r: "r = Inr ()"
      using run False rm rn by (auto simp: undo_def bindE_def tryE_def returnE_def so)
    have "changes (below ?D) (os_remove_all ?D)" by (intro footprint order_refl)
    from changesD [OF this rm] apart(3)
    have s1: "same_tree ?D w0 (side cwd (destination i) n) w1" using same by (simp add: same_tree_def)
    show ?thesis
    proof (cases r2)
      case (Inl e)
      with os_rename_Inl [of _ _ w1 e w2] rn have "files w2 = files w1" by simp
      with s1 \<open>w' = w2\<close> r show ?thesis by (auto simp: kept_def same_tree_def)
    next
      case (Inr u)
      from moved_target [OF os_rename_moved [OF rn [unfolded Inr] apart(1)]] s1
      have "same_tree ?D w0 ?D w2" by (simp add: same_tree_def)
      with \<open>w' = w2\<close> r show ?thesis by (simp add: kept_def)
    qed
  qed
  then show "kept cwd w0 (destination i) w'" and "r = Inr ()" by auto
qed

text \<open>Undoing some items keeps what stood at all of them.\<close>

definition regions :: "path \<Rightarrow> publication list \<Rightarrow> path set" where
  "regions cwd ys = (\<Union>i \<in> set ys. region cwd (destination i))"

definition separate :: "path \<Rightarrow> publication list \<Rightarrow> bool" where
  "separate cwd ys \<longleftrightarrow> sorted_wrt (\<lambda>i j. region cwd (destination i) \<inter> region cwd (destination j) = {}) ys"

lemma regions_simps [simp]:
  "regions cwd [] = {}" "regions cwd (i # ys) = region cwd (destination i) \<union> regions cwd ys"
  "regions cwd (xs @ ys) = regions cwd xs \<union> regions cwd ys" "regions cwd (rev ys) = regions cwd ys"
  by (auto simp: regions_def)

lemma separate_Cons: "separate cwd (i # ys) \<longleftrightarrow> region cwd (destination i) \<inter> regions cwd ys = {} \<and> separate cwd ys"
  by (auto simp: separate_def regions_def)

lemma region_in_regions: "i \<in> set ys \<Longrightarrow> region cwd (destination i) \<subseteq> regions cwd ys"
  by (auto simp: regions_def)

lemma undo_all_kept:
  assumes "forE ys (undo cwd) w = (r, w')" and "\<forall>i \<in> set ys. proper cwd i \<and> tracked cwd w0 i w"
    and "separate cwd ys"
  shows "(\<forall>i \<in> set ys. kept cwd w0 (destination i) w') \<and> (\<forall>B. B \<inter> regions cwd ys = {} \<longrightarrow> agree B w w')"
  using assms
proof (induction ys arbitrary: w)
  case Nil
  then show ?case by (simp add: agree_def)
next
  case (Cons i ys)
  obtain r1 w1 where u: "undo cwd i w = (r1, w1)" by force
  have pi: "proper cwd i" "tracked cwd w0 i w" "names_entry (destination i)"
    using Cons.prems(2) by (auto simp: proper_def)
  note k = undo_kept [OF u pi(2,3)]
  have ch: "region cwd (destination i) \<inter> B = {} \<Longrightarrow> agree B w w1" for B
    by (rule agree_changes [OF changes_undo [OF pi(1)] u])
  have rest: "forE ys (undo cwd) w1 = (r, w')" using Cons.prems(1) u k(2) by (simp add: bindE_def)
  have dis: "region cwd (destination i) \<inter> regions cwd ys = {}" and sep: "separate cwd ys"
    using Cons.prems(3) by (simp_all add: separate_Cons)
  have "agree (region cwd (destination j)) w w1" if "j \<in> set ys" for j
    by (rule agree_mono [OF ch [OF dis] region_in_regions [OF that]])
  then have "\<forall>j \<in> set ys. proper cwd j \<and> tracked cwd w0 j w1"
    using Cons.prems(2) tracked_region by (metis list.set_intros(2))
  from Cons.IH [OF rest this sep]
  have IH: "\<forall>i \<in> set ys. kept cwd w0 (destination i) w'"
    and keep: "\<And>B. B \<inter> regions cwd ys = {} \<Longrightarrow> agree B w1 w'" by auto
  have "agree (region cwd (destination i)) w1 w'" by (rule keep [OF dis])
  then have "kept cwd w0 (destination i) w'" using k(1) kept_region by simp
  moreover have "agree B w w'" if "B \<inter> regions cwd (i # ys) = {}" for B
  proof (rule agree_trans)
    show "agree B w w1" by (rule ch) (use that in auto)
    show "agree B w1 w'" by (rule keep) (use that in auto)
  qed
  ultimately show ?case using IH by simp
qed

section \<open>One item\<close>

text \<open>What the layout of the paths must give: the ways to the destinations and the temporary
  directories stay clear of all regions.\<close>

definition way :: "path \<Rightarrow> publication \<Rightarrow> path set" where
  "way cwd i = {q. prefix q (dir_of cwd (destination i))}"

definition clear :: "path \<Rightarrow> publication list \<Rightarrow> publication \<Rightarrow> bool" where
  "clear cwd ys i \<longleftrightarrow>
     way cwd i \<inter> regions cwd ys = {} \<and> below (temp i) \<inter> regions cwd ys = {} \<and> way cwd i \<inter> below (temp i) = {}"

lemma os_rename_dir:
  assumes "os_rename src dst w = (Inr u, w')" and "dir_at (files w) src" and "src \<noteq> dst"
  shows "at w dst = None"
  using assms unfolding os_rename_def
  by (cases rule: syscall_cases)
    (auto simp: rename_files_def dir_at_def stat_Inr split: sum.splits option.splits if_splits)

text \<open>A failing item: it is rolled undone with the items before it.\<close>

lemma rollback_kept:
  assumes run: "rollback cwd items n w = (r, w')" and n: "n \<le> length items"
    and tr: "\<forall>i \<in> set items. proper cwd i \<and> tracked cwd w0 i w" and sep: "separate cwd items"
  shows "(\<forall>i \<in> set items. kept cwd w0 (destination i) w') \<and> (\<forall>B. B \<inter> regions cwd items = {} \<longrightarrow> agree B w w')"
proof -
  let ?ys = "rev (take n items)"
  have sub: "set ?ys \<subseteq> set items" by (auto dest: in_set_takeD)
  have split: "separate cwd (take n items)" "regions cwd (take n items) \<inter> regions cwd (drop n items) = {}"
  proof -
    have "separate cwd (take n items @ drop n items)" using sep by simp
    then show "separate cwd (take n items)" "regions cwd (take n items) \<inter> regions cwd (drop n items) = {}"
      unfolding separate_def sorted_wrt_append regions_def by blast+
  qed
  have "sorted_wrt (\<lambda>i j. region cwd (destination i) \<inter> region cwd (destination j) = {}) ?ys"
    using split(1) unfolding separate_def sorted_wrt_rev by (simp add: Int_commute)
  then have "separate cwd ?ys" by (simp add: separate_def)
  from undo_all_kept [OF run [unfolded rollback_undo] _ this] sub tr
  have k: "\<forall>i \<in> set ?ys. kept cwd w0 (destination i) w'"
    and a: "\<And>B. B \<inter> regions cwd ?ys = {} \<Longrightarrow> agree B w w'" by blast+
  have "kept cwd w0 (destination i) w'" if i: "i \<in> set items" for i
  proof (cases "i \<in> set (take n items)")
    case True
    with k show ?thesis by simp
  next
    case False
    with i have "i \<in> set (drop n items)" by (metis UnE append_take_drop_id set_append)
    with split(2) have "region cwd (destination i) \<inter> regions cwd ?ys = {}"
      using region_in_regions [of i "drop n items" cwd] by auto
    from kept_region [OF a [OF this]] tr i show ?thesis using tracked_kept by blast
  qed
  moreover have "regions cwd ?ys \<subseteq> regions cwd items" using sub by (auto simp: regions_def)
  ultimately show ?thesis using a by blast
qed

text \<open>What one round leaves, from a state in which the items before it are tracked and nothing has
  happened to its own destination.\<close>

definition item_ready :: "path \<Rightarrow> world \<Rightarrow> publication list \<Rightarrow> publication \<Rightarrow> world \<Rightarrow> bool" where
  "item_ready cwd w0 done item w \<longleftrightarrow>
     old item = [] \<and> names_entry (destination item) \<and> dir_at (files w) (temp item) \<and>
     agree (region cwd (destination item)) w0 w \<and> (\<forall>i \<in> set done. proper cwd i \<and> tracked cwd w0 i w) \<and>
     separate cwd (done @ [item]) \<and> clear cwd (done @ [item]) item"

definition reached :: "path \<Rightarrow> publication list \<Rightarrow> publication \<Rightarrow> path set" where
  "reached cwd done item = regions cwd (done @ [item]) \<union> below (temp item) \<union> way cwd item"

definition outside_same :: "path set \<Rightarrow> world \<Rightarrow> world \<Rightarrow> bool" where
  "outside_same Z w w' \<longleftrightarrow> (\<forall>q. q \<notin> Z \<longrightarrow> at w' q = at w q)"

definition item_outcome ::
    "path \<Rightarrow> world \<Rightarrow> publication list \<Rightarrow> publication \<Rightarrow> world \<Rightarrow> err + publication \<Rightarrow> world \<Rightarrow> bool" where
  "item_outcome cwd w0 done item w r w' \<longleftrightarrow>
     outside_same (reached cwd done item) w w' \<and>
     (case r of
        Inl e \<Rightarrow> \<forall>i \<in> set (done @ [item]). kept cwd w0 (destination i) w'
      | Inr x \<Rightarrow> destination x = destination item \<and> temp x = temp item \<and> proper cwd x \<and> tracked cwd w0 x w' \<and>
          same_tree (temp item) w (resolve cwd (destination item)) w' \<and> agree (regions cwd done) w w')"

lemma outside_same_trans: "outside_same Z w w' \<Longrightarrow> outside_same Z w' w'' \<Longrightarrow> outside_same Z w w''"
  by (simp add: outside_same_def)

lemma outside_same_mono: "outside_same Y w w' \<Longrightarrow> Y \<subseteq> Z \<Longrightarrow> outside_same Z w w'"
  by (auto simp: outside_same_def)

lemma outside_same_changes: "changes Y m \<Longrightarrow> m w = (r, w') \<Longrightarrow> outside_same Y w w'"
  unfolding outside_same_def by (metis changesD)

lemma outside_same_agree: "outside_same Z w w' \<Longrightarrow> Z \<inter> B = {} \<Longrightarrow> agree B w w'"
  by (auto simp: outside_same_def agree_def disjoint_iff)

lemma agree_files: "files w' = files w \<Longrightarrow> agree A w w'" "files w' = files w \<Longrightarrow> outside_same A w w'"
  by (simp_all add: agree_def outside_same_def)

lemma ready_parts:
  assumes "item_ready cwd w0 done item w"
  shows "names_entry (destination item)" "old item = []" "separate cwd (done @ [item])"
    "regions cwd done \<inter> region cwd (destination item) = {}"
    "way cwd item \<inter> regions cwd (done @ [item]) = {}" "way cwd item \<inter> below (temp item) = {}"
    "below (temp item) \<inter> regions cwd (done @ [item]) = {}" "proper cwd item"
proof -
  show "names_entry (destination item)" "old item = []" "separate cwd (done @ [item])"
    "way cwd item \<inter> regions cwd (done @ [item]) = {}" "way cwd item \<inter> below (temp item) = {}"
    "below (temp item) \<inter> regions cwd (done @ [item]) = {}" "proper cwd item"
    using assms by (simp_all add: item_ready_def clear_def proper_def)
  then show "regions cwd done \<inter> region cwd (destination item) = {}"
    by (auto simp: separate_def sorted_wrt_append regions_def)
qed

lemma ready_apart:
  assumes "item_ready cwd w0 done item w"
  shows "temp item \<noteq> resolve cwd (destination item)"
proof
  assume "temp item = resolve cwd (destination item)"
  then have "temp item \<in> region cwd (destination item)"
    using in_region(1) [of cwd "destination item" "[]"] by simp
  with ready_parts(7) [OF assms] show False by (auto simp: disjoint_iff)
qed

lemma ready_tracked:
  assumes "item_ready cwd w0 done item w"
  shows "agree (regions cwd done) w v \<Longrightarrow> \<forall>i \<in> set done. proper cwd i \<and> tracked cwd w0 i v"
    and "agree (region cwd (destination item)) w v \<Longrightarrow> tracked cwd w0 item v"
proof -
  assume a: "agree (regions cwd done) w v"
  show "\<forall>i \<in> set done. proper cwd i \<and> tracked cwd w0 i v"
  proof
    fix i assume i: "i \<in> set done"
    from tracked_region [OF agree_mono [OF a region_in_regions [OF i]]] i assms
    show "proper cwd i \<and> tracked cwd w0 i v" by (simp add: item_ready_def)
  qed
next
  assume a: "agree (region cwd (destination item)) w v"
  have "agree (region cwd (destination item)) w0 v"
    using assms a agree_trans unfolding item_ready_def by blast
  then have "same_tree (resolve cwd (destination item)) w0 (resolve cwd (destination item)) v"
    using agreeD [OF _ in_region(1)] by (simp add: same_tree_def)
  then show "tracked cwd w0 item v" using ready_parts(2) [OF assms] by (simp add: tracked_def kept_def)
qed

lemma roll_outcome:
  assumes ready: "item_ready cwd w0 done item w"
    and rb: "rollback cwd (done @ [x]) n v = (s, w')" and n: "n \<le> Suc (length done)"
    and x: "proper cwd x" "destination x = destination item" "tracked cwd w0 x v"
    and v: "agree (regions cwd done) w v" "outside_same (reached cwd done item) w v"
  shows "item_outcome cwd w0 done item w (Inl e) w'"
proof -
  have all: "\<forall>i \<in> set (done @ [x]). proper cwd i \<and> tracked cwd w0 i v"
    using ready_tracked(1) [OF ready v(1)] x by auto
  have same: "regions cwd (done @ [x]) = regions cwd (done @ [item])" using x(2) by simp
  have "separate cwd (done @ [x])"
    using ready_parts(3) [OF ready] x(2) by (simp add: separate_def sorted_wrt_append)
  from rollback_kept [OF rb _ all this] n
  have k: "\<forall>i \<in> set (done @ [x]). kept cwd w0 (destination i) w'"
    and a: "\<And>B. B \<inter> regions cwd (done @ [item]) = {} \<Longrightarrow> agree B v w'"
    unfolding same by auto
  have "outside_same (reached cwd done item) v w'"
    using a [of "- regions cwd (done @ [item])"] by (auto simp: outside_same_def agree_def reached_def)
  with outside_same_trans [OF v(2)] k x(2) show ?thesis by (simp add: item_outcome_def)
qed

text \<open>The last step: the temporary directory takes the destination's place.\<close>

lemma rename_outcome:
  assumes ready: "item_ready cwd w0 done item w"
    and run: "bindE (onErrorE (rollback cwd (done @ [x]) (Suc (length done)))
        (os_rename (temp x) (resolve cwd (destination x)))) (\<lambda>_. returnE x) v = (r, w')"
    and x: "destination x = destination item" "temp x = temp item" "proper cwd x" "tracked cwd w0 x v"
    and v: "agree (regions cwd done) w v" "agree (below (temp item)) w v" "outside_same (reached cwd done item) w v"
    and o: "old x = [] \<Longrightarrow> agree (region cwd (destination item)) w v"
  shows "item_outcome cwd w0 done item w r w'"
proof -
  let ?D = "resolve cwd (destination item)"
  note parts = ready_parts [OF ready] and apart = ready_apart [OF ready]
  obtain r3 w3 where rn: "os_rename (temp item) ?D v = (r3, w3)" by force
  show ?thesis
  proof (cases r3)
    case (Inl e)
    then have f3: "files w3 = files v" using os_rename_Inl rn by blast
    obtain s v' where rb: "rollback cwd (done @ [x]) (Suc (length done)) w3 = (s, v')" by force
    with run rn Inl x have res: "r = Inl e" "w' = v'" by (auto simp: bindE_def onErrorE_def)
    have "tracked cwd w0 x w3" using x(4) tracked_region [OF agree_files(1) [OF f3]] by simp
    with rb res x show ?thesis
      using roll_outcome [OF ready _ _ x(3,1) _ agree_trans [OF v(1) agree_files(1) [OF f3]]
          outside_same_trans [OF v(3) agree_files(2) [OF f3]]] by simp
  next
    case (Inr u)
    with run rn x have res: "r = Inr x" "w' = w3" by (auto simp: bindE_def onErrorE_def returnE_def)
    note mv = os_rename_moved [OF rn [unfolded Inr] apart]
    have out: "outside_same (below (temp item) \<union> below ?D) v w3"
      using moved_elsewhere [OF mv] unfolding outside_same_def by simp
    have st: "same_tree (temp item) w ?D w3"
      using moved_target [OF mv] agreeD [OF v(2)] by (simp add: same_tree_def)
    have tr: "tracked cwd w0 x w3"
    proof (cases "old x = []")
      case True
      have "at v (temp item) = at w (temp item)" using agreeD [OF v(2), of "temp item"] by simp
      then have "dir_at (files v) (temp item)" using ready by (simp add: dir_at_def item_ready_def)
      from os_rename_dir [OF rn [unfolded Inr] this apart] have "at v ?D = None" .
      moreover have "at v ?D = at w0 ?D"
        using agreeD [OF o [OF True] in_region(1), of "[]"] agreeD [OF _ in_region(1), of cwd "destination item" w0 w "[]"]
          ready by (simp add: item_ready_def)
      ultimately show ?thesis using True x by (simp add: tracked_def kept_def)
    next
      case False
      with x(4) obtain n where n: "old x = destination x @ ''.before-restore-'' @ itoa n"
        and t: "same_tree (resolve cwd (destination x)) w0 (side cwd (destination x) n) v"
        by (auto simp: tracked_def)
      have "(below (temp item) \<union> below ?D) \<inter> below (side cwd (destination item) n) = {}"
        using parts(7) region_parts(2) [of cwd "destination item" n] side_below [OF parts(1), of cwd n]
        by (auto simp: disjoint_iff)
      from outside_same_agree [OF out this] t x(1)
      have "same_tree (resolve cwd (destination x)) w0 (side cwd (destination x) n) w3"
        by (simp add: same_tree_def agree_def)
      with n False show ?thesis by (auto simp: tracked_def)
    qed
    have "(below (temp item) \<union> below ?D) \<inter> regions cwd done = {}"
      using parts(4,7) region_parts(1) [of cwd "destination item"] by auto
    then have "agree (regions cwd done) w w3" using agree_trans [OF v(1) outside_same_agree [OF out]] by blast
    moreover have "outside_same (reached cwd done item) v w3"
      using region_parts(1) [of cwd "destination item"] by (intro outside_same_mono [OF out]) (auto simp: reached_def)
    ultimately show ?thesis
      using res x st tr outside_same_trans [OF v(3)] by (simp add: item_outcome_def)
  qed
qed

lemma publish_item_outcome:
  assumes run: "publish_item cwd nano replace done item w = (r, w')" and ready: "item_ready cwd w0 done item w"
  shows "item_outcome cwd w0 done item w r w'"
proof -
  let ?D = "resolve cwd (destination item)"
  note parts = ready_parts [OF ready]
  obtain r1 w1 where mk: "os_mkdir_all (dir_of cwd (destination item)) mode_0700 w = (r1, w1)" by force
  have mkc: "changes (way cwd item) (os_mkdir_all (dir_of cwd (destination item)) mode_0700)"
    unfolding way_def by (intro footprint order_refl)
  obtain r2 w2 where ls: "os_lstat ?D w1 = (r2, w2)" by force
  have f2: "files w2 = files w1" using os_read_files(1) [OF ls] .
  have unhurt: "agree (regions cwd done) w v" "agree (region cwd (destination item)) w v"
    "agree (below (temp item)) w v" "outside_same (reached cwd done item) w v" "tracked cwd w0 item v"
    if "files v = files w1" for v
  proof -
    have o: "outside_same (way cwd item) w v"
      using outside_same_trans [OF outside_same_changes [OF mkc mk] agree_files(2) [OF that]] .
    show "agree (regions cwd done) w v" "agree (region cwd (destination item)) w v" "agree (below (temp item)) w v"
      by (rule outside_same_agree [OF o]; use parts(5,6) in auto)+
    then show "tracked cwd w0 item v" using ready_tracked(2) [OF ready] by blast
    show "outside_same (reached cwd done item) w v"
      by (rule outside_same_mono [OF o]) (auto simp: reached_def)
  qed
  have undone: "item_outcome cwd w0 done item w r w'" if "rollback cwd (done @ [item]) (length done) v = (s, w')" and "r = Inl e" and "files v = files w1" for v s e
    using roll_outcome [OF ready that(1) _ parts(8) refl unhurt(5,1,4) [OF that(3)]] that(2) by simp
  show ?thesis
  proof (cases r1)
    case (Inl e)
    obtain s v where rb: "rollback cwd (done @ [item]) (length done) w1 = (s, v)" by force
    with run mk Inl have "r = Inl e" "w' = v" by (auto simp: publish_item_def bindE_def onErrorE_def)
    with undone rb show ?thesis by blast
  next
    case r1: (Inr u1)
    show ?thesis
    proof (cases r2)
      case (Inl e)
      with run mk r1 ls have "bindE (onErrorE (rollback cwd (done @ [item]) (Suc (length done)))
          (os_rename (temp item) ?D)) (\<lambda>_. returnE item) w2 = (r, w')"
        by (simp add: publish_item_def bindE_def onErrorE_def tryE_def returnE_def)
      from rename_outcome [OF ready this refl refl parts(8) unhurt(5,1,3,4,2) [OF f2]] show ?thesis .
    next
      case r2: (Inr info)
      show ?thesis
      proof (cases replace)
        case False
        obtain s v where rb: "rollback cwd (done @ [item]) (length done) w2 = (s, v)" by force
        obtain e where "r = Inl e" "w' = v"
          using run mk r1 ls r2 False rb
          by (cases s) (auto simp: publish_item_def bindE_def onErrorE_def tryE_def throwE_def)
        with undone rb f2 show ?thesis by blast
      next
        case True
        let ?n = "nano (length done)"
        let ?x = "item\<lparr>old := destination item @ ''.before-restore-'' @ itoa ?n\<rparr>"
        have so: "resolve cwd (old ?x) = side cwd (destination item) ?n" by (simp add: side_def)
        obtain r3 w3 where rn: "os_rename ?D (side cwd (destination item) ?n) w2 = (r3, w3)" by force
        show ?thesis
        proof (cases r3)
          case (Inl e)
          then have f3: "files w3 = files w1" using os_rename_Inl rn f2 by fastforce
          obtain s v where rb: "rollback cwd (done @ [item]) (length done) w3 = (s, v)" by force
          have "rollback cwd (done @ [?x]) (length done) w3 = (s, v)" using rb by (simp add: rollback_undo)
          then have "r = Inl e" "w' = v"
            using run mk r1 ls r2 True rn Inl so
            by (auto simp: publish_item_def bindE_def tryE_def onErrorE_def Let_def)
          with undone rb f3 show ?thesis by blast
        next
          case (Inr u3)
          note mv = os_rename_moved [OF rn [unfolded Inr] side_apart(1) [OF parts(1), symmetric]]
          have out: "outside_same (below ?D \<union> below (side cwd (destination item) ?n)) w2 w3"
            using moved_elsewhere [OF mv] unfolding outside_same_def by simp
          have reg: "below ?D \<union> below (side cwd (destination item) ?n) \<subseteq> region cwd (destination item)"
            using region_parts by blast
          have "agree (region cwd (destination item)) w0 w2"
            using ready unhurt(2) [OF f2] agree_trans unfolding item_ready_def by blast
          then have "same_tree ?D w0 (side cwd (destination item) ?n) w3"
            using moved_target [OF mv] agreeD [OF _ in_region(1)] by (simp add: same_tree_def)
          then have tx: "tracked cwd w0 ?x w3" by (auto simp: tracked_def)
          have px: "proper cwd ?x" using parts(1) by (auto simp: proper_def)
          have step: "bindE (onErrorE (rollback cwd (done @ [?x]) (Suc (length done)))
              (os_rename (temp ?x) (resolve cwd (destination ?x)))) (\<lambda>_. returnE ?x) w3 = (r, w')"
            using run mk r1 ls r2 True rn Inr so
            by (simp add: publish_item_def bindE_def tryE_def onErrorE_def returnE_def Let_def)
          have d: "agree (regions cwd done) w w3"
            by (rule agree_trans [OF unhurt(1) [OF f2] outside_same_agree [OF out]]) (use reg parts(4) in blast)
          have t: "agree (below (temp item)) w w3"
            by (rule agree_trans [OF unhurt(3) [OF f2] outside_same_agree [OF out]]) (use reg parts(7) in auto)
          have z: "outside_same (reached cwd done item) w w3"
            by (rule outside_same_trans [OF unhurt(4) [OF f2] outside_same_mono [OF out]])
              (use reg in \<open>auto simp: reached_def\<close>)
          show ?thesis by (rule rename_outcome [OF ready step _ _ px tx d t z]) simp_all
        qed
      qed
    qed
  qed
qed

end
