(* ===== verification/Backup_Claims.thy ===== *)
theory Backup_Claims
  imports Backup_Publish
begin

text \<open>
  What \<open>Create\<close> and \<open>Restore\<close> promise: the artifact is the old or the new one, a
  restore installs exactly the files of the archive or keeps what stood at the destinations.
\<close>

section \<open>Publishing two directories\<close>

definition layout :: "path \<Rightarrow> publication \<Rightarrow> publication \<Rightarrow> bool" where
  "layout cwd i j \<longleftrightarrow>
     (\<forall>x \<in> {i, j}. old x = [] \<and> names_entry (destination x) \<and>
        (way cwd x \<union> below (temp x)) \<inter> regions cwd [i, j] = {} \<and>
        way cwd x \<inter> (below (temp i) \<union> below (temp j)) = {}) \<and>
     separate cwd [i, j] \<and> below (temp i) \<inter> below (temp j) = {}"

lemma dir_at_agree: "agree (below p) w w' \<Longrightarrow> dir_at (files w') p = dir_at (files w) p"
  using agreeD [of "below p" w w' p] by (simp add: dir_at_def)

lemma same_tree_agree: "agree (below p) w w' \<Longrightarrow> same_tree p w q v \<longleftrightarrow> same_tree p w' q v"
  by (simp add: same_tree_def agree_def)

lemma clean_sides:
  assumes "forE xs (\<lambda>i. if old i \<noteq> [] then bindE (tryE (os_remove_all (resolve cwd (old i)))) (\<lambda>_. returnE ())
       else returnE ()) w = (r, w')"
    and "\<forall>x \<in> set xs. proper cwd x"
  shows "r = Inr ()" and "outside_same (\<Union>x \<in> set xs. \<Union>n. below (side cwd (destination x) n)) w w'"
proof -
  let ?f = "\<lambda>i. if old i \<noteq> [] then bindE (tryE (os_remove_all (resolve cwd (old i)))) (\<lambda>_. returnE ()) else returnE ()"
  have one: "changes (\<Union>n. below (side cwd (destination x) n)) (?f x)" if px: "proper cwd x" for x
  proof (cases "old x = []")
    case False
    with px obtain n where "old x = destination x @ ''.before-restore-'' @ itoa n" by (auto simp: proper_def)
    then have "resolve cwd (old x) = side cwd (destination x) n" by (simp add: side_def)
    then have "below (resolve cwd (old x)) \<subseteq> (\<Union>n. below (side cwd (destination x) n))" by auto
    with False show ?thesis by (simp, intro footprint)
  qed (simp add: changes_returnE)
  have "changes (\<Union>x \<in> set xs. \<Union>n. below (side cwd (destination x) n)) (forE xs ?f)"
  proof (rule changes_forE)
    fix x assume x: "x \<in> set xs"
    with assms(2) have "proper cwd x" by blast
    from one [OF this] show "changes (\<Union>x \<in> set xs. \<Union>n. below (side cwd (destination x) n)) (?f x)"
      by (rule changes_mono) (use x in blast)
  qed
  from outside_same_changes [OF this assms(1)]
  show "outside_same (\<Union>x \<in> set xs. \<Union>n. below (side cwd (destination x) n)) w w'" .
  show "r = Inr ()" using assms(1)
    by (induction xs arbitrary: w) (auto simp: bindE_def tryE_def returnE_def split: if_splits prod.splits)
qed

definition touched :: "path \<Rightarrow> publication \<Rightarrow> publication \<Rightarrow> path set" where
  "touched cwd i j = regions cwd [i, j] \<union> below (temp i) \<union> below (temp j) \<union> way cwd i \<union> way cwd j"

lemma publish_result:
  assumes run: "publish cwd nano [i, j] replace w = (r, w')" and lay: "layout cwd i j"
    and dirs: "dir_at (files w) (temp i)" "dir_at (files w) (temp j)"
  shows "outside_same (touched cwd i j) w w' \<and>
    (case r of
       Inl e \<Rightarrow> kept cwd w (destination i) w' \<and> kept cwd w (destination j) w'
     | Inr u \<Rightarrow> same_tree (temp i) w (resolve cwd (destination i)) w' \<and>
         same_tree (temp j) w (resolve cwd (destination j)) w')"
proof -
  have ready1: "item_ready cwd w [] i w"
    using lay dirs(1)
    by (auto simp: item_ready_def layout_def agree_def separate_def clear_def)
  obtain r1 w1 where p1: "publish_item cwd nano replace [] i w = (r1, w1)" by force
  note o1 = publish_item_outcome [OF p1 ready1]
  have out1: "outside_same (region cwd (destination i) \<union> below (temp i) \<union> way cwd i) w w1"
    using o1 by (simp add: item_outcome_def reached_def)
  have far: "agree (region cwd (destination j)) w w1" "agree (below (temp j)) w w1"
    by (rule outside_same_agree [OF out1]; use lay in \<open>auto simp: layout_def separate_Cons\<close>)+
  show ?thesis
  proof (cases r1)
    case (Inl e)
    with run p1 have res: "r = Inl e" "w' = w1" by (auto simp: publish_def bindE_def)
    have "kept cwd w (destination j) w1"
      using far(1) agreeD [OF far(1) in_region(1)] by (simp add: kept_def same_tree_def)
    moreover have "outside_same (touched cwd i j) w w1"
      by (rule outside_same_mono [OF out1]) (auto simp: touched_def)
    ultimately show ?thesis using o1 Inl res by (simp add: item_outcome_def)
  next
    case (Inr x)
    have x: "destination x = destination i" "temp x = temp i" "proper cwd x" "tracked cwd w x w1"
      "same_tree (temp i) w (resolve cwd (destination i)) w1"
      using o1 Inr by (simp_all add: item_outcome_def)
    have ready2: "item_ready cwd w [x] j w1"
      using lay x far dirs(2) dir_at_agree [OF far(2)]
      by (auto simp: item_ready_def layout_def separate_Cons clear_def)
    obtain r2 w2 where p2: "publish_item cwd nano replace [x] j w1 = (r2, w2)" by force
    note o2 = publish_item_outcome [OF p2 ready2]
    have "outside_same (touched cwd i j) w w1" "outside_same (touched cwd i j) w1 w2"
    proof -
      show "outside_same (touched cwd i j) w w1"
        by (rule outside_same_mono [OF out1]) (auto simp: touched_def)
      have "outside_same (reached cwd [x] j) w1 w2" using o2 by (simp add: item_outcome_def)
      then show "outside_same (touched cwd i j) w1 w2"
        by (rule outside_same_mono) (use x(1) in \<open>auto simp: touched_def reached_def\<close>)
    qed
    then have out2: "outside_same (touched cwd i j) w w2" by (rule outside_same_trans)
    show ?thesis
    proof (cases r2)
      case (Inl e)
      with run p1 Inr p2 have "r = Inl e" "w' = w2" by (auto simp: publish_def bindE_def)
      with o2 Inl x(1) out2 show ?thesis by (simp add: item_outcome_def)
    next
      case r2: (Inr y)
      have y: "destination y = destination j" "proper cwd y"
        "same_tree (temp j) w1 (resolve cwd (destination j)) w2" "agree (regions cwd [x]) w1 w2"
        using o2 r2 by (simp_all add: item_outcome_def)
      have fin: "forE [x, y] (\<lambda>i. if old i \<noteq> [] then bindE (tryE (os_remove_all (resolve cwd (old i)))) (\<lambda>_. returnE ())
          else returnE ()) w2 = (r, w')"
        using run p1 Inr p2 r2 by (simp add: publish_def bindE_def returnE_def)
      from clean_sides [OF fin] x(1,3) y(1,2)
      have ok: "r = Inr ()"
        and cl: "outside_same ((\<Union>n. below (side cwd (destination i) n)) \<union> (\<Union>n. below (side cwd (destination j) n))) w2 w'"
        by auto
      have apart: "agree (below (resolve cwd (destination i))) w2 w'" "agree (below (resolve cwd (destination j))) w2 w'"
      proof -
        have sides: "(\<Union>n. below (side cwd d n)) \<subseteq> region cwd d" for d by (auto simp: region_def)
        have dis: "region cwd (destination i) \<inter> region cwd (destination j) = {}"
          using lay by (simp add: layout_def separate_Cons)
        have own: "below (side cwd d n) \<inter> below (resolve cwd d) = {}" if "names_entry d" for d n
          by (rule side_below [OF that])
        have ne: "names_entry (destination i)" "names_entry (destination j)" using lay by (simp_all add: layout_def)
        show "agree (below (resolve cwd (destination i))) w2 w'"
          by (rule outside_same_agree [OF cl]) (use own [OF ne(1)] dis sides [of "destination j"] region_parts(1) [of cwd "destination i"] in blast)
        show "agree (below (resolve cwd (destination j))) w2 w'"
          by (rule outside_same_agree [OF cl]) (use own [OF ne(2)] dis sides [of "destination i"] region_parts(1) [of cwd "destination j"] in blast)
      qed
      have "same_tree (temp i) w (resolve cwd (destination i)) w'"
        using x(1,5) agreeD [OF y(4)] agreeD [OF apart(1)] in_region(1) [of cwd "destination i"]
        by (simp add: same_tree_def)
      moreover have "same_tree (temp j) w (resolve cwd (destination j)) w'"
        using y(3) agreeD [OF far(2)] agreeD [OF apart(2)] by (simp add: same_tree_def)
      moreover have "outside_same (touched cwd i j) w2 w'"
        by (rule outside_same_mono [OF cl]) (auto simp: touched_def region_def)
      ultimately show ?thesis using ok outside_same_trans [OF out2] by simp
    qed
  qed
qed

section \<open>Restoring\<close>

text \<open>Destinations that do not get in each other's way, nor in that of the temporary directories.\<close>

definition dests_ok :: "path \<Rightarrow> string \<Rightarrow> string \<Rightarrow> bool" where
  "dests_ok cwd a b \<longleftrightarrow>
     names_entry a \<and> names_entry b \<and> region cwd a \<inter> region cwd b = {} \<and>
     (\<forall>d \<in> {a, b}. \<forall>e \<in> {a, b}. region cwd d \<inter> scratch (dir_of cwd e) restore_pre [] = {})"

lemma way_region:
  assumes "dests_ok cwd a b" and "d \<in> {a, b}" and "e \<in> {a, b}" and q: "prefix q (dir_of cwd d)"
  shows "q \<notin> region cwd e" and "q \<notin> scratch (dir_of cwd e) restore_pre []"
proof -
  have ne: "names_entry d" using assms(1,2) by (auto simp: dests_ok_def)
  have up: "prefix q (resolve cwd d)" using q by (simp add: destination_paths(1) [OF ne])
  have D: "resolve cwd d \<in> region cwd d" using in_region(1) [of cwd d "[]"] by simp
  show "q \<notin> region cwd e"
  proof
    assume "q \<in> region cwd e"
    then have "resolve cwd d \<in> region cwd e" using region_up up by blast
    with D assms(1,2,3) have "d = e" by (auto simp: dests_ok_def)
    with \<open>q \<in> region cwd e\<close> region_parent [OF ne q] show False by simp
  qed
  show "q \<notin> scratch (dir_of cwd e) restore_pre []"
  proof
    assume "q \<in> scratch (dir_of cwd e) restore_pre []"
    then have "resolve cwd d \<in> scratch (dir_of cwd e) restore_pre []"
      using up by (auto simp: scratch_def intro: prefix_order.trans)
    with D assms(1,2,3) show False by (auto simp: dests_ok_def)
  qed
qed

lemma grown_region:
  assumes "dests_ok cwd a b" and "d \<in> {a, b}" and "e \<in> {a, b}" and "only_grown (dir_of cwd e) w w'"
  shows "agree (region cwd d) w w'"
  unfolding agree_def
proof
  fix q assume q: "q \<in> region cwd d"
  then have "q \<notin> scratch (dir_of cwd e) restore_pre []"
    using assms(1,2,3) by (auto simp: dests_ok_def)
  moreover have "\<not> prefix q (dir_of cwd e)" using way_region(1) [OF assms(1,3,2)] q by blast
  ultimately show "at w' q = at w q" using assms(4) unfolding only_grown_def by blast
qed

text \<open>The two temporary directories, made one after the other.\<close>

lemma made_layout:
  assumes ok: "dests_ok cwd a b"
    and m1: "made (dir_of cwd a) ''data'' es w w1 t" and m2: "made (dir_of cwd b) ''config'' es w1 w2 u"
  shows "layout cwd \<lparr>temp = t, destination = a, old = []\<rparr> \<lparr>temp = u, destination = b, old = []\<rparr>"
    and "agree (below t) w1 w2"
    and "dir_at (files w2) t" and "dir_at (files w2) u"
proof -
  have t: "temp_name (dir_of cwd a) restore_pre [] t" and u: "temp_name (dir_of cwd b) restore_pre [] u"
    and o1: "opened t w1" and o2: "opened u w2" and none: "at w1 u = None"
    using m1 m2 by (simp_all add: made_def)
  have scr: "below t \<subseteq> scratch (dir_of cwd a) restore_pre []" "below u \<subseteq> scratch (dir_of cwd b) restore_pre []"
    using below_scratch t u by blast+
  have way_t: "\<not> prefix t (dir_of cwd d)" if "d \<in> {a, b}" for d
    using way_region(2) [OF ok that, of a "t"] scr(1) by auto
  have way_u: "\<not> prefix u (dir_of cwd d)" if "d \<in> {a, b}" for d
    using way_region(2) [OF ok that, of b "u"] scr(2) by auto
  have "\<not> prefix t u"
  proof
    assume p: "prefix t u"
    have "t \<noteq> u" using openedD [OF o1, of t] none by auto
    with p have "prefix t (butlast u)"
      using temp_name_parts [OF u] by (metis append_butlast_last_id prefix_snoc)
    with way_t [of b] temp_name_parts [OF u] show False by simp
  qed
  moreover have "\<not> prefix u t" using openedD [OF o1, of u] none by auto
  ultimately have dis: "below t \<inter> below u = {}" by (auto dest: prefix_same_cases)
  have tr: "below t \<inter> region cwd d = {}" "below u \<inter> region cwd d = {}" if "d \<in> {a, b}" for d
    using scr ok that by (auto simp: dests_ok_def disjoint_iff)
  have ways: "{q. prefix q (dir_of cwd d)} \<inter> region cwd e = {}" if "d \<in> {a, b}" "e \<in> {a, b}" for d e
    using way_region(1) [OF ok that] by blast
  have wt: "{q. prefix q (dir_of cwd d)} \<inter> (below t \<union> below u) = {}" if "d \<in> {a, b}" for d
    using way_t [OF that] way_u [OF that] by (auto intro: prefix_order.trans)
  have ne: "names_entry a" "names_entry b" "region cwd a \<inter> region cwd b = {}" using ok by (simp_all add: dests_ok_def)
  show "layout cwd \<lparr>temp = t, destination = a, old = []\<rparr> \<lparr>temp = u, destination = b, old = []\<rparr>"
    using tr [of a] tr [of b] ways [of a a] ways [of a b] ways [of b a] ways [of b b] wt [of a] wt [of b] ne dis
    by (simp add: layout_def way_def separate_Cons separate_def Int_Un_distrib Int_Un_distrib2)
  show agr: "agree (below t) w1 w2"
    unfolding agree_def
  proof
    fix q assume q: "q \<in> below t"
    then have "\<not> prefix u q" using dis by auto
    moreover have "\<not> prefix q (dir_of cwd b)" using q way_t [of b] by (auto intro: prefix_order.trans)
    ultimately show "at w2 q = at w1 q" using m2 unfolding made_def by blast
  qed
  show "dir_at (files w2) t" using dir_at_agree [OF agr] o1 by (auto simp: opened_def)
  show "dir_at (files w2) u" using o2 by (auto simp: opened_def)
qed

lemma made_no_strays:
  assumes ok: "dests_ok cwd a b" and m1: "made (dir_of cwd a) pre es w w1 t"
    and ns: "no_strays (dir_of cwd b) w"
  shows "no_strays (dir_of cwd b) w1"
  unfolding no_strays_def
proof (intro allI impI notI)
  fix u s m d
  assume u: "temp_name (dir_of cwd b) restore_pre [] u" and none: "at w1 u = None"
    and st: "at w1 (u @ s) = Some (Regular m d)"
  have t: "temp_name (dir_of cwd a) restore_pre [] t" and o1: "opened t w1" using m1 by (simp_all add: made_def)
  have grown: "\<not> prefix t q \<Longrightarrow> at w1 q = at w q \<or> prefix q (dir_of cwd a) \<and> at w q = None \<and> dir_at (files w1) q" for q
    using m1 unfolding made_def by blast
  have ut: "\<not> prefix u t" using openedD [OF o1, of u] none by auto
  have tu: "\<not> prefix t u"
  proof
    assume p: "prefix t u"
    with ut have "t \<noteq> u" by auto
    with p have "prefix t (dir_of cwd b)"
      using temp_name_parts [OF u] by (metis append_butlast_last_id prefix_snoc)
    moreover have "t \<in> scratch (dir_of cwd a) restore_pre []" using t by simp
    ultimately show False using way_region(2) [OF ok, of b a t] by auto
  qed
  have tus: "\<not> prefix t (u @ s)" using tu ut by (metis prefix_same_cases prefixI)
  have "at w u = None" using grown [OF tu] none by (auto simp: dir_at_def)
  moreover have "at w (u @ s) = Some (Regular m d)" using grown [OF tus] st by (auto simp: dir_at_def)
  ultimately show False using ns u unfolding no_strays_def by blast
qed

end
