(* ===== verification/Backup_Outcomes.thy ===== *)
theory Backup_Outcomes
  imports Backup_Claims
begin

text \<open>
  What \<open>Restore\<close> and \<open>Create\<close> promise: a restore installs exactly the files of the archive
  or keeps what stood at the destinations; the artifact of \<open>Create\<close> is the old or the new one; and
  the two are inverse to each other.
\<close>

section \<open>The two halves of Restore\<close>

definition read_artifact :: "codec \<Rightarrow> path \<Rightarrow> string \<Rightarrow> string \<Rightarrow> string \<Rightarrow> string \<Rightarrow> bool \<Rightarrow> entry list io" where
  "read_artifact cd cwd input dataDir configDir password replace =
     bindE (checkE (password \<noteq> []) (ErrText ''backup password is required'')) (\<lambda>_.
     bindE (tryE (os_lstat (resolve cwd input))) (\<lambda>r.
     bindE (checkE (case r of Inl e \<Rightarrow> False | Inr info \<Rightarrow> bounded_regular info)
         (ErrText ''backup input must be a bounded regular file'')) (\<lambda>_.
     bindE (wrapE ''read backup'' (os_read_file (resolve cwd input))) (\<lambda>encrypted.
     bindE (liftE (decrypt encrypted password)) (\<lambda>plain.
     bindE (liftE (readArchive cd plain)) (\<lambda>entries.
     bindE (if \<not> replace then forE [dataDir, configDir] (refuse_existing cwd) else returnE ()) (\<lambda>_.
     returnE entries)))))))"

definition install_entries :: "path \<Rightarrow> (nat \<Rightarrow> int) \<Rightarrow> string \<Rightarrow> string \<Rightarrow> bool \<Rightarrow> entry list \<Rightarrow> unit io" where
  "install_entries cwd nano dataDir configDir replace entries =
     bindE (materialize (dir_of cwd dataDir) ''data'' entries) (\<lambda>dataTemp.
     deferE (os_remove_all dataTemp)
      (bindE (materialize (dir_of cwd configDir) ''config'' entries) (\<lambda>configTemp.
       deferE (os_remove_all configTemp)
        (publish cwd nano
          [\<lparr>temp = dataTemp, destination = dataDir, old = []\<rparr>,
           \<lparr>temp = configTemp, destination = configDir, old = []\<rparr>] replace))))"

lemma bindE_assoc: "bindE (bindE m f) g = bindE m (\<lambda>x. bindE (f x) g)"
  by (auto simp: bindE_def fun_eq_iff split: prod.splits sum.splits)

lemma Restore_halves:
  "Restore cd cwd nano input dataDir configDir password replace =
     bindE (read_artifact cd cwd input dataDir configDir password replace)
       (install_entries cwd nano dataDir configDir replace)"
  by (simp only: Restore_def read_artifact_def install_entries_def bindE_assoc returnE_bindE)

lemma reads_refuse_existing [quiet]: "reads_only (refuse_existing cwd d)"
  unfolding refuse_existing_def by (intro quiet)

lemma reads_artifact [quiet]: "reads_only (read_artifact cd cwd input dataDir configDir password replace)"
  unfolding read_artifact_def by (intro quiet)

text \<open>The file a restore accepts: bounded, sealed under the password around an archive of the entries.\<close>

definition accepted_backup :: "codec \<Rightarrow> world \<Rightarrow> path \<Rightarrow> string \<Rightarrow> entry list \<Rightarrow> bool" where
  "accepted_backup cd w p password es \<longleftrightarrow>
     (\<exists>m data plain. at w p = Some (Regular m data) \<and> length data \<le> maxBackupSize \<and>
        sealed_with password plain data \<and> readArchive cd plain = Inr es)"

definition absent :: "path \<Rightarrow> string \<Rightarrow> world \<Rightarrow> bool" where
  "absent cwd d w \<longleftrightarrow> stat (files w) (resolve cwd d) = Inl ENOENT"

lemma refuse_existing_Inr:
  assumes "refuse_existing cwd d w = (Inr u, w')"
  shows "stat (files w) (resolve cwd d) = Inl ENOENT"
proof -
  from assms obtain r where "os_lstat (resolve cwd d) w = (r, w')"
    and "case r of Inl e \<Rightarrow> is_not_exist e | Inr info \<Rightarrow> False"
    by (auto simp: refuse_existing_def bindE_Inr tryE_eq)
  then show ?thesis by (cases r) (auto dest: os_lstat_not_exist)
qed

lemma read_artifact_Inr:
  assumes "read_artifact cd cwd input dataDir configDir password replace w = (Inr es, w')"
  shows "accepted_backup cd w (resolve cwd input) password es" and "password \<noteq> []"
    and "\<not> replace \<Longrightarrow> absent cwd dataDir w \<and> absent cwd configDir w"
proof -
  from assms obtain r w1 encrypted w2 plain where pw: "password \<noteq> []"
    and l: "os_lstat (resolve cwd input) w = (r, w1)"
    and b: "case r of Inl e \<Rightarrow> False | Inr info \<Rightarrow> bounded_regular info"
    and rd: "os_read_file (resolve cwd input) w1 = (Inr encrypted, w2)"
    and d: "decrypt encrypted password = Inr plain" and a: "readArchive cd plain = Inr es"
    and ref: "(if \<not> replace then forE [dataDir, configDir] (refuse_existing cwd) else returnE ()) w2 = (Inr (), w')"
    unfolding read_artifact_def by (auto simp: bindE_Inr tryE_eq)
  from b obtain m data where info: "r = Inr (Regular m data)" and len: "length data \<le> maxBackupSize"
    by (auto simp: bounded_regular_def split: sum.splits node.splits)
  note st = os_lstat_Inr [OF l [unfolded info]]
  note rd' = os_read_file_Inr [OF rd]
  have "encrypted = data" using st rd'(1) by auto
  with st len d a show "accepted_backup cd w (resolve cwd input) password es"
    unfolding accepted_backup_def decrypt_Inr by blast
  show "password \<noteq> []" by (rule pw)
  have fw: "files w2 = files w" using st reads_onlyD [OF reads_os(3) rd] by simp
  assume "\<not> replace"
  with ref obtain v where one: "refuse_existing cwd dataDir w2 = (Inr (), v)"
    and two: "refuse_existing cwd configDir v = (Inr (), w')"
    by (auto simp: bindE_Inr)
  from refuse_existing_Inr [OF one] refuse_existing_Inr [OF two] reads_onlyD [OF reads_refuse_existing one] fw
  show "absent cwd dataDir w \<and> absent cwd configDir w" by (simp add: absent_def)
qed

section \<open>Installing the entries\<close>

lemma kept_origin: "agree (region cwd d) v w \<Longrightarrow> kept cwd w d x = kept cwd v d x"
  using agreeD [of "region cwd d" v w] in_region(1) [of cwd d] in_region(1) [of cwd d "[]"]
  by (simp add: kept_def same_tree_def)

lemma kept_refl: "agree (region cwd d) w w' \<Longrightarrow> kept cwd w d w'"
  using agreeD [of "region cwd d" w w'] in_region(1) [of cwd d] by (simp add: kept_def same_tree_def)

lemma holds_moved: "same_tree t w q w' \<Longrightarrow> holds u t pre es w \<Longrightarrow> holds u q pre es w'"
  by (simp add: holds_def same_tree_def)

lemma removed_agree:
  assumes "os_remove_all t w = (r, w')" and "below t \<inter> A = {}"
  shows "agree A w w'"
proof (rule agree_changes)
  show "changes (below t) (os_remove_all t)" by (intro footprint order_refl)
qed (rule assms)+

lemma deferE_run:
  assumes "deferE c m w = (r, w')"
  obtains w1 rc where "m w = (r, w1)" and "c w1 = (rc, w')"
  using assms unfolding deferE_eq by (metis prod.collapse)

definition installed :: "mode \<Rightarrow> path \<Rightarrow> string \<Rightarrow> string \<Rightarrow> entry list \<Rightarrow> world \<Rightarrow> bool" where
  "installed u cwd dataDir configDir es w \<longleftrightarrow>
     holds u (resolve cwd dataDir) ''data'' es w \<and> holds u (resolve cwd configDir) ''config'' es w"

lemma install_result:
  assumes run: "install_entries cwd nano a b replace es w = (r, w')" and ok: "dests_ok cwd a b"
    and af: "\<forall>f \<in> set es. archive_file (entry_name f)" and dist: "distinct (map entry_name es)"
    and ns: "no_strays (dir_of cwd a) w" "no_strays (dir_of cwd b) w"
  shows "case r of Inl e \<Rightarrow> kept cwd w a w' \<and> kept cwd w b w' | Inr u \<Rightarrow> installed (umask w) cwd a b es w'"
proof -
  have scr: "below t \<inter> region cwd d = {}"
    if "temp_name (dir_of cwd e) restore_pre [] t" "d \<in> {a, b}" "e \<in> {a, b}" for t d e
    using below_scratch [OF that(1)] that(2,3) ok unfolding dests_ok_def by blast
  obtain r1 w1 where m1: "materialize (dir_of cwd a) ''data'' es w = (r1, w1)" by force
  from materialize_result [OF m1 af] have g1: "only_grown (dir_of cwd a) w w1"
    and made1: "\<And>t. r1 = Inr t \<Longrightarrow> made (dir_of cwd a) ''data'' es w w1 t" by auto
  have a1: "agree (region cwd d) w w1" if "d \<in> {a, b}" for d
    by (rule grown_region [OF ok that _ g1]) simp
  show ?thesis
  proof (cases r1)
    case (Inl e)
    with run m1 have "r = Inl e" "w' = w1" by (auto simp: install_entries_def bindE_def)
    with a1 kept_refl show ?thesis by simp
  next
    case (Inr t)
    note m1t = made1 [OF Inr]
    have t: "temp_name (dir_of cwd a) restore_pre [] t" using m1t by (simp add: made_def)
    from run m1 Inr have "deferE (os_remove_all t)
      (bindE (materialize (dir_of cwd b) ''config'' es) (\<lambda>u. deferE (os_remove_all u)
        (publish cwd nano [\<lparr>temp = t, destination = a, old = []\<rparr>, \<lparr>temp = u, destination = b, old = []\<rparr>] replace)))
      w1 = (r, w')"
      by (simp add: install_entries_def bindE_def)
    then obtain w4 rc where body: "bindE (materialize (dir_of cwd b) ''config'' es) (\<lambda>u. deferE (os_remove_all u)
        (publish cwd nano [\<lparr>temp = t, destination = a, old = []\<rparr>, \<lparr>temp = u, destination = b, old = []\<rparr>] replace))
      w1 = (r, w4)" and rt: "os_remove_all t w4 = (rc, w')"
      by (rule deferE_run)
    have a4: "agree (region cwd d) w4 w'" if "d \<in> {a, b}" for d
      by (rule removed_agree [OF rt scr [OF t that]]) simp
    obtain r2 w2 where m2: "materialize (dir_of cwd b) ''config'' es w1 = (r2, w2)" by force
    from materialize_result [OF m2 af] have g2: "only_grown (dir_of cwd b) w1 w2"
      and made2: "\<And>u. r2 = Inr u \<Longrightarrow> made (dir_of cwd b) ''config'' es w1 w2 u" by auto
    have a2: "agree (region cwd d) w w2" if "d \<in> {a, b}" for d
      by (rule agree_trans [OF a1 [OF that] grown_region [OF ok that _ g2]]) simp
    show ?thesis
    proof (cases r2)
      case (Inl e)
      with body m2 have "r = Inl e" "w4 = w2" by (auto simp: bindE_def)
      moreover from this a2 a4 have "agree (region cwd d) w w'" if "d \<in> {a, b}" for d
        using agree_trans that by blast
      ultimately show ?thesis using kept_refl by simp
    next
      case r2: (Inr u)
      note m2u = made2 [OF r2]
      have u: "temp_name (dir_of cwd b) restore_pre [] u" using m2u by (simp add: made_def)
      let ?items = "[\<lparr>temp = t, destination = a, old = []\<rparr>, \<lparr>temp = u, destination = b, old = []\<rparr>]"
      from body m2 r2 have "deferE (os_remove_all u) (publish cwd nano ?items replace) w2 = (r, w4)"
        by (simp add: bindE_def)
      then obtain w3 rc2 where pub: "publish cwd nano ?items replace w2 = (r, w3)"
        and ru: "os_remove_all u w3 = (rc2, w4)"
        by (rule deferE_run)
      have a3: "agree (region cwd d) w3 w'" if "d \<in> {a, b}" for d
        by (rule agree_trans [OF removed_agree [OF ru scr [OF u that]] a4 [OF that]]) simp
      note lay = made_layout [OF ok m1t m2u]
      from publish_result [OF pub lay(1)] lay(3,4) have res: "case r of
          Inl e \<Rightarrow> kept cwd w2 a w3 \<and> kept cwd w2 b w3
        | Inr x \<Rightarrow> same_tree t w2 (resolve cwd a) w3 \<and> same_tree u w2 (resolve cwd b) w3"
        by (cases r) auto
      show ?thesis
      proof (cases r)
        case (Inl e)
        with res kept_origin [OF a2] kept_region [OF a3] show ?thesis by simp
      next
        case (Inr x)
        from m1t ns(1) dist have "holds (umask w) t ''data'' es w1" by (simp add: made_def)
        then have h1: "holds (umask w) t ''data'' es w2"
          by (rule holds_moved [rotated]) (use agreeD [OF lay(2)] in \<open>simp add: same_tree_def\<close>)
        have "umask w1 = umask w" using m1t by (simp add: made_def)
        with m2u made_no_strays [OF ok m1t ns(2)] dist have h2: "holds (umask w) u ''config'' es w2"
          by (simp add: made_def)
        have fin: "same_tree (resolve cwd d) w3 (resolve cwd d) w'" if "d \<in> {a, b}" for d
          using agreeD [OF a3 [OF that] in_region(1)] by (simp add: same_tree_def)
        from res Inr h1 h2 have "holds (umask w) (resolve cwd a) ''data'' es w3" "holds (umask w) (resolve cwd b) ''config'' es w3"
          by (auto intro: holds_moved)
        with fin Inr show ?thesis by (auto simp: installed_def intro: holds_moved)
      qed
    qed
  qed
qed

definition room_for :: "path \<Rightarrow> string \<Rightarrow> string \<Rightarrow> world \<Rightarrow> bool" where
  "room_for cwd a b w \<longleftrightarrow>
     dests_ok cwd a b \<and> no_strays (dir_of cwd a) w \<and> no_strays (dir_of cwd b) w"

lemma Restore_result:
  assumes run: "Restore cd cwd nano input a b password replace w = (r, w')" and room: "room_for cwd a b w"
  shows "case r of
      Inl e \<Rightarrow> kept cwd w a w' \<and> kept cwd w b w'
    | Inr u \<Rightarrow> \<exists>es. accepted_backup cd w (resolve cwd input) password es \<and> installed (umask w) cwd a b es w' \<and>
        (\<not> replace \<longrightarrow> absent cwd a w \<and> absent cwd b w)"
proof -
  have ok: "dests_ok cwd a b" and ns: "no_strays (dir_of cwd a) w" "no_strays (dir_of cwd b) w"
    using room by (simp_all add: room_for_def)
  obtain r1 v where rd: "read_artifact cd cwd input a b password replace w = (r1, v)" by force
  have fv: "files v = files w" "umask v = umask w"
    using reads_onlyD [OF reads_artifact rd] reads_only_umask [OF reads_artifact rd] by simp_all
  show ?thesis
  proof (cases r1)
    case (Inl e)
    with run rd have "r = Inl e" "w' = v" by (auto simp: Restore_halves bindE_def)
    with fv kept_refl [OF agree_files(1)] show ?thesis by simp
  next
    case (Inr es)
    note ra = read_artifact_Inr [OF rd [unfolded Inr]]
    from ra(1) obtain plain where "readArchive cd plain = Inr es" by (auto simp: accepted_backup_def)
    from readArchive_Inr [OF this] have af: "\<forall>f \<in> set es. archive_file (entry_name f)"
      and dist: "distinct (map entry_name es)" by (auto simp: from_item_def)
    have inst: "install_entries cwd nano a b replace es v = (r, w')"
      using run rd Inr by (simp add: Restore_halves bindE_def)
    have "no_strays (dir_of cwd a) v" "no_strays (dir_of cwd b) v" using ns fv(1) by (simp_all add: no_strays_def)
    from install_result [OF inst ok af dist this] fv
    have "case r of Inl e \<Rightarrow> kept cwd v a w' \<and> kept cwd v b w' | Inr u \<Rightarrow> installed (umask w) cwd a b es w'"
      by (cases r) auto
    with kept_origin [OF agree_files(1) [OF fv(1)]] ra(1,3) show ?thesis by (cases r) auto
  qed
qed

section \<open>Create\<close>

abbreviation backup_pre :: string where
  "backup_pre \<equiv> ''.certarium-backup-''"

lemma changes_fill_output [footprint]: "t \<in> A \<Longrightarrow> changes A (fill_output t d)"
  unfolding fill_output_def by (intro footprint)

lemma fill_output_Inr:
  assumes "fill_output t d w = (Inr u, w')" and t: "t \<noteq> []" and new: "at w t = Some (Regular m [])"
  shows "at w' = (at w)(t \<mapsto> Regular mode_0600 d)"
proof -
  from assms(1) obtain w1 w2 w3 where c: "os_chmod t mode_0600 w = (Inr (), w1)"
    and wr: "file_write t d w1 = (Inr (), w2)" and s: "file_sync t w2 = (Inr (), w3)"
    and cl: "file_close t w3 = (Inr u, w')"
    by (auto simp: fill_output_def bindE_Inr)
  from os_chmod_Inr [OF c] new t have "at w1 = (at w)(t \<mapsto> Regular mode_0600 [])" by auto
  with file_write_Inr [OF wr t] have "at w2 = (at w)(t \<mapsto> Regular mode_0600 d)" by auto
  then show ?thesis using file_sync_files [OF s] file_close_files [OF cl] by simp
qed

definition write_artifact :: "path \<Rightarrow> string \<Rightarrow> string \<Rightarrow> unit io" where
  "write_artifact cwd output d =
     via_temp ''create backup output'' (dir_of cwd output) backup_pre ''.tmp'' (\<lambda>t.
       bindE (fill_output t d) (\<lambda>_. bindE (returnE ()) (\<lambda>_.
       bindE (wrapE ''publish backup'' (os_rename t (resolve cwd output))) (\<lambda>_. returnE ()))))"

definition sealed_archive :: "codec \<Rightarrow> path \<Rightarrow> instant \<Rightarrow> string \<Rightarrow> string \<Rightarrow> string \<Rightarrow> string io" where
  "sealed_archive cd cwd now dataDir configDir password =
     bindE (checkE (password \<noteq> []) (ErrText ''backup password is required'')) (\<lambda>_.
     bindE (collect cwd dataDir configDir) (\<lambda>entries.
     bindE (liftE (makeArchive cd now entries)) (\<lambda>plain. encrypt plain password)))"

lemma Create_halves:
  "Create cd cwd now dataDir configDir output password =
     bindE (sealed_archive cd cwd now dataDir configDir password) (\<lambda>d.
     bindE (wrapE ''create backup output directory'' (os_mkdir_all (dir_of cwd output) mode_0700)) (\<lambda>_.
     write_artifact cwd output d))"
  by (simp only: Create_def sealed_archive_def write_artifact_def via_temp_def bindE_assoc returnE_bindE
      bindE_return_unit)

text \<open>What the artifact of a backup is: all files of the two directories, archived and sealed.\<close>

definition backup_of :: "codec \<Rightarrow> path \<Rightarrow> instant \<Rightarrow> string \<Rightarrow> string \<Rightarrow> string \<Rightarrow> world \<Rightarrow> string \<Rightarrow> bool" where
  "backup_of cd cwd now dataDir configDir password w data \<longleftrightarrow>
     (\<exists>es w1 plain. collect cwd dataDir configDir w = (Inr es, w1) \<and> makeArchive cd now es = Inr plain \<and>
        sealed_with password plain data)"

lemma sealed_archive_Inr:
  assumes "sealed_archive cd cwd now dataDir configDir password w = (Inr data, w')"
  shows "backup_of cd cwd now dataDir configDir password w data"
  using assms encrypt_Inr(1) unfolding sealed_archive_def backup_of_def by (auto simp: bindE_Inr)

lemma reads_rand_read [quiet]: "reads_only (rand_read n)"
  unfolding rand_read_def by (rule reads_onlyI, erule syscall_cases) (auto simp: throwE_def)

lemma reads_sealed_archive [quiet]: "reads_only (sealed_archive cd cwd now dataDir configDir password)"
  unfolding sealed_archive_def encrypt_def Let_def by (intro quiet)

lemma write_artifact_result:
  assumes run: "write_artifact cwd output d w = (r, w')" and out: "names_entry output"
    and base: "\<not> prefix backup_pre (entry_base output)"
  shows "at w' (resolve cwd output) = at w (resolve cwd output) \<and> (\<exists>e. r = Inl e) \<or>
    at w' (resolve cwd output) = Some (Regular mode_0600 d)"
    and "q \<notin> scratch (dir_of cwd output) backup_pre ''.tmp'' \<Longrightarrow> \<not> prefix (resolve cwd output) q \<Longrightarrow> at w' q = at w q"
proof -
  have p: "resolve cwd output = dir_of cwd output @ [entry_base output]" using destination_paths(1) [OF out] .
  have c: "changes {} (returnE ())" by (intro footprint)
  have fill: "changes {t} (fill_output t d)" for t by (intro footprint) simp
  show "at w' (resolve cwd output) = at w (resolve cwd output) \<and> (\<exists>e. r = Inl e) \<or>
    at w' (resolve cwd output) = Some (Regular mode_0600 d)"
    unfolding p
    by (rule via_temp_result [OF run [unfolded write_artifact_def p] base fill fill_output_Inr c c])
  let ?A = "scratch (dir_of cwd output) backup_pre ''.tmp'' \<union> below (resolve cwd output)"
  have "changes ?A (write_artifact cwd output d)"
    unfolding write_artifact_def
  proof (rule changes_via_temp [OF Un_upper1])
    fix t assume t: "temp_name (dir_of cwd output) backup_pre ''.tmp'' t"
    have "below t \<subseteq> ?A" and "t \<in> ?A" using below_scratch [OF t] by auto
    then show "changes ?A (bindE (fill_output t d) (\<lambda>_. bindE (returnE ()) (\<lambda>_.
       bindE (wrapE ''publish backup'' (os_rename t (resolve cwd output))) (\<lambda>_. returnE ()))))"
      by (intro footprint) auto
  qed
  from changesD [OF this run, of q]
  show "q \<notin> scratch (dir_of cwd output) backup_pre ''.tmp'' \<Longrightarrow> \<not> prefix (resolve cwd output) q \<Longrightarrow> at w' q = at w q"
    by simp
qed

lemma Create_result:
  assumes run: "Create cd cwd now dataDir configDir output password w = (r, w')" and out: "names_entry output"
    and base: "\<not> prefix backup_pre (entry_base output)"
  shows "at w' (resolve cwd output) = at w (resolve cwd output) \<and> (\<exists>e. r = Inl e) \<or>
    (\<exists>data. backup_of cd cwd now dataDir configDir password w data \<and>
       at w' (resolve cwd output) = Some (Regular mode_0600 data))" (is ?res)
    and "q \<notin> scratch (dir_of cwd output) backup_pre ''.tmp'' \<Longrightarrow> \<not> prefix (resolve cwd output) q \<Longrightarrow>
      at w' q = at w q \<or> prefix q (dir_of cwd output) \<and> at w q = None \<and> dir_at (files w') q" (is "_ \<Longrightarrow> _ \<Longrightarrow> ?far")
proof -
  let ?p = "resolve cwd output" and ?d = "dir_of cwd output"
  have up: "\<not> prefix ?p ?d" by (simp add: destination_paths(1) [OF out])
  obtain r1 w1 where s: "sealed_archive cd cwd now dataDir configDir password w = (r1, w1)" by force
  have w1: "files w1 = files w" using reads_onlyD [OF reads_sealed_archive s] .
  have "?res \<and> (q \<notin> scratch ?d backup_pre ''.tmp'' \<longrightarrow> \<not> prefix ?p q \<longrightarrow> ?far)"
  proof (cases r1)
    case (Inl e)
    with run s have "r = Inl e" "w' = w1" by (auto simp: Create_halves bindE_def)
    with w1 show ?thesis by simp
  next
    case (Inr data)
    from sealed_archive_Inr [OF s [unfolded Inr]] have b: "backup_of cd cwd now dataDir configDir password w data" .
    obtain r2 w2 where mk: "os_mkdir_all ?d mode_0700 w1 = (r2, w2)" by force
    have same: "at w2 ?p = at w ?p" using prefix_mkdir_grows [OF mk up] w1 by simp
    have g: "at w2 q = at w q \<or> prefix q ?d \<and> at w q = None \<and> dir_at (files w2) q"
      using os_mkdir_all_grows [OF mk, of q] prefix_mkdir_grows [OF mk, of q] w1 by auto
    show ?thesis
    proof (cases r2)
      case (Inl e)
      with run s Inr mk have "(\<exists>e. r = Inl e) \<and> w' = w2" by (auto simp: Create_halves bindE_def wrapE_def)
      with same g show ?thesis by auto
    next
      case r2: (Inr u)
      with run s Inr mk have "write_artifact cwd output data w2 = (r, w')"
        by (simp add: Create_halves bindE_def wrapE_def)
      note wr = write_artifact_result [OF this out base]
      have "?far" if "q \<notin> scratch ?d backup_pre ''.tmp''" "\<not> prefix ?p q"
        using wr(2) [OF that] g by (auto simp: dir_at_def)
      with wr(1) same b show ?thesis by auto
    qed
  qed
  then show ?res and "q \<notin> scratch ?d backup_pre ''.tmp'' \<Longrightarrow> \<not> prefix ?p q \<Longrightarrow> ?far" by blast+
qed

section \<open>There and back\<close>

text \<open>Names the manifest can carry unchanged.\<close>

definition portable :: "path \<Rightarrow> bool" where
  "portable r \<longleftrightarrow>
     (\<forall>pre \<in> {''data'', ''config''}.
        utf8_valid (join_with ''/'' (pre # r)) \<and> CHR 0x00 \<notin> set (join_with ''/'' (pre # r)))"

definition restored :: "world \<Rightarrow> path \<Rightarrow> mode \<Rightarrow> world \<Rightarrow> path \<Rightarrow> bool" where
  "restored w src u w' dst \<longleftrightarrow>
     (\<forall>r m d. at w' (dst @ r) = Some (Regular m d) \<longleftrightarrow>
        (\<exists>m0. source_file w src r m0 d \<and> m = m0 AND mode_0777 AND NOT u))"

lemma sealed_with_unique: "sealed_with password p data \<Longrightarrow> sealed_with password q data \<Longrightarrow> p = q"
  unfolding decrypt_Inr [symmetric] by simp

lemma file_entry_segs:
  assumes "entry_segs pre (file_entry pre' r m d) s" and "list_all plain_segment r"
    and "pre = ''data'' \<or> pre = ''config''" and "pre' = ''data'' \<or> pre' = ''config''"
  shows "pre' = pre \<and> s = r"
proof -
  have "join_with ''/'' (pre' # r) = join_with ''/'' (pre # s)" and s: "list_all plain_segment s"
    using assms(1) by (simp_all only: entry_segs_def file_entry_def entry.select_convs simp_thms)
  then have "split_on (CHR ''/'') (join_with ''/'' (pre' # r)) = split_on (CHR ''/'') (join_with ''/'' (pre # s))"
    by (simp only:)
  then have "pre' # r = pre # s"
    by (simp only: split_archive_name [OF archive_tops [OF assms(4)] assms(2)]
        split_archive_name [OF archive_tops [OF assms(3)] s])
  then show ?thesis by simp
qed

lemma file_entry_segs_own:
  assumes "list_all plain_segment r" and "r \<noteq> []"
  shows "entry_segs pre (file_entry pre r m d) r"
  using assms by (simp add: entry_segs_def file_entry_def)

lemma holds_restored:
  assumes h: "holds u dst pre es w'" and pre: "pre = ''data'' \<or> pre = ''config''" and wf: "wf_tree (files w)"
    and es: "\<And>g. g \<in> set es \<longleftrightarrow>
      (\<exists>r m d. source_file w dd r m d \<and> g = file_entry ''data'' r m d) \<or>
      (\<exists>r m d. source_file w dc r m d \<and> g = file_entry ''config'' r m d)"
  shows "restored w (if pre = ''data'' then dd else dc) u w' dst"
  unfolding restored_def
proof (intro allI)
  fix r m d
  let ?src = "if pre = ''data'' then dd else dc"
  have "at w' (dst @ r) = Some (Regular m d) \<longleftrightarrow>
      (\<exists>f \<in> set es. entry_segs pre f r \<and> m = entry_mode f AND mode_0777 AND NOT u \<and> d = entry_data f)"
    using h unfolding holds_def by blast
  also have "\<dots> \<longleftrightarrow> (\<exists>m0. source_file w ?src r m0 d \<and> m = m0 AND mode_0777 AND NOT u)" (is "?L \<longleftrightarrow> ?R")
  proof
    assume ?L
    then obtain f where f: "f \<in> set es" "entry_segs pre f r" "m = entry_mode f AND mode_0777 AND NOT u" "d = entry_data f"
      by blast
    have key: ?R if o: "pre' = ''data'' \<and> src = dd \<or> pre' = ''config'' \<and> src = dc"
      and sf: "source_file w src s m0 d0" and fe: "f = file_entry pre' s m0 d0" for pre' src s m0 d0
    proof -
      have "pre' = ''data'' \<or> pre' = ''config''" using o by blast
      from file_entry_segs [OF f(2) [unfolded fe] source_file_plain [OF sf wf] pre this]
      have "pre' = pre" "s = r" by auto
      moreover have "m = m0 AND mode_0777 AND NOT u" "d = d0"
        using f(3,4) by (simp_all add: fe file_entry_def and.assoc)
      ultimately show ?R using sf o by auto
    qed
    from f(1) [unfolded es] show ?R
    proof (elim disjE exE conjE)
      fix s m0 d0 assume "source_file w dd s m0 d0" and "f = file_entry ''data'' s m0 d0"
      then show ?R by (rule key [of "''data''", rotated]) simp
    next
      fix s m0 d0 assume "source_file w dc s m0 d0" and "f = file_entry ''config'' s m0 d0"
      then show ?R by (rule key [of "''config''", rotated]) simp
    qed
  next
    assume ?R
    then obtain m0 where sf: "source_file w ?src r m0 d" and m: "m = m0 AND mode_0777 AND NOT u" by blast
    let ?f = "file_entry pre r m0 d"
    from pre have "?f \<in> set es"
    proof
      assume "pre = ''data''"
      with sf show ?thesis unfolding es by (intro disjI1 exI conjI) simp_all
    next
      assume "pre = ''config''"
      with sf show ?thesis unfolding es by (intro disjI2 exI conjI) simp_all
    qed
    moreover have "entry_segs pre ?f r"
      by (rule file_entry_segs_own [OF source_file_plain [OF sf wf]]) (use sf in \<open>simp add: source_file_def\<close>)
    ultimately show ?L using m by (auto simp: file_entry_def and.assoc)
  qed
  finally show "at w' (dst @ r) = Some (Regular m d) \<longleftrightarrow>
     (\<exists>m0. source_file w ?src r m0 d \<and> m = m0 AND mode_0777 AND NOT u)" .
qed

lemma file_entry_archivable:
  assumes "portable r" and "list_all plain_segment r" and "r \<noteq> []" and pre: "pre = ''data'' \<or> pre = ''config''"
  shows "archivable (file_entry pre r m d)"
proof -
  have n: "entry_name (file_entry pre r m d) = join_with ''/'' (pre # r)" by (simp add: file_entry_def)
  have "archive_file (join_with ''/'' (pre # r))" using assms(2,3) pre unfolding archive_file_def by blast
  moreover have "pre \<in> {''data'', ''config''}" using pre by blast
  ultimately show ?thesis using assms(1) unfolding archivable_def n portable_def by blast
qed

lemma collect_archivable:
  assumes run: "collect cwd dataDir configDir w = (Inr es, w')" and wf: "wf_tree (files w)"
    and port: "\<And>r m d. source_file w (resolve cwd dataDir) r m d \<or> source_file w (resolve cwd configDir) r m d \<Longrightarrow> portable r"
  shows "list_all archivable es"
  unfolding list_all_iff
proof
  fix g assume "g \<in> set es"
  then show "archivable g"
    unfolding collect_Inr(1) [OF run wf]
  proof (elim disjE exE conjE)
    fix r m d assume s: "source_file w (resolve cwd dataDir) r m d" and g: "g = file_entry ''data'' r m d"
    show ?thesis unfolding g
      by (rule file_entry_archivable) (use s port source_file_plain [OF s wf] in \<open>auto simp: source_file_def\<close>)
  next
    fix r m d assume s: "source_file w (resolve cwd configDir) r m d" and g: "g = file_entry ''config'' r m d"
    show ?thesis unfolding g
      by (rule file_entry_archivable) (use s port source_file_plain [OF s wf] in \<open>auto simp: source_file_def\<close>)
  qed
qed

text \<open>A world whose files the archive can carry, and a codec that keeps what the archive needs.\<close>

definition can_back_up :: "codec \<Rightarrow> instant \<Rightarrow> path \<Rightarrow> string \<Rightarrow> string \<Rightarrow> world \<Rightarrow> bool" where
  "can_back_up cd now cwd dataDir configDir w \<longleftrightarrow>
     tar_faithful cd \<and> parse_time cd (rfc3339_nano now) \<noteq> None \<and> wf_tree (files w) \<and>
     (\<forall>r m d. source_file w (resolve cwd dataDir) r m d \<or> source_file w (resolve cwd configDir) r m d \<longrightarrow> portable r)"

lemma backup_of_entries:
  assumes b: "backup_of cd cwd now dataDir configDir password w data"
    and can: "can_back_up cd now cwd dataDir configDir w"
    and s: "sealed_with password plain data" and r: "readArchive cd plain = Inr es"
  shows "g \<in> set es \<longleftrightarrow>
      (\<exists>r m d. source_file w (resolve cwd dataDir) r m d \<and> g = file_entry ''data'' r m d) \<or>
      (\<exists>r m d. source_file w (resolve cwd configDir) r m d \<and> g = file_entry ''config'' r m d)"
proof -
  from b obtain ces w1 where c: "collect cwd dataDir configDir w = (Inr ces, w1)"
    and m: "makeArchive cd now ces = Inr plain"
    using sealed_with_unique [OF s] unfolding backup_of_def by blast
  have wf: "wf_tree (files w)" using can by (simp add: can_back_up_def)
  have "list_all archivable ces"
    by (rule collect_archivable [OF c wf]) (use can in \<open>auto simp: can_back_up_def\<close>)
  with archive_trip [OF _ _ m collect_Inr(2) [OF c wf]] can r
  have es: "es = sort_key entry_name (map masked ces)" by (simp add: can_back_up_def)
  have "masked f = f" if "f \<in> set ces" for f
    using that unfolding collect_Inr(1) [OF c wf]
    by (elim disjE exE conjE) (simp_all add: masked_def file_entry_def and.assoc)
  then have "map masked ces = ces" by (simp add: map_idI)
  with es have "set es = set ces" by simp
  then show ?thesis using collect_Inr(1) [OF c wf] by simp
qed

lemma restored_after_create:
  assumes made: "Create cd cwd now dataDir configDir output password w = (Inr u, w1)"
    and can: "can_back_up cd now cwd dataDir configDir w"
    and out: "names_entry output" "\<not> prefix backup_pre (entry_base output)"
    and again: "Restore cd cwd' nano input a b password replace v = (Inr x, v')"
    and same: "at v (resolve cwd' input) = at w1 (resolve cwd output)" and room: "room_for cwd' a b v"
  shows "restored w (resolve cwd dataDir) (umask v) v' (resolve cwd' a) \<and>
    restored w (resolve cwd configDir) (umask v) v' (resolve cwd' b)"
proof -
  from Create_result(1) [OF made out] obtain data where b: "backup_of cd cwd now dataDir configDir password w data"
    and f: "at w1 (resolve cwd output) = Some (Regular mode_0600 data)" by auto
  from Restore_result [OF again room] obtain es where acc: "accepted_backup cd v (resolve cwd' input) password es"
    and inst: "installed (umask v) cwd' a b es v'" by auto
  from acc same f obtain plain where s: "sealed_with password plain data" and r: "readArchive cd plain = Inr es"
    by (auto simp: accepted_backup_def)
  note es = backup_of_entries [OF b can s r]
  have wf: "wf_tree (files w)" using can by (simp add: can_back_up_def)
  from inst have h: "holds (umask v) (resolve cwd' a) ''data'' es v'" "holds (umask v) (resolve cwd' b) ''config'' es v'"
    by (simp_all add: installed_def)
  have "restored w (resolve cwd dataDir) (umask v) v' (resolve cwd' a)"
    using holds_restored [OF h(1) _ wf es] by simp
  moreover have "restored w (resolve cwd configDir) (umask v) v' (resolve cwd' b)"
    using holds_restored [OF h(2) _ wf es] by simp
  ultimately show ?thesis ..
qed

end
