(* ===== verification/Backup_Round.thy ===== *)
theory Backup_Round
  imports Backup_Outcomes
begin

text \<open>
  The properties of \<open>Create\<close> and \<open>Restore\<close>, and a backup of a small installation that is
  created, carried to an empty machine and restored there.
\<close>

section \<open>The demonstration\<close>

definition empty_world :: "string \<Rightarrow> world" where
  "empty_world d =
     \<lparr>files = [([''new''], Directory mode_0755), ([''new'', ''in.bak''], Regular mode_0600 d)],
      faults = [], rand = (\<lambda>i. i), umask = 63\<rparr>"

lemma region_base:
  assumes "names_entry d" and "q \<in> region cwd d"
  shows "\<exists>c s. q = dir_of cwd d @ c # s \<and> prefix (entry_base d) c"
  using assms(2) by (auto simp: region_def destination_paths [OF assms(1)] prefix_def)

lemma scratch_base: "q \<in> scratch dir pre suf \<Longrightarrow> \<exists>c s. q = dir @ c # s \<and> prefix pre c"
  by (auto simp: scratch_def temp_name_def prefix_def)

lemma demo_room: "room_for [''new''] ''data'' ''config'' (empty_world d)"
proof -
  have b: "entry_base ''data'' = ''data''" "entry_base ''config'' = ''config''" by code_simp+
  have n: "names_entry ''data''" "names_entry ''config''" by (simp_all add: names_entry_def plain_segment_def)
  have dir: "dir_of [''new''] ''data'' = [''new'']" "dir_of [''new''] ''config'' = [''new'']" by code_simp+
  have r: "\<exists>c s. q = [''new''] @ c # s \<and> prefix ''data'' c" if "q \<in> region [''new''] ''data''" for q
    using region_base [OF n(1) that] unfolding b dir .
  have r': "\<exists>c s. q = [''new''] @ c # s \<and> prefix ''config'' c" if "q \<in> region [''new''] ''config''" for q
    using region_base [OF n(2) that] unfolding b dir .
  have t: "\<exists>c s. q = [''new''] @ c # s \<and> prefix restore_pre c" if "q \<in> scratch [''new''] restore_pre []" for q
    using scratch_base [OF that] .
  have "region [''new''] ''data'' \<inter> region [''new''] ''config'' = {}"
    using r r' by (fastforce simp: prefix_def)
  moreover have "region [''new''] ''data'' \<inter> scratch [''new''] restore_pre [] = {}"
    using r t by (fastforce simp: prefix_def)
  moreover have "region [''new''] ''config'' \<inter> scratch [''new''] restore_pre [] = {}"
    using r' t by (fastforce simp: prefix_def)
  ultimately have "dests_ok [''new''] ''data'' ''config''" by (simp add: dests_ok_def n dir)
  moreover have "no_strays [''new''] (empty_world d)"
    by (auto simp: no_strays_def temp_name_def empty_world_def lookup_def)
  ultimately show ?thesis by (simp add: room_for_def dir)
qed

lemma demo_can: "can_back_up demo_codec 0 [''srv''] ''data'' ''config'' source_world"
proof -
  have p: "resolve [''srv''] ''data'' = [''srv'', ''data'']" "resolve [''srv''] ''config'' = [''srv'', ''config'']"
    by code_simp+
  have "utf8_valid ''data/pki/state.json''" "utf8_valid ''config/pki/state.json''"
    "utf8_valid ''data/ca.pass''" "utf8_valid ''config/ca.pass''"
    by (rule utf8_valid_ascii, simp add: code_def)+
  then have "portable [''pki'', ''state.json'']" "portable [''ca.pass'']"
    by (simp_all add: portable_def del: utf8_valid.simps)
  moreover have "r = [''pki'', ''state.json''] \<or> r = [''ca.pass'']"
    if "source_file source_world [''srv'', ''data''] r m d \<or> source_file source_world [''srv'', ''config''] r m d" for r m d
    using that by (auto simp: source_file_def source_world_def lookup_def split: if_splits)
  ultimately have "portable r"
    if "source_file source_world [''srv'', ''data''] r m d \<or> source_file source_world [''srv'', ''config''] r m d" for r m d
    using that by blast
  then show ?thesis unfolding can_back_up_def p
    using demo_faithful source_world_wf by (simp add: demo_codec_def)
qed

lemma encrypt_run:
  assumes "faults w = []"
  shows "\<exists>data. encrypt plain password w = (Inr data, w\<lparr>rand := \<lambda>i. rand w (28 + i)\<rparr>)"
  using assms by (simp add: encrypt_def bindE_def liftE_def returnE_def Let_def rand_read_def syscall_def
      aes_NewCipher_def add.assoc [symmetric])

lemma fst_run: "fst x = r \<Longrightarrow> \<exists>w. x = (r, w)"
  by (cases x) simp

lemma demo_artifact_written:
  "fst (bindE (wrapE ''create backup output directory'' (os_mkdir_all (dir_of [''srv''] ''out.bak'') mode_0700))
      (\<lambda>_. write_artifact [''srv''] ''out.bak'' d)
      \<lparr>files = files source_world, faults = [], rand = (\<lambda>i. if i = 0 then 28 else g i), umask = 63\<rparr>) = Inr ()"
  by code_simp

lemma demo_collected:
  "\<exists>w'. collect [''srv''] ''data'' ''config'' source_world = (Inr demo_entries, w') \<and>
     files w' = files source_world \<and> faults w' = [] \<and> umask w' = 63 \<and> rand w' 28 = 28"
proof -
  let ?c = "collect [''srv''] ''data'' ''config'' source_world"
  have "faults (snd ?c) = []" "rand (snd ?c) 28 = 28" by code_simp+
  moreover from source_world_collect [unfolded demo_entries_sorted] obtain w' where c: "?c = (Inr demo_entries, w')" by blast
  moreover have "files w' = files source_world" "umask w' = umask source_world"
    using reads_onlyD [OF reads_collect c] reads_only_umask [OF reads_collect c] .
  ultimately show ?thesis by (simp add: source_world_def)
qed


lemma demo_created:
  "\<exists>data w'. Create demo_codec [''srv''] 0 ''data'' ''config'' ''out.bak'' ''secret'' source_world = (Inr (), w') \<and>
     at w' (resolve [''srv''] ''out.bak'') = Some (Regular mode_0600 data) \<and> length data \<le> maxBackupSize \<and>
     backup_of demo_codec [''srv''] 0 ''data'' ''config'' ''secret'' source_world data"
proof -
  from demo_collected obtain w1 where c: "collect [''srv''] ''data'' ''config'' source_world = (Inr demo_entries, w1)"
    and w1: "files w1 = files source_world" "faults w1 = []" "umask w1 = 63" "rand w1 28 = 28" by blast
  from demo_trip obtain plain where m: "makeArchive demo_codec 0 demo_entries = Inr plain"
    and len: "length plain \<le> 10000" by blast
  from encrypt_run [OF w1(2)] obtain data where
    e: "encrypt plain ''secret'' w1 = (Inr data, w1\<lparr>rand := \<lambda>i. rand w1 (28 + i)\<rparr>)" by blast
  let ?g = "\<lambda>i. rand w1 (28 + i)"
  have g: "?g = (\<lambda>i. if i = 0 then 28 else ?g i)" using w1(4) by auto
  have world: "w1\<lparr>rand := ?g\<rparr> =
      \<lparr>files = files source_world, faults = [], rand = (\<lambda>i. if i = 0 then 28 else ?g i), umask = 63\<rparr>"
    using w1 g by (cases w1) simp
  have seal: "sealed_archive demo_codec [''srv''] 0 ''data'' ''config'' ''secret'' source_world = (Inr data, w1\<lparr>rand := ?g\<rparr>)"
    by (simp add: sealed_archive_def bindE_def checkE_def returnE_def liftE_def c m e)
  obtain w' where "bindE (wrapE ''create backup output directory'' (os_mkdir_all (dir_of [''srv''] ''out.bak'') mode_0700))
      (\<lambda>_. write_artifact [''srv''] ''out.bak'' data) (w1\<lparr>rand := ?g\<rparr>) = (Inr (), w')"
    unfolding world using fst_run [OF demo_artifact_written [of data ?g]] by blast
  with seal have run: "Create demo_codec [''srv''] 0 ''data'' ''config'' ''out.bak'' ''secret'' source_world = (Inr (), w')"
    by (simp add: Create_halves bindE_def)
  have out: "names_entry ''out.bak''" "\<not> prefix backup_pre (entry_base ''out.bak'')" by code_simp+
  from Create_result(1) [OF run out] obtain data' where
    b: "backup_of demo_codec [''srv''] 0 ''data'' ''config'' ''secret'' source_world data'"
    and f: "at w' (resolve [''srv''] ''out.bak'') = Some (Regular mode_0600 data')" by auto
  from b c m obtain salt nonce where "length salt = 16" "length nonce = 12" "data' = artifact ''secret'' salt nonce plain"
    by (auto simp: backup_of_def sealed_with_def)
  then have "length data' \<le> maxBackupSize" using len by (simp add: length_artifact maxBackupSize_def)
  with run f b show ?thesis by blast
qed

lemma demo_installed:
  "fst (install_entries [''new''] (\<lambda>i. 7) ''data'' ''config'' False demo_entries (empty_world d)) = Inr ()"
  by code_simp

lemma demo_restored:
  assumes len: "length d \<le> maxBackupSize" and b: "backup_of demo_codec [''srv''] 0 ''data'' ''config'' ''secret'' source_world d"
  shows "\<exists>v'. Restore demo_codec [''new''] (\<lambda>i. 7) ''in.bak'' ''data'' ''config'' ''secret'' False (empty_world d) = (Inr (), v')"
proof -
  let ?v = "empty_world d"
  have p: "resolve [''new''] ''in.bak'' = [''new'', ''in.bak'']" "resolve [''new''] ''data'' = [''new'', ''data'']"
    "resolve [''new''] ''config'' = [''new'', ''config'']" by code_simp+
  have st: "os_lstat [''new'', ''in.bak''] ?v = (Inr (Regular mode_0600 d), ?v)"
    "os_read_file [''new'', ''in.bak''] ?v = (Inr d, ?v)"
    "os_lstat [''new'', ''data''] ?v = (Inl (PathErr ''lstat'' [''new'', ''data''] ENOENT), ?v)"
    "os_lstat [''new'', ''config''] ?v = (Inl (PathErr ''lstat'' [''new'', ''config''] ENOENT), ?v)"
    by (simp_all add: os_lstat_def os_read_file_def syscall_def empty_world_def stat_def blocked_def lookup_def parents_def dir_at_def)
  from b demo_collected obtain plain where m: "makeArchive demo_codec 0 demo_entries = Inr plain"
    and s: "sealed_with ''secret'' plain d" by (auto simp: backup_of_def)
  have dec: "decrypt d ''secret'' = Inr plain" using s by (simp add: decrypt_Inr)
  from demo_trip m have arch: "readArchive demo_codec plain = Inr demo_entries" by simp
  have "read_artifact demo_codec [''new''] ''in.bak'' ''data'' ''config'' ''secret'' False ?v = (Inr demo_entries, ?v)"
    by (simp add: read_artifact_def refuse_existing_def bindE_def checkE_def tryE_def wrapE_def returnE_def liftE_def
        p st bounded_regular_def len dec arch)
  with demo_installed [of d] show ?thesis
    using fst_run [OF demo_installed [of d]] by (auto simp add: Restore_halves bindE_def)
qed


section \<open>The properties\<close>



text \<open>C36. \<open>Create\<close> leaves at the output path the old node, and then reports an error, or all of a
  new private artifact: the archive of the files of both directories sealed under the password. A
  success means the new artifact is there. Apart from temporary names, only missing directories on the
  way to the output are added.\<close>

theorem create_is_atomic:
  assumes "Create cd cwd now dataDir configDir output password w = (r, w')"
    and "names_entry output" and "\<not> prefix backup_pre (entry_base output)"
  shows "(at w' (resolve cwd output) = at w (resolve cwd output) \<and> (\<exists>e. r = Inl e) \<or>
      (\<exists>data. backup_of cd cwd now dataDir configDir password w data \<and>
         at w' (resolve cwd output) = Some (Regular mode_0600 data))) \<and>
    (\<forall>q. q \<notin> scratch (dir_of cwd output) backup_pre ''.tmp'' \<and> \<not> prefix (resolve cwd output) q \<longrightarrow>
      at w' q = at w q \<or> prefix q (dir_of cwd output) \<and> at w q = None \<and> dir_at (files w') q)"
  using Create_result(1) [OF assms] Create_result(2) [OF assms] by blast

theorem create_is_atomic_witness:
  "\<exists>data w'. Create demo_codec [''srv''] 0 ''data'' ''config'' ''out.bak'' ''secret'' source_world = (Inr (), w') \<and>
     backup_of demo_codec [''srv''] 0 ''data'' ''config'' ''secret'' source_world data \<and>
     at w' (resolve [''srv''] ''out.bak'') = Some (Regular mode_0600 data)"
proof -
  from demo_created obtain w' where
    run: "Create demo_codec [''srv''] 0 ''data'' ''config'' ''out.bak'' ''secret'' source_world = (Inr (), w')" by blast
  have "names_entry ''out.bak''" "\<not> prefix backup_pre (entry_base ''out.bak'')" by code_simp+
  from create_is_atomic [OF run this] run show ?thesis by blast
qed

text \<open>C34. A backup made by a successful \<open>Create\<close>, wherever it was carried to, restores to the
  source: after a successful \<open>Restore\<close> with the same password the regular files below the two
  destinations are exactly those the two source directories had when the backup was made, each with its
  content and, of its mode, the nine permission bits less the creation mask of the process that restores.
  Assumed is that the tar package reads back what it wrote and the time stamp can be parsed; that the
  paths of the source files are UTF-8 without NUL; that the output of \<open>Create\<close> is not named like its
  own temporary file; and that there is room to restore: the two destinations and the names of temporary
  and side directories lie apart, and no file hides below such a name.\<close>

theorem create_then_restore:
  assumes "Create cd cwd now dataDir configDir output password w = (Inr u, w1)"
    and "can_back_up cd now cwd dataDir configDir w"
    and "names_entry output" and "\<not> prefix backup_pre (entry_base output)"
    and "Restore cd cwd' nano input a b password replace v = (Inr x, v')"
    and "at v (resolve cwd' input) = at w1 (resolve cwd output)" and "room_for cwd' a b v"
  shows "restored w (resolve cwd dataDir) (umask v) v' (resolve cwd' a) \<and>
    restored w (resolve cwd configDir) (umask v) v' (resolve cwd' b)"
  using assms by (rule restored_after_create)

theorem create_then_restore_witness:
  "\<exists>d v'. Restore demo_codec [''new''] (\<lambda>i. 7) ''in.bak'' ''data'' ''config'' ''secret'' False (empty_world d) = (Inr (), v') \<and>
     restored source_world (resolve [''srv''] ''data'') 63 v' (resolve [''new''] ''data'') \<and>
     restored source_world (resolve [''srv''] ''config'') 63 v' (resolve [''new''] ''config'')"
proof -
  from demo_created obtain d w' where
    c: "Create demo_codec [''srv''] 0 ''data'' ''config'' ''out.bak'' ''secret'' source_world = (Inr (), w')"
    and f: "at w' (resolve [''srv''] ''out.bak'') = Some (Regular mode_0600 d)" and "length d \<le> maxBackupSize"
    and "backup_of demo_codec [''srv''] 0 ''data'' ''config'' ''secret'' source_world d" by blast
  from demo_restored [OF this(3,4)] obtain v' where
    run: "Restore demo_codec [''new''] (\<lambda>i. 7) ''in.bak'' ''data'' ''config'' ''secret'' False (empty_world d) = (Inr (), v')"
    by blast
  have out: "names_entry ''out.bak''" "\<not> prefix backup_pre (entry_base ''out.bak'')" by code_simp+
  have "resolve [''new''] ''in.bak'' = [''new'', ''in.bak'']" by code_simp
  then have same: "at (empty_world d) (resolve [''new''] ''in.bak'') = at w' (resolve [''srv''] ''out.bak'')"
    unfolding f by (simp add: empty_world_def lookup_def)
  have "umask (empty_world d) = 63" by (simp add: empty_world_def)
  with create_then_restore [OF c demo_can out run same demo_room] run show ?thesis by auto
qed

section \<open>A failed restore to fresh destinations\<close>

text \<open>
  \<open>rollback\<close> skips the items that replaced nothing: when publishing the second directory fails,
  the first one stays published, and a second attempt is refused because its destination exists.
\<close>

definition half_way :: world where
  "half_way =
     \<lparr>files = [([''new''], Directory mode_0755), ([''new'', ''t1''], Directory mode_0700), ([''new'', ''t2''], Directory mode_0700)],
      faults = [None, None, None, None, None, Some 0], rand = (\<lambda>i. i), umask = 63\<rparr>"

theorem failed_fresh_restore_stays:
  "case publish [''new''] (\<lambda>i. 7) [\<lparr>temp = [''new'', ''t1''], destination = ''data'', old = []\<rparr>,
       \<lparr>temp = [''new'', ''t2''], destination = ''config'', old = []\<rparr>] False half_way of
     (r, w') \<Rightarrow> r = Inl (LinkErr ''rename'' [''new'', ''t2''] [''new'', ''config''] EIO) \<and>
       at w' [''new'', ''data''] = Some (Directory mode_0700)"
  by code_simp

text \<open>\<open>filepath.Dir\<close> of a path with a trailing slash is the path itself: preparing the restore
  creates the destination that publishing then finds to exist.\<close>

theorem trailing_slash_names_its_own_parent:
  "dir_of cwd ''/srv/data/'' = resolve cwd ''/srv/data/''"
  by code_simp

end
