(* ===== verification/Go_Json_Utf8.thy ===== *)
theory Go_Json_Utf8
  imports Go_Json_Rules
begin

text \<open>
  Whatever bytes are parsed, the strings of the value are UTF-8: malformed bytes and lone surrogates
  become U+FFFD. So a value that comes out of a decoder can be written and read back.
\<close>

lemma in_range_append: "i < length a \<Longrightarrow> in_range lo hi (a @ b) i = in_range lo hi a i"
  by (simp add: in_range_def nth_append)

text \<open>A sequence the string starts with is one of its own.\<close>

lemma utf8_valid_chunk:
  assumes "utf8_len s \<noteq> 0" and "utf8_valid t"
  shows "utf8_valid (take (utf8_len s) s @ t)"
proof -
  have l: "utf8_len (take (utf8_len s) s @ t) = utf8_len s" by (rule utf8_len_take [OF refl assms(1)])
  obtain c cs where s: "take (utf8_len s) s = c # cs"
    using assms(1) by (cases "take (utf8_len s) s") (auto simp: utf8_len_def in_range_def utf8_defs split: if_splits)
  have "length (c # cs) = utf8_len s" using s utf8_len_le [of s] by (metis length_take min.absorb2)
  then have "drop (utf8_len s - 1) (cs @ t) = t" by auto
  with l s assms show ?thesis by simp
qed

lemma utf8_encode_chunk:
  assumes "n < 55296 \<or> 57343 < n" and "n < 1114112"
  shows "\<exists>k. k \<noteq> 0 \<and> utf8_len (utf8_encode n) = k \<and> length (utf8_encode n) = k"
proof -
  have c: "code (char_of k) = k mod 256" for k by (simp add: code_def)
  have le: "k mod 64 \<le> 63" for k :: nat using mod_less_divisor [of 64 k] by linarith
  consider "n < 128" | "128 \<le> n" "n < 2048" | "2048 \<le> n" "n < 65536" | "65536 \<le> n" by linarith
  then show ?thesis
  proof cases
    case 1
    then show ?thesis by (simp add: utf8_encode_def utf8_len_def in_range_def c)
  next
    case 2
    have "n div 64 < 32" using 2 by (simp add: less_mult_imp_div_less)
    moreover have "2 \<le> n div 64" using div_le_mono [OF 2(1), of 64] by simp
    ultimately show ?thesis using 2 by (simp add: utf8_encode_def utf8_len_def utf8_defs in_range_def c)
  next
    case 3
    have d: "n div 4096 < 16" "n div 64 mod 64 < 64" "n mod 64 < 64" using 3 by auto
    have s64: "n div 64 div 64 = n div 4096" by (simp add: div_mult2_eq [symmetric])
    have dm: "n div 64 = 64 * (n div 4096) + n div 64 mod 64"
      using mult_div_mod_eq [of 64 "n div 64"] by (simp only: s64)
    have e: "n div 4096 = 0 \<Longrightarrow> 32 \<le> n div 64 mod 64" using dm div_le_mono [OF 3(1), of 64] by simp
    have f: "n div 64 mod 64 < 32" if "n div 4096 = 13"
    proof -
      have "n div 4096 \<noteq> 13" if "57344 \<le> n" using div_le_mono [OF that, of 4096] by simp
      with that assms(1) have "n \<le> 55295" by fastforce
      then have "n div 64 \<le> 863" using div_le_mono [of n 55295 64] by simp
      with dm that show ?thesis by simp
    qed
    from 3 d e f show ?thesis
      by (cases "n div 4096 = 0"; cases "n div 4096 = 13")
        (simp_all add: utf8_encode_def utf8_len_def utf8_defs in_range_def c nth_Cons' le)
  next
    case 4
    have d: "n div 262144 < 5" "n div 4096 mod 64 < 64" "n div 64 mod 64 < 64" "n mod 64 < 64" using assms by auto
    have s64: "n div 4096 div 64 = n div 262144" by (simp add: div_mult2_eq [symmetric])
    have dm: "n div 4096 = 64 * (n div 262144) + n div 4096 mod 64"
      using mult_div_mod_eq [of 64 "n div 4096"] by (simp only: s64)
    have e: "n div 262144 = 0 \<Longrightarrow> 16 \<le> n div 4096 mod 64" using dm div_le_mono [OF 4, of 4096] by simp
    have "n div 4096 \<le> 271" using div_le_mono [of n 1114111 4096] assms(2) by simp
    then have f: "n div 262144 = 4 \<Longrightarrow> n div 4096 mod 64 < 16" using dm by simp
    from 4 d e f show ?thesis
      by (cases "n div 262144 = 0"; cases "n div 262144 = 4")
        (simp_all add: utf8_encode_def utf8_len_def utf8_defs in_range_def c nth_Cons' le)
  qed
qed

lemma utf8_valid_encode:
  assumes "n < 55296 \<or> 57343 < n" and "n < 1114112" and "utf8_valid t"
  shows "utf8_valid (utf8_encode n @ t)"
proof -
  obtain k where k: "k \<noteq> 0" "utf8_len (utf8_encode n) = k" "length (utf8_encode n) = k"
    using utf8_encode_chunk [OF assms(1,2)] by blast
  then have "take (utf8_len (utf8_encode n)) (utf8_encode n) = utf8_encode n" by simp
  with utf8_valid_chunk [of "utf8_encode n" t] k assms(3) show ?thesis by simp
qed

lemma hex_val_less: "hex_val c = Some k \<Longrightarrow> k < 16"
  by (auto simp: hex_val_def is_digit_def split: if_splits)

lemma hex4_less: "hex4 s = Some n \<Longrightarrow> n < 65536"
proof -
  assume h: "hex4 s = Some n"
  then obtain a b c d r where s: "s = a # b # c # d # r" by (cases s rule: hex4.cases) auto
  with h obtain i j k l where "hex_val a = Some i" "hex_val b = Some j" "hex_val c = Some k" "hex_val d = Some l"
    and n: "n = i * 4096 + j * 256 + k * 16 + l"
    by (auto split: option.splits)
  then have "i < 16" "j < 16" "k < 16" "l < 16" by (auto dest: hex_val_less)
  with n show "n < 65536" by simp
qed

lemma simple_escape_ascii: "simple_escape e = Some b \<Longrightarrow> code b < 128"
  by (auto simp: simple_escape_def code_def split: if_splits)

lemma utf8_valid_Cons_ascii: "code c < 128 \<Longrightarrow> utf8_valid t \<Longrightarrow> utf8_valid (c # t)"
  by (simp add: utf8_len_ascii)

lemma add_bytes_Some: "add_bytes b r = Some (s, t) \<longleftrightarrow> (\<exists>u. r = Some (u, t) \<and> s = b @ u)"
  by (auto simp: add_bytes_def)

lemma json_unbody_utf8: "json_unbody s = Some (x, t) \<Longrightarrow> utf8_valid x"
proof (induction s arbitrary: x t rule: json_unbody.induct)
  case (2 c cs)
  note step = "2.prems" [unfolded json_unbody.simps(2)]
  consider "c = quot" | "c = bslash" "code c \<ge> 32" "c \<noteq> quot" | "code c < 128" "code c \<ge> 32" "c \<noteq> bslash" "c \<noteq> quot"
    | "128 \<le> code c" "c \<noteq> quot" "c \<noteq> bslash"
    using step by (auto simp: code_def split: if_splits) 
  then show ?case
  proof cases
    case 1
    with step show ?thesis by simp
  next
    case b: 2
    show ?thesis
    proof (cases cs)
      case Nil
      with step b show ?thesis by simp
    next
      case (Cons e r)
      show ?thesis
      proof (cases "e = CHR ''u''")
        case u: True
        then obtain n where n: "hex4 r = Some n" using step b Cons by (auto split: option.splits)
        note IH = "2.IH"(1-3) [OF b(3) _ b(1) Cons u n]
        have le: "n < 65536" using hex4_less [OF n] .
        show ?thesis
        proof (cases "55296 \<le> n \<and> n \<le> 56319 \<and> low_surrogate (drop 4 r) \<noteq> None")
          case True
          then obtain l where l: "low_surrogate (drop 4 r) = Some l" by auto
          then have l2: "56320 \<le> l" "l \<le> 57343" by (auto simp: low_surrogate_def split: if_splits option.splits)
          from True step b Cons u n l obtain y where "json_unbody (drop 10 r) = Some (y, t)"
            and x: "x = utf8_encode (65536 + (n - 55296) * 1024 + (l - 56320)) @ y"
            by (auto simp: add_bytes_Some)
          with IH(1) True b have "utf8_valid y" by auto
          with l2 True show ?thesis unfolding x by (intro utf8_valid_encode) auto
        next
          case no: False
          then obtain y k where y: "json_unbody (drop 4 r) = Some (y, t)" and x: "x = utf8_encode k @ y"
            and k: "k < 55296 \<or> 57343 < k" "k < 1114112"
            using step b Cons u n le by (auto simp: add_bytes_Some split: if_splits)
          have "utf8_valid y"
            using IH(2,3) [of y t] no y b by (cases "55296 \<le> n \<and> n \<le> 57343") auto
          with k show ?thesis unfolding x by (intro utf8_valid_encode)
        qed
      next
        case u: False
        then obtain d where d: "simple_escape e = Some d" using step b Cons by (auto split: option.splits)
        with step b Cons u obtain y where "json_unbody r = Some (y, t)" "x = d # y" by (auto simp: add_bytes_Some)
        with "2.IH"(4) [OF b(3) _ b(1) Cons u d] b simple_escape_ascii [OF d] show ?thesis
          by (auto intro: utf8_valid_Cons_ascii simp del: utf8_valid.simps)
      qed
    qed
  next
    case a: 3
    with step obtain y where "json_unbody cs = Some (y, t)" "x = c # y" by (auto simp: add_bytes_Some)
    with "2.IH"(5) [OF a(4) _ a(3,1)] a show ?thesis by (auto intro: utf8_valid_Cons_ascii simp del: utf8_valid.simps)
  next
    case m: 4
    show ?thesis
    proof (cases "utf8_len (c # cs) = 0")
      case True
      with m step obtain y where "json_unbody cs = Some (y, t)" "x = utf8_encode 65533 @ y" by (auto simp: add_bytes_Some)
      with "2.IH"(6) [OF m(2) _ m(3) _ True] m show ?thesis by (auto intro: utf8_valid_encode)
    next
      case False
      with m step obtain y where "json_unbody (drop (utf8_len (c # cs) - 1) cs) = Some (y, t)"
        and "x = take (utf8_len (c # cs)) (c # cs) @ y" by (auto simp: add_bytes_Some)
      with "2.IH"(7) [OF m(2) _ m(3) _ False] m utf8_valid_chunk [OF False, of y] show ?thesis by auto
    qed
  qed
qed (simp add: json_unbody.simps)

text \<open>All strings of a value, at any depth.\<close>

fun json_text :: "json \<Rightarrow> bool" where
  "json_text (JStr s) = utf8_valid s"
| "json_text (JArr vs) = list_all json_text vs"
| "json_text (JObj ms) = list_all (\<lambda>m. json_text (snd m)) ms"
| "json_text v = True"

lemma parse_text:
  "parse_value n s = Some (v, r) \<Longrightarrow> json_text v"
  "parse_elems n s = Some (vs, r) \<Longrightarrow> list_all json_text vs"
  "parse_members n s = Some (ms, r) \<Longrightarrow> list_all (\<lambda>m. json_text (snd m)) ms"
proof (induction n s and n s and n s arbitrary: v r and vs r and ms r rule: parse_value_parse_elems_parse_members.induct)
  case (2 n s)
  then show ?case
    by (auto split: list.splits if_splits option.splits dest: json_unbody_utf8 simp del: utf8_valid.simps)
next
  case (4 n s)
  from "4.prems" obtain v r1 where v: "parse_value n s = Some (v, r1)" by (auto split: option.splits)
  note IH = "4.IH"(1) [OF v] "4.IH"(2) [OF v refl]
  from "4.prems" v have "(\<exists>r' ws. expect (CHR '','') r1 = Some r' \<and> parse_elems n r' = Some (ws, r) \<and> vs = v # ws) \<or> vs = [v]"
    by (auto split: option.splits)
  with IH show ?case by auto
next
  case (6 n s)
  from "6.prems" obtain r0 k r1 r2 v r3 where h: "expect quot s = Some r0" "json_unbody r0 = Some (k, r1)"
    "expect (CHR '':'') r1 = Some r2" "parse_value n r2 = Some (v, r3)"
    by (auto split: option.splits)
  note IH = "6.IH"(1) [OF h(1,2) refl h(3,4)] "6.IH"(2) [OF h(1,2) refl h(3,4) refl]
  from "6.prems" h have "(\<exists>r' ws. expect (CHR '','') r3 = Some r' \<and> parse_members n r' = Some (ws, r) \<and> ms = (k, v) # ws) \<or> ms = [(k, v)]"
    by (auto split: option.splits)
  with IH show ?case by auto
qed simp_all

lemma json_parse_text: "json_parse s = Some v \<Longrightarrow> json_text v"
  by (auto simp: json_parse_def simp del: parse_value.simps dest: parse_text(1) split: option.splits if_splits)

end
