(* ===== verification/Web_Types.thy ===== *)
theory Web_Types
  imports Go_Json_Rules Io_Monad
begin

text \<open>
  The data of package webapp: the errors, requests, records and downloads of handler.go, the bundle
  manifest of pki_service.go, and their JSON forms. The main result is that a manifest reads back as it
  was written.
\<close>

section \<open>Errors\<close>

definition ErrConflict :: err where "ErrConflict = Sentinel ''resource conflict''"
definition ErrInvalid :: err where "ErrInvalid = Sentinel ''invalid request''"
definition ErrFileNotAllowed :: err where "ErrFileNotAllowed = Sentinel ''file is not available''"
definition ErrCryptoTimeout :: err where "ErrCryptoTimeout = Sentinel ''cryptographic operation timed out''"
definition ErrCryptoFailure :: err where "ErrCryptoFailure = Sentinel ''cryptographic operation failed''"

lemmas web_errors = ErrConflict_def ErrInvalid_def ErrFileNotAllowed_def ErrCryptoTimeout_def ErrCryptoFailure_def

section \<open>Data\<close>

record Status =
  Initialized :: bool

record IssueRequest =
  rq_Name :: string
  rq_CommonName :: string
  rq_DNSNames :: "string list"
  rq_IPAddresses :: "string list"
  rq_ValidDays :: int
  rq_ConfirmServerKeyGeneration :: bool

record CertificateRecord =
  rec_ID :: string
  rec_Kind :: string
  rec_State :: string
  rec_Serials :: "64 word list"
  rec_Purpose :: string
  rec_CommonName :: string
  rec_DNSNames :: "string list"
  rec_IPAddresses :: "string list"
  rec_ValidDays :: int
  rec_IssuedAt :: string
  rec_ExpiresAt :: string

record Download =
  dl_Name :: string
  dl_ContentType :: string
  dl_Data :: string
  dl_Private :: bool

text \<open>The manifest of a bundle: the record, embedded, and the names of its files. A nil slice, which
  only the file itself can bring in, is written as \<open>null\<close>, an empty one as \<open>[]\<close>.\<close>

record bundleManifest =
  mf_Record :: CertificateRecord
  mf_Files :: "string list option"

definition files_of :: "bundleManifest \<Rightarrow> string list" where
  "files_of m = (case mf_Files m of None \<Rightarrow> [] | Some fs \<Rightarrow> fs)"

definition no_record :: CertificateRecord where
  "no_record =
     \<lparr>rec_ID = [], rec_Kind = [], rec_State = [], rec_Serials = [], rec_Purpose = [], rec_CommonName = [],
      rec_DNSNames = [], rec_IPAddresses = [], rec_ValidDays = 0, rec_IssuedAt = [], rec_ExpiresAt = []\<rparr>"

section \<open>Encoding\<close>

definition json_strings :: "string list \<Rightarrow> json" where
  "json_strings xs = JArr (map JStr xs)"

text \<open>A member that \<open>omitempty\<close> leaves out when its value is empty.\<close>

definition optional :: "bool \<Rightarrow> string \<Rightarrow> json \<Rightarrow> (string \<times> json) list" where
  "optional present k v = (if present then [(k, v)] else [])"

definition record_members :: "CertificateRecord \<Rightarrow> (string \<times> json) list" where
  "record_members c =
     [(''id'', JStr (rec_ID c)), (''kind'', JStr (rec_Kind c)), (''state'', JStr (rec_State c))] @
     optional (rec_Serials c \<noteq> []) ''serials'' (JArr (map (\<lambda>n. JNum (dec (unat n))) (rec_Serials c))) @
     optional (rec_Purpose c \<noteq> []) ''purpose'' (JStr (rec_Purpose c)) @
     optional (rec_CommonName c \<noteq> []) ''common_name'' (JStr (rec_CommonName c)) @
     optional (rec_DNSNames c \<noteq> []) ''dns_names'' (json_strings (rec_DNSNames c)) @
     optional (rec_IPAddresses c \<noteq> []) ''ip_addresses'' (json_strings (rec_IPAddresses c)) @
     optional (rec_ValidDays c \<noteq> 0) ''valid_days'' (JNum (itoa (rec_ValidDays c))) @
     optional (rec_IssuedAt c \<noteq> []) ''issued_at'' (JStr (rec_IssuedAt c)) @
     optional (rec_ExpiresAt c \<noteq> []) ''expires_at'' (JStr (rec_ExpiresAt c))"

definition encode_record_json :: "CertificateRecord \<Rightarrow> json" where
  "encode_record_json c = JObj (record_members c)"

definition encode_bundle :: "bundleManifest \<Rightarrow> json" where
  "encode_bundle m = JObj (record_members (mf_Record m) @
     [(''files'', case mf_Files m of None \<Rightarrow> JNull | Some fs \<Rightarrow> json_strings fs)])"

section \<open>Decoding\<close>

text \<open>
  Decoding into a value that is already there: \<open>null\<close> leaves a string, number or boolean as it
  is and makes a slice nil. A slice is filled from its start, element by element over what it holds;
  storage beyond its length is taken as fresh.
\<close>

fun into_string :: "json \<Rightarrow> string \<Rightarrow> string option" where
  "into_string JNull s = Some s"
| "into_string (JStr t) s = Some t"
| "into_string v s = None"

fun into_bool :: "json \<Rightarrow> bool \<Rightarrow> bool option" where
  "into_bool JNull b = Some b"
| "into_bool (JBool c) b = Some c"
| "into_bool v b = None"

fun into_int :: "json \<Rightarrow> int \<Rightarrow> int option" where
  "into_int JNull i = Some i"
| "into_int (JNum l) i = parse_int64 l"
| "into_int v i = None"

fun into_uint64 :: "json \<Rightarrow> 64 word \<Rightarrow> 64 word option" where
  "into_uint64 JNull n = Some n"
| "into_uint64 (JNum l) n = map_option of_nat (parse_uint64 l)"
| "into_uint64 v n = None"

fun into_elems :: "(json \<Rightarrow> 'a \<Rightarrow> 'a option) \<Rightarrow> 'a \<Rightarrow> json list \<Rightarrow> 'a list \<Rightarrow> 'a list option" where
  "into_elems f z [] ys = Some []"
| "into_elems f z (v # vs) ys =
     (case f v (case ys of [] \<Rightarrow> z | y # r \<Rightarrow> y) of
        None \<Rightarrow> None
      | Some x \<Rightarrow> map_option (Cons x) (into_elems f z vs (drop 1 ys)))"

fun into_slice :: "(json \<Rightarrow> 'a \<Rightarrow> 'a option) \<Rightarrow> 'a \<Rightarrow> json \<Rightarrow> 'a list option \<Rightarrow> 'a list option option" where
  "into_slice f z JNull ys = Some None"
| "into_slice f z (JArr vs) ys =
     map_option Some (into_elems f z vs (case ys of None \<Rightarrow> [] | Some xs \<Rightarrow> xs))"
| "into_slice f z v ys = None"

text \<open>A slice whose being nil makes no difference, as an empty one.\<close>

definition into_list :: "(json \<Rightarrow> 'a \<Rightarrow> 'a option) \<Rightarrow> 'a \<Rightarrow> json \<Rightarrow> 'a list \<Rightarrow> 'a list option" where
  "into_list f z v ys = map_option (\<lambda>r. case r of None \<Rightarrow> [] | Some xs \<Rightarrow> xs) (into_slice f z v (Some ys))"

definition set_bundle_field :: "string \<Rightarrow> json \<Rightarrow> bundleManifest \<Rightarrow> bundleManifest option" where
  "set_bundle_field k v m =
     (let c = mf_Record m; put = (\<lambda>c'. m\<lparr>mf_Record := c'\<rparr>) in
      if field_matches k ''id'' then map_option (\<lambda>s. put (c\<lparr>rec_ID := s\<rparr>)) (into_string v (rec_ID c))
      else if field_matches k ''kind'' then map_option (\<lambda>s. put (c\<lparr>rec_Kind := s\<rparr>)) (into_string v (rec_Kind c))
      else if field_matches k ''state'' then map_option (\<lambda>s. put (c\<lparr>rec_State := s\<rparr>)) (into_string v (rec_State c))
      else if field_matches k ''serials'' then
        map_option (\<lambda>ns. put (c\<lparr>rec_Serials := ns\<rparr>)) (into_list into_uint64 0 v (rec_Serials c))
      else if field_matches k ''purpose'' then map_option (\<lambda>s. put (c\<lparr>rec_Purpose := s\<rparr>)) (into_string v (rec_Purpose c))
      else if field_matches k ''common_name'' then
        map_option (\<lambda>s. put (c\<lparr>rec_CommonName := s\<rparr>)) (into_string v (rec_CommonName c))
      else if field_matches k ''dns_names'' then
        map_option (\<lambda>xs. put (c\<lparr>rec_DNSNames := xs\<rparr>)) (into_list into_string [] v (rec_DNSNames c))
      else if field_matches k ''ip_addresses'' then
        map_option (\<lambda>xs. put (c\<lparr>rec_IPAddresses := xs\<rparr>)) (into_list into_string [] v (rec_IPAddresses c))
      else if field_matches k ''valid_days'' then
        map_option (\<lambda>i. put (c\<lparr>rec_ValidDays := i\<rparr>)) (into_int v (rec_ValidDays c))
      else if field_matches k ''issued_at'' then map_option (\<lambda>s. put (c\<lparr>rec_IssuedAt := s\<rparr>)) (into_string v (rec_IssuedAt c))
      else if field_matches k ''expires_at'' then map_option (\<lambda>s. put (c\<lparr>rec_ExpiresAt := s\<rparr>)) (into_string v (rec_ExpiresAt c))
      else if field_matches k ''files'' then map_option (\<lambda>fs. m\<lparr>mf_Files := fs\<rparr>) (into_slice into_string [] v (mf_Files m))
      else Some m)"

definition decode_bundle :: "string \<Rightarrow> bundleManifest option" where
  "decode_bundle data =
     (case json_parse data of
        None \<Rightarrow> None
      | Some j \<Rightarrow> decode_struct set_bundle_field \<lparr>mf_Record = no_record, mf_Files = None\<rparr> j)"

text \<open>Decoding a request strictly: an unknown member is an error.\<close>

definition set_request_field :: "string \<Rightarrow> json \<Rightarrow> IssueRequest \<Rightarrow> IssueRequest option" where
  "set_request_field k v r =
     (if field_matches k ''name'' then map_option (\<lambda>s. r\<lparr>rq_Name := s\<rparr>) (into_string v (rq_Name r))
      else if field_matches k ''common_name'' then
        map_option (\<lambda>s. r\<lparr>rq_CommonName := s\<rparr>) (into_string v (rq_CommonName r))
      else if field_matches k ''dns_names'' then
        map_option (\<lambda>xs. r\<lparr>rq_DNSNames := xs\<rparr>) (into_list into_string [] v (rq_DNSNames r))
      else if field_matches k ''ip_addresses'' then
        map_option (\<lambda>xs. r\<lparr>rq_IPAddresses := xs\<rparr>) (into_list into_string [] v (rq_IPAddresses r))
      else if field_matches k ''valid_days'' then
        map_option (\<lambda>i. r\<lparr>rq_ValidDays := i\<rparr>) (into_int v (rq_ValidDays r))
      else if field_matches k ''confirm_server_key_generation'' then
        map_option (\<lambda>b. r\<lparr>rq_ConfirmServerKeyGeneration := b\<rparr>) (into_bool v (rq_ConfirmServerKeyGeneration r))
      else None)"

section \<open>Round trip\<close>

definition storable_record :: "CertificateRecord \<Rightarrow> bool" where
  "storable_record c \<longleftrightarrow>
     list_all utf8_valid ([rec_ID c, rec_Kind c, rec_State c, rec_Purpose c, rec_CommonName c, rec_IssuedAt c, rec_ExpiresAt c] @
       rec_DNSNames c @ rec_IPAddresses c) \<and>
     - (2 ^ 63) \<le> rec_ValidDays c \<and> rec_ValidDays c < 2 ^ 63"

definition storable_bundle :: "bundleManifest \<Rightarrow> bool" where
  "storable_bundle m \<longleftrightarrow> storable_record (mf_Record m) \<and> list_all utf8_valid (files_of m)"

lemma into_strings: "into_elems into_string [] (map JStr xs) ys = Some xs"
  by (induction xs arbitrary: ys) auto

lemma into_serials: "into_elems into_uint64 0 (map (\<lambda>n. JNum (dec (unat n))) ns) ys = Some (ns :: 64 word list)"
proof (induction ns arbitrary: ys)
  case (Cons n ns)
  have "parse_uint64 (dec (unat n)) = Some (unat n)"
    by (rule parse_uint64_dec) (use unsigned_less [of n] in simp)
  with Cons show ?case by simp
qed simp

lemma into_list_strings: "into_list into_string [] (json_strings xs) ys = Some xs"
  by (simp add: into_list_def json_strings_def into_strings)

lemma into_slice_strings: "into_slice into_string [] (json_strings xs) ys = Some (Some xs)"
  by (simp add: json_strings_def into_strings)

lemma into_list_serials: "into_list into_uint64 0 (JArr (map (\<lambda>n. JNum (dec (unat n))) ns)) ys = Some ns"
  by (simp add: into_list_def into_serials)


lemma fold_names:
  "fold_name ''id'' = ''ID''" "fold_name ''kind'' = ''KIND''" "fold_name ''state'' = ''STATE''"
  "fold_name ''serials'' = ''SERIALS''" "fold_name ''purpose'' = ''PURPOSE''"
  "fold_name ''common_name'' = ''COMMON_NAME''" "fold_name ''dns_names'' = ''DNS_NAMES''"
  "fold_name ''ip_addresses'' = ''IP_ADDRESSES''" "fold_name ''valid_days'' = ''VALID_DAYS''"
  "fold_name ''issued_at'' = ''ISSUED_AT''" "fold_name ''expires_at'' = ''EXPIRES_AT''"
  "fold_name ''files'' = ''FILES''"
  by code_simp+

lemma set_fields:
  "set_bundle_field ''id'' (JStr x) m = Some (m\<lparr>mf_Record := (mf_Record m)\<lparr>rec_ID := x\<rparr>\<rparr>)"
  "set_bundle_field ''kind'' (JStr x) m = Some (m\<lparr>mf_Record := (mf_Record m)\<lparr>rec_Kind := x\<rparr>\<rparr>)"
  "set_bundle_field ''state'' (JStr x) m = Some (m\<lparr>mf_Record := (mf_Record m)\<lparr>rec_State := x\<rparr>\<rparr>)"
  "set_bundle_field ''serials'' (JArr (map (\<lambda>n. JNum (dec (unat n))) ns)) m =
     Some (m\<lparr>mf_Record := (mf_Record m)\<lparr>rec_Serials := ns\<rparr>\<rparr>)"
  "set_bundle_field ''purpose'' (JStr x) m = Some (m\<lparr>mf_Record := (mf_Record m)\<lparr>rec_Purpose := x\<rparr>\<rparr>)"
  "set_bundle_field ''common_name'' (JStr x) m = Some (m\<lparr>mf_Record := (mf_Record m)\<lparr>rec_CommonName := x\<rparr>\<rparr>)"
  "set_bundle_field ''dns_names'' (json_strings xs) m = Some (m\<lparr>mf_Record := (mf_Record m)\<lparr>rec_DNSNames := xs\<rparr>\<rparr>)"
  "set_bundle_field ''ip_addresses'' (json_strings xs) m = Some (m\<lparr>mf_Record := (mf_Record m)\<lparr>rec_IPAddresses := xs\<rparr>\<rparr>)"
  "- (2 ^ 63) \<le> i \<Longrightarrow> i < 2 ^ 63 \<Longrightarrow>
     set_bundle_field ''valid_days'' (JNum (itoa i)) m = Some (m\<lparr>mf_Record := (mf_Record m)\<lparr>rec_ValidDays := i\<rparr>\<rparr>)"
  "set_bundle_field ''issued_at'' (JStr x) m = Some (m\<lparr>mf_Record := (mf_Record m)\<lparr>rec_IssuedAt := x\<rparr>\<rparr>)"
  "set_bundle_field ''expires_at'' (JStr x) m = Some (m\<lparr>mf_Record := (mf_Record m)\<lparr>rec_ExpiresAt := x\<rparr>\<rparr>)"
  "set_bundle_field ''files'' (json_strings xs) m = Some (m\<lparr>mf_Files := Some xs\<rparr>)"
  "set_bundle_field ''files'' JNull m = Some (m\<lparr>mf_Files := None\<rparr>)"
  unfolding set_bundle_field_def Let_def field_matches_def fold_names
  by (simp_all add: into_list_strings into_list_serials parse_int64_itoa into_slice_strings)

lemma decode_optional:
  assumes "b \<Longrightarrow> f k v r = Some r'" and "\<not> b \<Longrightarrow> r' = r"
  shows "decode_members f (optional b k v @ ms) r = decode_members f ms r'"
  using assms by (cases b) (simp_all add: optional_def)

lemma decode_present: "f k v r = Some r' \<Longrightarrow> decode_members f ((k, v) # ms) r = decode_members f ms r'"
  by simp

lemma decode_record:
  assumes "storable_record c"
  shows "decode_members set_bundle_field (record_members c @ ms) \<lparr>mf_Record = no_record, mf_Files = None\<rparr> =
    decode_members set_bundle_field ms \<lparr>mf_Record = c, mf_Files = None\<rparr>"
proof -
  have days: "- (2 ^ 63) \<le> rec_ValidDays c" "rec_ValidDays c < 2 ^ 63" using assms by (simp_all add: storable_record_def)
  note present = decode_present [where f = set_bundle_field] and opt = decode_optional [where f = set_bundle_field]
  show ?thesis
    unfolding record_members_def append.assoc append_Cons append_Nil
    apply (rule trans [OF present [OF set_fields(1)]])
    apply (rule trans [OF present [OF set_fields(2)]])
    apply (rule trans [OF present [OF set_fields(3)]])
    apply (rule trans [OF opt [OF set_fields(4)]], simp add: no_record_def)
    apply (rule trans [OF opt [OF set_fields(5)]], simp add: no_record_def)
    apply (rule trans [OF opt [OF set_fields(6)]], simp add: no_record_def)
    apply (rule trans [OF opt [OF set_fields(7)]], simp add: no_record_def)
    apply (rule trans [OF opt [OF set_fields(8)]], simp add: no_record_def)
    apply (rule trans [OF opt [OF set_fields(9) [OF days]]], simp add: no_record_def)
    apply (rule trans [OF opt [OF set_fields(10)]], simp add: no_record_def)
    apply (rule trans [OF opt [OF set_fields(11)]], simp add: no_record_def)
    by (cases c) (simp add: no_record_def)
qed

lemma members_ok_append: "members_ok (xs @ ys) \<longleftrightarrow> members_ok xs \<and> members_ok ys"
  by (induction xs) auto

lemma members_ok_optional: "utf8_valid k \<Longrightarrow> (b \<Longrightarrow> json_ok v) \<Longrightarrow> members_ok (optional b k v)"
  by (simp add: optional_def)

lemma json_strings_ok: "list_all utf8_valid xs \<Longrightarrow> json_ok (json_strings xs)"
  unfolding json_strings_def by (induction xs) auto

lemma json_serials_ok: "json_ok (JArr (map (\<lambda>n. JNum (dec (unat n))) ns))"
proof -
  have "dec k = itoa (int k)" for k by (simp add: itoa_def)
  then show ?thesis by (induction ns) auto
qed

lemma field_names_ok:
  "utf8_valid ''id''" "utf8_valid ''kind''" "utf8_valid ''state''" "utf8_valid ''serials''" "utf8_valid ''purpose''"
  "utf8_valid ''common_name''" "utf8_valid ''dns_names''" "utf8_valid ''ip_addresses''" "utf8_valid ''valid_days''"
  "utf8_valid ''issued_at''" "utf8_valid ''expires_at''" "utf8_valid ''files''"
  by (rule utf8_valid_ascii, simp add: code_def)+

lemma record_members_ok:
  assumes "storable_record c"
  shows "members_ok (record_members c)"
proof -
  have t: "utf8_valid (rec_ID c)" "utf8_valid (rec_Kind c)" "utf8_valid (rec_State c)" "utf8_valid (rec_Purpose c)"
    "utf8_valid (rec_CommonName c)" "utf8_valid (rec_IssuedAt c)" "utf8_valid (rec_ExpiresAt c)"
    "list_all utf8_valid (rec_DNSNames c)" "list_all utf8_valid (rec_IPAddresses c)"
    using assms by (simp_all add: storable_record_def del: utf8_valid.simps)
  show ?thesis
    unfolding record_members_def members_ok_append
    by (intro conjI members_ok_optional field_names_ok json_strings_ok json_serials_ok t)
      (auto simp add: t field_names_ok simp del: utf8_valid.simps)
qed

lemma encode_bundle_ok:
  assumes "storable_bundle m"
  shows "json_ok (encode_bundle m)"
proof -
  have "json_ok (case mf_Files m of None \<Rightarrow> JNull | Some fs \<Rightarrow> json_strings fs)"
    using assms by (auto simp: storable_bundle_def files_of_def intro: json_strings_ok split: option.splits)
  then have "members_ok [(''files'', case mf_Files m of None \<Rightarrow> JNull | Some fs \<Rightarrow> json_strings fs)]"
    using field_names_ok(12) by (simp del: utf8_valid.simps)
  moreover have "members_ok (record_members (mf_Record m))"
    by (rule record_members_ok) (use assms in \<open>simp add: storable_bundle_def\<close>)
  ultimately show ?thesis unfolding encode_bundle_def json_ok.simps members_ok_append by blast
qed

definition manifest_bytes :: "bundleManifest \<Rightarrow> string" where
  "manifest_bytes m = json_marshal_indent (encode_bundle m) @ [CHR 0x0A]"

lemma decode_manifest_bytes:
  assumes "storable_bundle m"
  shows "decode_bundle (manifest_bytes m) = Some m"
proof -
  have p: "json_parse (manifest_bytes m) = Some (encode_bundle m)"
    unfolding manifest_bytes_def
    by (rule json_parse_marshal_indent [OF encode_bundle_ok [OF assms]]) (simp add: is_space_def)
  have "storable_record (mf_Record m)" using assms by (simp add: storable_bundle_def)
  note d = decode_record [OF this, of "[(''files'', case mf_Files m of None \<Rightarrow> JNull | Some fs \<Rightarrow> json_strings fs)]"]
  show ?thesis
  proof (cases m)
    case (fields c fs)
    with d show ?thesis unfolding decode_bundle_def p
      by (cases fs) (simp_all add: decode_struct_def encode_bundle_def set_fields(12,13))
  qed
qed

end
