(* ===== verification/Go_Net_Parse.thy ===== *)
theory Go_Net_Parse
  imports Go_Net Go_Json_Rules
begin

text \<open>
  Parsing in package \<open>net\<close>: \<open>ParseIP\<close> (through \<open>netip.ParseAddr\<close>),
  \<open>IP.IsLoopback\<close> and \<open>SplitHostPort\<close>. An error is \<open>None\<close>.
\<close>

section \<open>Addresses\<close>

text \<open>The four fields of an IPv4 address: decimal, no leading zero, at most 255.\<close>

definition parse_octet :: "string \<Rightarrow> 8 word option" where
  "parse_octet s =
     (case parse_digits s of
        None \<Rightarrow> None
      | Some n \<Rightarrow> if 255 < n \<or> 1 < length s \<and> hd s = CHR ''0'' then None else Some (of_nat n))"

fun all_some :: "'a option list \<Rightarrow> 'a list option" where
  "all_some [] = Some []"
| "all_some (None # xs) = None"
| "all_some (Some x # xs) = map_option (Cons x) (all_some xs)"

definition parse_ipv4_fields :: "string \<Rightarrow> ip option" where
  "parse_ipv4_fields s =
     (let fields = split_on (CHR ''.'') s in
      if length fields = 4 then all_some (map parse_octet fields) else None)"

text \<open>
  The loop of \<open>parseIPv6\<close>, \<open>n\<close> 16-bit groups still to come: \<open>acc\<close> are the bytes so
  far, \<open>ell\<close> the place of the ellipsis among them.
\<close>

definition hex_any :: "char \<Rightarrow> bool" where
  "hex_any c \<longleftrightarrow> hex_val c \<noteq> None"

definition hex_number :: "string \<Rightarrow> nat" where
  "hex_number s = foldl (\<lambda>v c. 16 * v + (case hex_val c of Some d \<Rightarrow> d | None \<Rightarrow> 0)) 0 s"

fun ip6_fields :: "nat \<Rightarrow> string \<Rightarrow> ip \<Rightarrow> nat option \<Rightarrow> (ip \<times> nat option) option" where
  "ip6_fields 0 s acc ell = (if s = [] then Some (acc, ell) else None)"
| "ip6_fields (Suc n) s acc ell =
     (let ds = takeWhile hex_any s; rest = drop (length ds) s;
          acc' = acc @ [of_nat (hex_number ds div 256), of_nat (hex_number ds mod 256)] in
      if ds = [] \<or> 4 < length ds then None
      else case rest of
          [] \<Rightarrow> Some (acc', ell)
        | c # r \<Rightarrow>
            if c = CHR ''.'' then
              (if ell = None \<and> length acc \<noteq> 12 \<or> 12 < length acc then None
               else map_option (\<lambda>q. (acc @ q, ell)) (parse_ipv4_fields s))
            else if c \<noteq> CHR '':'' \<or> r = [] then None
            else if hd r = CHR '':'' then
              (if ell \<noteq> None then None
               else if tl r = [] then Some (acc', Some (length acc'))
               else ip6_fields n (tl r) acc' (Some (length acc')))
            else ip6_fields n r acc' ell)"

definition parse_ipv6 :: "string \<Rightarrow> ip option" where
  "parse_ipv6 s =
     (if s = ''::'' then Some (replicate 16 0)
      else
        case (if has_prefix s ''::'' then ip6_fields 8 (drop 2 s) [] (Some 0) else ip6_fields 8 s [] None) of
          None \<Rightarrow> None
        | Some (acc, ell) \<Rightarrow>
            (case ell of
               None \<Rightarrow> if length acc < 16 then None else Some acc
             | Some k \<Rightarrow>
                 if length acc < 16 then Some (take k acc @ replicate (16 - length acc) 0 @ drop k acc)
                 else None))"

text \<open>The first dot, colon or percent sign decides; an address with a zone is not accepted.\<close>

definition parse_IP :: "string \<Rightarrow> ip option" where
  "parse_IP s =
     (case dropWhile (\<lambda>c. c \<noteq> CHR ''.'' \<and> c \<noteq> CHR '':'' \<and> c \<noteq> CHR ''%'') s of
        [] \<Rightarrow> None
      | c # r \<Rightarrow>
          if c = CHR ''.'' then map_option (\<lambda>q. replicate 10 0 @ [255, 255] @ q) (parse_ipv4_fields s)
          else if c = CHR '':'' then (if CHR ''%'' \<in> set s then None else parse_ipv6 s)
          else None)"

definition is_loopback :: "ip \<Rightarrow> bool" where
  "is_loopback a =
     (case ip_to4 a of
        Some q \<Rightarrow> hd q = 127
      | None \<Rightarrow> a = replicate 15 0 @ [1])"

section \<open>Host and port\<close>

definition index_of :: "char \<Rightarrow> string \<Rightarrow> nat" where
  "index_of c s = length (takeWhile (\<lambda>x. x \<noteq> c) s)"

definition last_index :: "char \<Rightarrow> string \<Rightarrow> nat" where
  "last_index c s = length s - 1 - index_of c (rev s)"

definition split_host_port :: "string \<Rightarrow> (string \<times> string) option" where
  "split_host_port s =
     (if CHR '':'' \<notin> set s then None
      else
        let i = last_index (CHR '':'') s in
        if hd s = CHR ''['' then
          (let e = index_of (CHR '']'') s in
           if CHR '']'' \<notin> set s \<or> e + 1 \<noteq> i then None
           else if CHR ''['' \<in> set (drop 1 s) \<or> CHR '']'' \<in> set (drop (e + 1) s) then None
           else Some (take (e - 1) (drop 1 s), drop (i + 1) s))
        else if CHR '':'' \<in> set (take i s) \<or> CHR ''['' \<in> set s \<or> CHR '']'' \<in> set s then None
        else Some (take i s, drop (i + 1) s))"

lemma all_some_length: "all_some xs = Some ys \<Longrightarrow> length ys = length xs"
  by (induction xs arbitrary: ys rule: all_some.induct) auto

lemma parse_ipv4_length: "parse_ipv4_fields s = Some q \<Longrightarrow> length q = 4"
  by (auto simp: parse_ipv4_fields_def Let_def dest: all_some_length split: if_splits)

lemma ip6_fields_length:
  "ip6_fields n s acc ell = Some (acc', ell') \<Longrightarrow> length acc + 2 * n = 16 \<Longrightarrow>
     (\<forall>k. ell = Some k \<longrightarrow> k \<le> length acc) \<Longrightarrow> length acc' \<le> 16 \<and> (\<forall>k. ell' = Some k \<longrightarrow> k \<le> length acc')"
proof (induction n arbitrary: s acc ell)
  case (Suc n)
  obtain ds where ds: "takeWhile hex_any s = ds" by blast
  obtain acc2 where acc2: "acc @ [of_nat (hex_number ds div 256), of_nat (hex_number ds mod 256)] = acc2" by blast
  have len: "length acc2 = length acc + 2" using acc2 by auto
  have k2: "k \<le> length acc2" if "ell = Some k" for k using Suc.prems(3) that len by simp
  note step = Suc.prems(1) [unfolded ip6_fields.simps(2) Let_def ds acc2]
  show ?case
  proof (cases "drop (length ds) s")
    case Nil
    with step have "acc' = acc2" "ell' = ell" by (auto split: if_splits)
    with len k2 Suc.prems(2) show ?thesis by auto
  next
    case (Cons c r)
    note step = step [unfolded Cons list.case]
    show ?thesis
    proof (cases "c = CHR ''.''")
      case True
      with step obtain q where "parse_ipv4_fields s = Some q" "acc' = acc @ q" "ell' = ell" "length acc \<le> 12"
        by (auto split: if_splits)
      with parse_ipv4_length [of s q] Suc.prems(3) show ?thesis by force
    next
      case dot: False
      show ?thesis
      proof (cases "hd r = CHR '':''")
        case True
        with step dot have "(if tl r = [] then Some (acc2, Some (length acc2))
            else ip6_fields n (tl r) acc2 (Some (length acc2))) = Some (acc', ell')"
          by (auto split: if_splits)
        then show ?thesis
          using Suc.IH [of "tl r" acc2 "Some (length acc2)"] len Suc.prems(2) by (auto split: if_splits)
      next
        case False
        with step dot have "ip6_fields n r acc2 ell = Some (acc', ell')" by (simp split: if_splits)
        then show ?thesis by (rule Suc.IH) (use len k2 Suc.prems(2) in simp_all)
      qed
    qed
  qed
qed (auto split: if_splits)

text \<open>What is parsed is a 16-byte address.\<close>

lemma parse_IP_length:
  assumes "parse_IP s = Some a"
  shows "length a = 16"
proof -
  have v6: "length a = 16" if "parse_ipv6 s = Some a" for s
  proof -
    obtain x where x: "(if has_prefix s ''::'' then ip6_fields 8 (drop 2 s) [] (Some 0) else ip6_fields 8 s [] None) = x"
      by blast
    show ?thesis
    proof (cases x)
      case None
      with that x show ?thesis by (cases "s = ''::''") (auto simp: parse_ipv6_def)
    next
      case (Some y)
      obtain acc ell where y: "y = (acc, ell)" by (cases y)
      have "length acc \<le> 16 \<and> (\<forall>k. ell = Some k \<longrightarrow> k \<le> length acc)"
        using x unfolding Some y by (auto split: if_splits dest: ip6_fields_length)
      with that show ?thesis unfolding parse_ipv6_def x Some y
        by (auto split: if_splits option.splits)
    qed
  qed
  from assms show ?thesis
    by (auto simp: parse_IP_def dest: v6 parse_ipv4_length split: if_splits list.splits)
qed

lemma parse_IP_examples:
  "parse_IP ''127.0.0.1'' = Some (replicate 10 0 @ [255, 255, 127, 0, 0, 1])"
  "parse_IP ''::1'' = Some (replicate 15 0 @ [1])"
  "parse_IP ''2001:DB8::8:800:200c:417a'' = Some [32, 1, 13, 184, 0, 0, 0, 0, 0, 8, 8, 0, 32, 12, 65, 122]"
  "parse_IP ''::ffff:192.0.2.1'' = Some (replicate 10 0 @ [255, 255, 192, 0, 2, 1])"
  "parse_IP ''1::2::3'' = None" "parse_IP ''1.2.3.04'' = None" "parse_IP ''fe80::1%eth0'' = None"
  "parse_IP ''1:2:3:4:5:6:7::'' = Some [0, 1, 0, 2, 0, 3, 0, 4, 0, 5, 0, 6, 0, 7, 0, 0]"
  "parse_IP ''1:2:3:4:5:6:7:8::'' = None" "parse_IP ''localhost'' = None"
  by code_simp+

lemma split_host_port_examples:
  "split_host_port ''127.0.0.1:8080'' = Some (''127.0.0.1'', ''8080'')"
  "split_host_port ''[::1]:8080'' = Some (''::1'', ''8080'')"
  "split_host_port ''::1:8080'' = None" "split_host_port ''127.0.0.1'' = None"
  "split_host_port '':8080'' = Some ([], ''8080'')" "split_host_port ''[::1]'' = None"
  by code_simp+

end
