(* ===== verification/Web_Service.thy ===== *)
theory Web_Service
  imports Pki_Engine Go_Time Web_Types Go_Net_Parse
begin

text \<open>
  The PKI service of internal/webapp/pki_service.go: the operations the HTTP handler calls, over the
  store, the engine and the files of the data directory. The service's mutex makes issuing and revoking
  one step each. Initialisation does not take it, so between its steps anything other requests do can
  happen. The proofs are in the theories that import this one.
\<close>

section \<open>Data\<close>

text \<open>\<open>svc_engine = None\<close> is a service without an engine.\<close>

record PKIService =
  dataDir :: path
  svc_store :: Store
  svc_engine :: "Engine option"

definition NewPKIService :: "path \<Rightarrow> Store option \<Rightarrow> Engine option \<Rightarrow> PKIService" where
  "NewPKIService dir s e =
     \<lparr>dataDir = dir, svc_store = (case s of None \<Rightarrow> \<lparr>root = dir\<rparr> | Some st \<Rightarrow> st), svc_engine = e\<rparr>"

definition manifestName :: string where
  "manifestName = ''manifest.json''"

definition issued_root :: "PKIService \<Rightarrow> path" where
  "issued_root s = dataDir s @ [''pki'', ''issued'']"

text \<open>The zip package: \<open>zip_entry\<close> is the error of creating and writing the last of the entries
  so far, \<open>zip_close\<close> the archive of the entries.\<close>

record zipper =
  zip_entry :: "(string \<times> string) list \<Rightarrow> err option"
  zip_close :: "(string \<times> string) list \<Rightarrow> err + string"

text \<open>The error of a step replaced by another.\<close>

definition translateE :: "(err \<Rightarrow> err) \<Rightarrow> 'a io \<Rightarrow> 'a io" where
  "translateE f m w = (case m w of (Inl e, w') \<Rightarrow> (Inl (f e), w') | (Inr x, w') \<Rightarrow> (Inr x, w'))"

section \<open>Helpers\<close>

definition safeRouteSegment :: "string \<Rightarrow> bool" where
  "safeRouteSegment v \<longleftrightarrow>
     v \<noteq> [] \<and> v \<noteq> ''.'' \<and> v \<noteq> ''..'' \<and> file_base v = v \<and> \<not> contains_any v [CHR 0x00, CHR ''/'', CHR 0x5C]"

definition containsString :: "string list \<Rightarrow> string \<Rightarrow> bool" where
  "containsString values want = list_ex (\<lambda>v. v = want) values"

definition mapPKIError :: "err \<Rightarrow> err" where
  "mapPKIError e =
     (if errors_is e ErrCommandTimeout then ErrCryptoTimeout
      else if contains_str (err_text e) ''already exist'' then ErrConflict
      else ErrCryptoFailure)"

definition toPKIRequest :: "IssueRequest \<Rightarrow> err + Request" where
  "toPKIRequest input =
     (case all_some (map parse_IP (rq_IPAddresses input)) of
        None \<Rightarrow> Inl ErrInvalid
      | Some ips \<Rightarrow>
          let req = \<lparr>Name = rq_Name input, CommonName = rq_CommonName input, DNSNames = rq_DNSNames input,
                     IPAddresses = ips, ValidDays = rq_ValidDays input\<rparr> in
          if ValidateRequest req \<noteq> None then Inl ErrInvalid else Inr req)"

definition writeManifest :: "path \<Rightarrow> bundleManifest \<Rightarrow> unit io" where
  "writeManifest p m =
     bindE (wrapE ''create certificate manifest'' (os_create_temp (butlast p) ''.manifest-'' ''.tmp'')) (\<lambda>temp.
     deferE (os_remove temp)
      (bindE (fill_temp temp (manifest_bytes m) ''certificate manifest'') (\<lambda>_.
       wrapE ''publish certificate manifest'' (os_rename temp p))))"

definition readManifest :: "path \<Rightarrow> bundleManifest io" where
  "readManifest p =
     bindE (os_read_file p) (\<lambda>data.
       case decode_bundle data of
         None \<Rightarrow> throwE (ErrText ''invalid certificate manifest'')
       | Some m \<Rightarrow> returnE m)"

text \<open>A regular file, by \<open>Lstat\<close> and \<open>ReadFile\<close>; whatever is wrong, it is not available.\<close>

definition read_available :: "path \<Rightarrow> string io" where
  "read_available p =
     bindE (tryE (os_lstat p)) (\<lambda>info.
     bindE (checkE (case info of Inl e \<Rightarrow> False | Inr n \<Rightarrow> is_regular n) ErrFileNotAllowed) (\<lambda>_.
     translateE (\<lambda>_. ErrFileNotAllowed) (os_read_file p)))"

section \<open>Status and initialisation\<close>

fun all_regular :: "path list \<Rightarrow> bool io" where
  "all_regular [] = returnE True"
| "all_regular (p # ps) =
     bindE (tryE (os_lstat p)) (\<lambda>r.
       case r of
         Inl e \<Rightarrow> if is_not_exist e then returnE False else throwE (Wrap ''inspect PKI status: '' e [])
       | Inr info \<Rightarrow> if \<not> is_regular info then returnE False else all_regular ps)"

definition svc_Status :: "PKIService \<Rightarrow> Status io" where
  "svc_Status s =
     bindE (all_regular
       [dataDir s @ [''pki'', ''state.json''], dataDir s @ [''pki'', ''ca'', ''rsa'', ''root-ca.crt''],
        dataDir s @ [''pki'', ''ca'', ''sm2'', ''root-ca.crt'']]) (\<lambda>b.
     returnE \<lparr>Initialized = b\<rparr>)"

text \<open>
  \<open>Initialize\<close> holds no lock of its own: the mutex of the store is held in \<open>Store.Initialize\<close>
  and that of the engine in \<open>InitializeAuthorities\<close>, and each is released on return. What other
  requests do to the world before the authorities are created is \<open>mw 0\<close>, and before a failure is
  cleaned up \<open>mw 1\<close>; the two functions are arbitrary.
\<close>

type_synonym others = "nat \<Rightarrow> world \<Rightarrow> world"

definition meanwhile :: "(world \<Rightarrow> world) \<Rightarrow> unit io" where
  "meanwhile f w = (Inr (), f w)"

definition svc_Initialize :: "others \<Rightarrow> PKIService \<Rightarrow> string \<Rightarrow> unit io" where
  "svc_Initialize mw s organization =
     (case svc_engine s of
        None \<Rightarrow> throwE (ErrText ''PKI engine is unavailable'')
      | Some e \<Rightarrow>
          bindE (translateE
              (\<lambda>err. if errors_is err ErrAlreadyInitialized then ErrConflict
                     else Wrap ''initialize PKI state: '' err [])
              (Store_Initialize (svc_store s))) (\<lambda>_.
          bindE (meanwhile (mw 0)) (\<lambda>_.
          translateE mapPKIError
            (onErrorE (bindE (meanwhile (mw 1)) (\<lambda>_. os_remove_all (dataDir s @ [''pki''])))
              (InitializeAuthorities e organization)))))"

section \<open>The status inventory\<close>

text \<open>What one entry of the directory of bundles adds to the valid and the revoked certificates.\<close>

definition inventory_entry :: "path \<Rightarrow> string \<Rightarrow> string \<Rightarrow> string \<times> node \<Rightarrow> (path list \<times> path list) io" where
  "inventory_entry issued bundleKind revokeID entry =
     (if \<not> is_directory (snd entry) \<or> has_prefix (fst entry) ''.'' then returnE ([], [])
      else
        bindE (tryE (readManifest (issued @ [fst entry, manifestName]))) (\<lambda>r.
          case r of
            Inl e \<Rightarrow> returnE ([], [])
          | Inr manifest \<Rightarrow>
              let c = mf_Record manifest;
                  state = (if rec_ID c = revokeID then ''revoked'' else rec_State c);
                  certs = map (join_path (join_path issued (rec_ID c)))
                    (filter (\<lambda>name. file_ext name = ''.crt'' \<and> safeRouteSegment name) (files_of manifest)) in
              if rec_Kind c \<noteq> bundleKind then returnE ([], [])
              else if state = ''revoked'' then returnE ([], certs)
              else returnE (certs, [])))"

definition refreshIssuer :: "PKIService \<Rightarrow> Engine \<Rightarrow> string \<Rightarrow> string \<Rightarrow> unit io" where
  "refreshIssuer s e bundleKind revokeID =
     bindE (if bundleKind = ''tlcp'' then returnE ''sm2''
            else if bundleKind \<noteq> ''rsa'' then throwE ErrInvalid else returnE ''rsa'') (\<lambda>caKind.
     bindE (wrapE ''list certificate status inventory'' (os_read_dir (issued_root s))) (\<lambda>entries.
     bindE (mapE (inventory_entry (issued_root s) bundleKind revokeID) entries) (\<lambda>found.
     translateE mapPKIError
       (PublishCRL e caKind (concat (map fst found)) (concat (map snd found))))))"

section \<open>Issuing and revoking\<close>

definition issued_record ::
    "string \<Rightarrow> IssueRequest \<Rightarrow> instant \<Rightarrow> 64 word list \<Rightarrow> string \<Rightarrow> CertificateRecord" where
  "issued_record kind input now serials purpose =
     \<lparr>rec_ID = rq_Name input, rec_Kind = kind, rec_State = ''valid'', rec_Serials = serials,
      rec_Purpose = purpose, rec_CommonName = rq_CommonName input, rec_DNSNames = rq_DNSNames input,
      rec_IPAddresses = rq_IPAddresses input, rec_ValidDays = rq_ValidDays input, rec_IssuedAt = rfc3339 now,
      rec_ExpiresAt = rfc3339 (now + rq_ValidDays input * day_ns)\<rparr>"

text \<open>The bundle of a kind: the names of its files, the serials, and the purpose.\<close>

definition issue_bundle :: "Engine \<Rightarrow> string \<Rightarrow> Request \<Rightarrow> (string list \<times> 64 word list \<times> string) io" where
  "issue_bundle e kind req =
     (if kind = ''rsa'' then
        bindE (translateE mapPKIError (IssueRSA e req)) (\<lambda>b.
        returnE ([path_base (CertificatePath b), path_base (KeyPath b)], [Serial b],
          ''TLS Web Server Authentication''))
      else if kind = ''tlcp'' then
        bindE (translateE mapPKIError (IssueTLCP e req)) (\<lambda>b.
        returnE
          ([path_base (CertificatePath (Signing b)), path_base (KeyPath (Signing b)),
            path_base (CertificatePath (Encryption b)), path_base (KeyPath (Encryption b))],
           [Serial (Signing b), Serial (Encryption b)], ''TLCP Signing and Encryption''))
      else throwE ErrInvalid)"

definition svc_Issue :: "PKIService \<Rightarrow> instant \<Rightarrow> string \<Rightarrow> IssueRequest \<Rightarrow> CertificateRecord io" where
  "svc_Issue s now kind input =
     (case svc_engine s of
        None \<Rightarrow> throwE (ErrText ''PKI engine is unavailable'')
      | Some e \<Rightarrow>
          bindE (liftE (toPKIRequest input)) (\<lambda>req.
          bindE (issue_bundle e kind req) (\<lambda>(names, serials, purpose).
          let record = issued_record kind input now serials purpose in
          bindE (writeManifest (join_path (join_path (issued_root s) (rq_Name input)) manifestName)
            \<lparr>mf_Record = record, mf_Files = Some names\<rparr>) (\<lambda>_.
          bindE (refreshIssuer s e kind []) (\<lambda>_.
          returnE record)))))"

definition revoke_found :: "PKIService \<Rightarrow> Engine \<Rightarrow> string \<Rightarrow> path \<Rightarrow> bundleManifest \<Rightarrow> CertificateRecord io" where
  "revoke_found s e cid targetPath target =
     (let c = mf_Record target in
      if rec_ID c \<noteq> cid then throwE ErrFileNotAllowed
      else if rec_State c = ''revoked'' then returnE c
      else if rec_Kind c \<noteq> ''rsa'' \<and> rec_Kind c \<noteq> ''tlcp'' then throwE ErrInvalid
      else
        bindE (refreshIssuer s e (rec_Kind c) cid) (\<lambda>_.
        let target' = target\<lparr>mf_Record := c\<lparr>rec_State := ''revoked''\<rparr>\<rparr> in
        bindE (writeManifest targetPath target') (\<lambda>_.
        returnE (mf_Record target'))))"

definition svc_Revoke :: "PKIService \<Rightarrow> string \<Rightarrow> CertificateRecord io" where
  "svc_Revoke s cid =
     (case svc_engine s of
        None \<Rightarrow> throwE ErrFileNotAllowed
      | Some e \<Rightarrow>
          if \<not> safeRouteSegment cid then throwE ErrFileNotAllowed
          else
            let targetPath = join_path (join_path (issued_root s) cid) manifestName in
            bindE (translateE (\<lambda>_. ErrFileNotAllowed) (readManifest targetPath))
              (revoke_found s e cid targetPath))"

section \<open>Reading\<close>

definition svc_CRL :: "PKIService \<Rightarrow> string \<Rightarrow> Download io" where
  "svc_CRL s kind =
     bindE (checkE (kind = ''rsa'' \<or> kind = ''sm2'') ErrFileNotAllowed) (\<lambda>_.
     let name = kind @ ''.crl.pem'' in
     bindE (read_available (dataDir s @ [''pki'', ''crl'', name])) (\<lambda>data.
     returnE \<lparr>dl_Name = name, dl_ContentType = ''application/pkix-crl'', dl_Data = data, dl_Private = False\<rparr>))"

definition svc_OCSP :: "PKIService \<Rightarrow> string \<Rightarrow> string \<Rightarrow> string io" where
  "svc_OCSP s kind request =
     (case svc_engine s of
        None \<Rightarrow> throwE ErrInvalid
      | Some e \<Rightarrow>
          if kind \<noteq> ''rsa'' \<and> kind \<noteq> ''sm2'' then throwE ErrInvalid
          else translateE mapPKIError (RespondOCSP e kind request))"

definition listed_record :: "path \<Rightarrow> string \<times> node \<Rightarrow> CertificateRecord list io" where
  "listed_record issued entry =
     (if \<not> is_directory (snd entry) \<or> has_prefix (fst entry) ''.'' then returnE []
      else
        bindE (tryE (readManifest (issued @ [fst entry, manifestName]))) (\<lambda>r.
          case r of
            Inl e \<Rightarrow> returnE []
          | Inr m \<Rightarrow> if rec_ID (mf_Record m) \<noteq> fst entry then returnE [] else returnE [mf_Record m]))"

definition svc_List :: "PKIService \<Rightarrow> CertificateRecord list io" where
  "svc_List s =
     bindE (tryE (os_read_dir (issued_root s))) (\<lambda>r.
       case r of
         Inl e \<Rightarrow> if is_not_exist e then returnE [] else throwE (Wrap ''list issued certificates: '' e [])
       | Inr entries \<Rightarrow>
           bindE (mapE (listed_record (issued_root s)) entries) (\<lambda>records.
           returnE (sort_key rec_ID (concat records))))"

definition svc_Download :: "PKIService \<Rightarrow> string \<Rightarrow> string \<Rightarrow> Download io" where
  "svc_Download s cid name =
     (if \<not> safeRouteSegment cid \<or> \<not> safeRouteSegment name \<or> name = manifestName then throwE ErrFileNotAllowed
      else
        let bundleDir = join_path (issued_root s) cid in
        bindE (translateE (\<lambda>_. ErrFileNotAllowed) (readManifest (bundleDir @ [manifestName]))) (\<lambda>manifest.
        bindE (checkE (rec_ID (mf_Record manifest) = cid \<and> containsString (files_of manifest) name)
          ErrFileNotAllowed) (\<lambda>_.
        bindE (read_available (join_path bundleDir name)) (\<lambda>data.
        let private = (file_ext name = ''.key'') in
        returnE \<lparr>dl_Name = name,
          dl_ContentType = (if private then ''application/octet-stream'' else ''application/x-pem-file''),
          dl_Data = data, dl_Private = private\<rparr>))))"

fun bundle_entries :: "zipper \<Rightarrow> path \<Rightarrow> (string \<times> string) list \<Rightarrow> string list \<Rightarrow> (string \<times> string) list io" where
  "bundle_entries z dir done [] = returnE done"
| "bundle_entries z dir done (name # names) =
     bindE (checkE (safeRouteSegment name) ErrFileNotAllowed) (\<lambda>_.
     bindE (read_available (join_path dir name)) (\<lambda>data.
     bindE (failE (zip_entry z (done @ [(name, data)]))) (\<lambda>_.
     bundle_entries z dir (done @ [(name, data)]) names)))"

definition svc_Bundle :: "zipper \<Rightarrow> PKIService \<Rightarrow> string \<Rightarrow> Download io" where
  "svc_Bundle z s cid =
     (if \<not> safeRouteSegment cid then throwE ErrFileNotAllowed
      else
        let dir = join_path (issued_root s) cid in
        bindE (translateE (\<lambda>_. ErrFileNotAllowed) (readManifest (dir @ [manifestName]))) (\<lambda>manifest.
        bindE (checkE (rec_ID (mf_Record manifest) = cid) ErrFileNotAllowed) (\<lambda>_.
        bindE (bundle_entries z dir [] (files_of manifest)) (\<lambda>entries.
        bindE (liftE (zip_close z entries)) (\<lambda>data.
        returnE \<lparr>dl_Name = cid @ ''.zip'', dl_ContentType = ''application/zip'', dl_Data = data,
          dl_Private = True\<rparr>)))))"

definition svc_RootCA :: "PKIService \<Rightarrow> string \<Rightarrow> Download io" where
  "svc_RootCA s kind =
     bindE (checkE (kind = ''rsa'' \<or> kind = ''sm2'') ErrFileNotAllowed) (\<lambda>_.
     bindE (read_available (dataDir s @ [''pki'', ''ca'', kind, ''root-ca.crt''])) (\<lambda>data.
     returnE \<lparr>dl_Name = kind @ ''-root-ca.crt'', dl_ContentType = ''application/x-pem-file'', dl_Data = data,
       dl_Private = False\<rparr>))"

end
