(* ===== verification/Web_Files.thy ===== *)
theory Web_Files
  imports Web_Service Pki_Revocation Pki_Issue_Claims
begin

text \<open>
  What the service's operations do to the files and what they give out: manifests are replaced
  atomically and read back, downloads are listed files of their own bundle, the list is complete, and
  reading changes nothing.
\<close>

section \<open>Steps\<close>

lemma translateE_Inr [simp]: "translateE f m w = (Inr x, w') \<longleftrightarrow> m w = (Inr x, w')"
  by (auto simp: translateE_def split: prod.splits sum.splits)

lemma translateE_Inl: "translateE f m w = (Inl e, w') \<longleftrightarrow> (\<exists>e'. m w = (Inl e', w') \<and> e = f e')"
  by (auto simp: translateE_def split: prod.splits sum.splits)

lemma changes_translateE [footprint]: "changes A m \<Longrightarrow> changes A (translateE f m)"
  by (auto simp: changes_def translateE_def split: prod.splits sum.splits) (metis snd_conv)+

lemma reads_translateE [quiet]: "reads_only m \<Longrightarrow> reads_only (translateE f m)"
  by (auto simp: reads_only_def translateE_def split: prod.splits sum.splits) (metis snd_conv)+

lemma reads_readManifest [quiet]: "reads_only (readManifest p)"
  unfolding readManifest_def by (intro quiet)

lemma reads_read_available [quiet]: "reads_only (read_available p)"
  unfolding read_available_def by (intro quiet)

lemma safe_segment_plain: "safeRouteSegment v \<Longrightarrow> plain_segment v"
  by (auto simp: safeRouteSegment_def plain_segment_def contains_any_def list_ex_iff)

section \<open>Manifests\<close>

definition stored_manifest :: "path \<Rightarrow> world \<Rightarrow> bundleManifest option" where
  "stored_manifest p w =
     (case at w p of
        None \<Rightarrow> None
      | Some n \<Rightarrow> (case node_data n of None \<Rightarrow> None | Some d \<Rightarrow> decode_bundle d))"

lemma readManifest_Inr:
  assumes "readManifest p w = (Inr m, w')"
  shows "stored_manifest p w = Some m"
proof -
  from assms obtain d v where r: "os_read_file p w = (Inr d, v)" and dec: "decode_bundle d = Some m"
    by (auto simp: readManifest_def bindE_Inr split: option.splits)
  from os_read_file_Inr(1) [OF r] dec show ?thesis by (auto simp: stored_manifest_def)
qed

lemma writeManifest_via_temp:
  "writeManifest p m =
     via_temp ''create certificate manifest'' (butlast p) ''.manifest-'' ''.tmp''
      (\<lambda>t. bindE (fill_temp t (manifest_bytes m) ''certificate manifest'') (\<lambda>_. bindE (returnE ()) (\<lambda>_.
        bindE (wrapE ''publish certificate manifest'' (os_rename t p)) (\<lambda>_. returnE ()))))"
  by (simp only: writeManifest_def via_temp_def returnE_bindE bindE_return_unit)

lemma changes_writeManifest [footprint]:
  assumes "scratch (butlast p) ''.manifest-'' ''.tmp'' \<subseteq> A" and "below p \<subseteq> A"
  shows "changes A (writeManifest p m)"
  unfolding writeManifest_via_temp
proof (rule changes_via_temp [OF assms(1)])
  fix t assume t: "temp_name (butlast p) ''.manifest-'' ''.tmp'' t"
  have "below t \<subseteq> A" and "t \<in> A" using below_scratch [OF t] assms(1) by auto
  with assms(2) show "changes A (bindE (fill_temp t (manifest_bytes m) ''certificate manifest'') (\<lambda>_. bindE (returnE ()) (\<lambda>_.
        bindE (wrapE ''publish certificate manifest'' (os_rename t p)) (\<lambda>_. returnE ()))))"
    by (intro footprint)
qed

lemma writeManifest_result:
  assumes "writeManifest (d @ [c]) m w = (r, w')" and "\<not> prefix ''.manifest-'' c"
  shows "at w' (d @ [c]) = at w (d @ [c]) \<and> (\<exists>e. r = Inl e) \<or>
    at w' (d @ [c]) = Some (Regular mode_0600 (manifest_bytes m))"
proof -
  have c: "changes {} (returnE ())" by (intro footprint)
  have fill: "changes {t} (fill_temp t (manifest_bytes m) ''certificate manifest'')" for t
    by (intro footprint) simp
  show ?thesis
    by (rule via_temp_result [OF assms(1) [unfolded writeManifest_via_temp butlast_snoc] assms(2) fill fill_temp_Inr c c])
qed

lemma manifestName_plain: "plain_segment manifestName" "\<not> prefix ''.manifest-'' manifestName"
  by (simp_all add: manifestName_def plain_segment_def)

lemma writeManifest_stored:
  assumes "writeManifest (d @ [manifestName]) m w = (r, w')" and "storable_bundle m"
  shows "stored_manifest (d @ [manifestName]) w' = stored_manifest (d @ [manifestName]) w \<and> (\<forall>u. r \<noteq> Inr u) \<or>
    stored_manifest (d @ [manifestName]) w' = Some m"
  using writeManifest_result [OF assms(1) manifestName_plain(2)] decode_manifest_bytes [OF assms(2)]
  by (auto simp: stored_manifest_def)

interpretation manifest_file: atomic_file
  "\<lambda>m. writeManifest (d @ [manifestName]) m" "stored_manifest (d @ [manifestName])" storable_bundle for d
  by unfold_locales (rule writeManifest_stored)

section \<open>Downloads\<close>

abbreviation manifest_of :: "PKIService \<Rightarrow> string \<Rightarrow> world \<Rightarrow> bundleManifest option" where
  "manifest_of s cid \<equiv> stored_manifest (issued_root s @ [cid, manifestName])"

lemma read_available_Inr:
  assumes "read_available p w = (Inr d, w')"
  shows "\<exists>m. at w p = Some (Regular m d)" and "files w' = files w"
proof -
  from assms obtain r w1 where l: "os_lstat p w = (r, w1)"
    and reg: "case r of Inl e \<Rightarrow> False | Inr n \<Rightarrow> is_regular n" and rd: "os_read_file p w1 = (Inr d, w')"
    by (auto simp: read_available_def bindE_Inr tryE_eq)
  from reg obtain m d' where "r = Inr (Regular m d')" by (auto split: sum.splits node.splits elim: is_regular.elims)
  with os_lstat_Inr [of p w "Regular m d'" w1] l os_read_file_Inr [OF rd]
  show "\<exists>m. at w p = Some (Regular m d)" and "files w' = files w" by auto
qed

lemma contains_iff: "containsString vs x \<longleftrightarrow> x \<in> set vs"
  by (auto simp: containsString_def list_ex_iff)

lemma Download_Inr:
  assumes "svc_Download s cid name w = (Inr d, w')"
  shows "\<exists>m md. manifest_of s cid w = Some m \<and> rec_ID (mf_Record m) = cid \<and> name \<in> set (files_of m) \<and>
      at w (issued_root s @ [cid, name]) = Some (Regular md (dl_Data d))"
    and "plain_segment cid \<and> plain_segment name \<and> name \<noteq> manifestName"
    and "dl_Name d = name \<and> (dl_Private d \<longleftrightarrow> file_ext name = ''.key'') \<and>
      dl_ContentType d = (if dl_Private d then ''application/octet-stream'' else ''application/x-pem-file'')"
proof -
  have safe: "safeRouteSegment cid" "safeRouteSegment name" "name \<noteq> manifestName"
    using assms by (auto simp: svc_Download_def split: if_splits)
  have plain: "plain_segment cid" "plain_segment name" using safe safe_segment_plain by blast+
  then have p: "join_path (issued_root s) cid = issued_root s @ [cid]"
    "join_path (issued_root s @ [cid]) name = issued_root s @ [cid, name]" by simp_all
  from assms safe obtain m w1 data where
    rm: "readManifest (issued_root s @ [cid, manifestName]) w = (Inr m, w1)"
    and chk: "rec_ID (mf_Record m) = cid" "name \<in> set (files_of m)"
    and rd: "read_available (issued_root s @ [cid, name]) w1 = (Inr data, w')"
    and d: "d = \<lparr>dl_Name = name, dl_ContentType = (if file_ext name = ''.key'' then ''application/octet-stream''
      else ''application/x-pem-file''), dl_Data = data, dl_Private = (file_ext name = ''.key'')\<rparr>"
    unfolding svc_Download_def Let_def by (auto simp: bindE_Inr p contains_iff)
  from read_available_Inr(1) [OF rd] reads_onlyD [OF reads_readManifest rm] d
  have "\<exists>md. at w (issued_root s @ [cid, name]) = Some (Regular md (dl_Data d))" by simp
  with readManifest_Inr [OF rm] chk
  show "\<exists>m md. manifest_of s cid w = Some m \<and> rec_ID (mf_Record m) = cid \<and> name \<in> set (files_of m) \<and>
      at w (issued_root s @ [cid, name]) = Some (Regular md (dl_Data d))" by blast
  show "plain_segment cid \<and> plain_segment name \<and> name \<noteq> manifestName" using plain safe(3) by simp
  show "dl_Name d = name \<and> (dl_Private d \<longleftrightarrow> file_ext name = ''.key'') \<and>
      dl_ContentType d = (if dl_Private d then ''application/octet-stream'' else ''application/x-pem-file'')"
    by (simp add: d)
qed

text \<open>The files a bundle download puts into its archive.\<close>

lemma bundle_entries_Inr:
  assumes "bundle_entries z dir done names w = (Inr es, w')"
  shows "\<exists>new. es = done @ new \<and> map fst new = names \<and>
    list_all (\<lambda>(name, d). plain_segment name \<and> (\<exists>m. at w (dir @ [name]) = Some (Regular m d))) new"
  using assms
proof (induction names arbitrary: "done" w)
  case (Cons n ns)
  from Cons.prems obtain d w1 w2 where safe: "safeRouteSegment n"
    and rd: "read_available (join_path dir n) w = (Inr d, w1)"
    and z: "failE (zip_entry z (done @ [(n, d)])) w1 = (Inr (), w2)"
    and rest: "bundle_entries z dir (done @ [(n, d)]) ns w2 = (Inr es, w')"
    by (auto simp: bindE_Inr)
  have p: "plain_segment n" using safe_segment_plain [OF safe] .
  have "w2 = w1" using z by (simp add: failE_Inr)
  then have f: "files w2 = files w" using reads_onlyD [OF reads_read_available rd] by simp
  from Cons.IH [OF rest] f obtain new where "es = (done @ [(n, d)]) @ new" "map fst new = ns"
    "list_all (\<lambda>(name, d). plain_segment name \<and> (\<exists>m. at w (dir @ [name]) = Some (Regular m d))) new" by auto
  moreover have "\<exists>m. at w (dir @ [n]) = Some (Regular m d)" using read_available_Inr(1) [OF rd] p by simp
  ultimately show ?case using p by (intro exI [of _ "(n, d) # new"]) simp
qed simp

section \<open>Reading changes nothing\<close>

lemma reads_all_regular [quiet]: "reads_only (all_regular ps)"
  by (induction ps) (auto intro!: quiet)

lemma reads_bundle_entries [quiet]: "reads_only (bundle_entries z dir done names)"
  by (induction names arbitrary: "done") (auto intro!: quiet)

lemma reads_listed_record [quiet]: "reads_only (listed_record issued entry)"
  unfolding listed_record_def by (intro quiet)

lemma reads_service [quiet]:
  "reads_only (svc_Status s)" "reads_only (svc_List s)" "reads_only (svc_Download s cid name)"
  "reads_only (svc_Bundle z s cid)" "reads_only (svc_RootCA s kind)" "reads_only (svc_CRL s kind)"
  unfolding svc_Status_def svc_List_def svc_Download_def svc_Bundle_def svc_RootCA_def svc_CRL_def
  by (intro quiet)+

end
