(* ===== verification/Web_Inventory.thy ===== *)
theory Web_Inventory
  imports Web_Files Backup_Restore
begin

text \<open>
  The abstract state of the service: an inventory that maps the identifier of every listed bundle to
  its record. Listing shows it, issuing adds one record to it and revoking changes the state of one
  record; everything the engine does besides is invisible to it.
\<close>

section \<open>The inventory\<close>

definition inventory :: "PKIService \<Rightarrow> world \<Rightarrow> string \<Rightarrow> CertificateRecord option" where
  "inventory s w cid =
     (if has_prefix cid ''.'' \<or> \<not> dir_at (files w) (issued_root s @ [cid]) then None
      else case manifest_of s cid w of
          None \<Rightarrow> None
        | Some m \<Rightarrow> if rec_ID (mf_Record m) = cid then Some (mf_Record m) else None)"

text \<open>A service put together as the main program does.\<close>

definition wired :: "PKIService \<Rightarrow> Engine \<Rightarrow> bool" where
  "wired s e \<longleftrightarrow> svc_engine s = Some e \<and> root (store e) = dataDir s \<and> confined (runner e)"

lemma wired_dirs: "wired s e \<Longrightarrow> engine_pki e = dataDir s @ [''pki'']" "wired s e \<Longrightarrow> issued_root s = issued_dir e"
  by (simp_all add: wired_def issued_root_def issued_dir_def pki_dir_def)

lemma inventory_cong:
  assumes "at w' (issued_root s @ [cid]) = at w (issued_root s @ [cid])"
    and "at w' (issued_root s @ [cid, manifestName]) = at w (issued_root s @ [cid, manifestName])"
  shows "inventory s w' cid = inventory s w cid"
  using assms by (simp add: inventory_def stored_manifest_def dir_at_def)

text \<open>Operations that leave the bundles alone.\<close>

definition below_issued :: "PKIService \<Rightarrow> world \<Rightarrow> world \<Rightarrow> bool" where
  "below_issued s w w' \<longleftrightarrow> (\<forall>q. strict_prefix (issued_root s) q \<longrightarrow> at w' q = at w q)"

lemma below_issued_inventory:
  assumes "below_issued s w w'"
  shows "inventory s w' = inventory s w"
proof
  fix cid
  show "inventory s w' cid = inventory s w cid"
    by (rule inventory_cong) (use assms in \<open>auto simp: below_issued_def strict_prefix_def\<close>)
qed

lemma PublishCRL_below_issued:
  assumes w: "wired s e" and run: "PublishCRL e kind valid revoked w = (r, w')"
  shows "below_issued s w w'"
  unfolding below_issued_def
proof (intro allI impI)
  fix q assume q: "strict_prefix (issued_root s) q"
  have pki: "engine_pki e = dataDir s @ [''pki'']" using wired_dirs(1) [OF w] .
  obtain z where "q = issued_root s @ z" and "z \<noteq> []"
    using q by (auto simp: strict_prefix_def prefix_def)
  then obtain c t where qt: "q = dataDir s @ [''pki'', ''issued''] @ c # t"
    by (cases z) (auto simp: issued_root_def)
  have out: "q \<notin> crl_scratch e kind" "\<not> prefix q (engine_pki e @ [''crl''])"
    "\<not> prefix (crl_path e kind) q" "q \<notin> database_area e kind"
    by (auto simp: qt pki crl_scratch_def scratch_def temp_name_def crl_path_def database_area_def)
  have c: "confined (runner e)" using w by (simp add: wired_def)
  from PublishCRL_outcome [OF c run] out show "at w' q = at w q"
    unfolding crl_unchanged_def crl_replaced_def by blast
qed

lemma reads_inventory_entry [quiet]: "reads_only (inventory_entry issued kind rid entry)"
  unfolding inventory_entry_def Let_def by (intro quiet)

lemma below_issued_refl: "files w' = files w \<Longrightarrow> below_issued s w w'"
  by (simp add: below_issued_def)

lemma refresh_parts:
  assumes "refreshIssuer s e kind rid w = (r, w')"
  obtains (early) err where "r = Inl err" and "files w' = files w"
  | (run) caKind entries found v x where
      "kind = ''rsa'' \<and> caKind = ''rsa'' \<or> kind = ''tlcp'' \<and> caKind = ''sm2''"
      and "os_read_dir (issued_root s) w = (Inr entries, v)"
      and "\<exists>u. mapE (inventory_entry (issued_root s) kind rid) entries v = (Inr found, u) \<and> files u = files w \<and>
        PublishCRL e caKind (concat (map fst found)) (concat (map snd found)) u = (x, w')"
      and "r = (case x of Inl err \<Rightarrow> Inl (mapPKIError err) | Inr y \<Rightarrow> Inr y)"
proof (cases "kind = ''tlcp'' \<or> kind = ''rsa''")
  case False
  with assms have "r = Inl ErrInvalid" "w' = w" by (auto simp: refreshIssuer_def bindE_def throwE_def)
  then show thesis by (intro early) simp_all
next
  case True
  let ?ca = "if kind = ''tlcp'' then ''sm2'' else ''rsa''"
  obtain r1 v where d: "os_read_dir (issued_root s) w = (r1, v)" by force
  have v: "files v = files w" using reads_onlyD [OF reads_os(4) d] .
  have ca: "(if kind = ''tlcp'' then returnE ''sm2'' else if kind \<noteq> ''rsa'' then throwE ErrInvalid else returnE ''rsa'')
      = returnE ?ca"
    using True by auto
  show thesis
  proof (cases r1)
    case (Inl err)
    with assms d v have "(\<exists>err. r = Inl err) \<and> files w' = files w"
      unfolding refreshIssuer_def ca returnE_bindE by (auto simp: bindE_def wrapE_def)
    then show thesis using early by blast
  next
    case (Inr entries)
    obtain r2 u where m: "mapE (inventory_entry (issued_root s) kind rid) entries v = (r2, u)" by force
    have rm: "reads_only (mapE (inventory_entry (issued_root s) kind rid) entries)" by (intro quiet)
    have u: "files u = files w" using reads_onlyD [OF rm m] v by simp
    show thesis
    proof (cases r2)
      case (Inl err)
      with assms d Inr m u have "(\<exists>err. r = Inl err) \<and> files w' = files w"
        unfolding refreshIssuer_def ca returnE_bindE by (auto simp: bindE_def wrapE_def)
      then show thesis using early by blast
    next
      case r2: (Inr found)
      obtain x w2 where p: "PublishCRL e ?ca (concat (map fst found)) (concat (map snd found)) u = (x, w2)" by force
      from assms d Inr m r2 p have "w' = w2" "r = (case x of Inl err \<Rightarrow> Inl (mapPKIError err) | Inr y \<Rightarrow> Inr y)"
        unfolding refreshIssuer_def ca returnE_bindE
        by (auto simp: bindE_def wrapE_def translateE_def split: sum.splits)
      with d Inr m r2 u p True run show thesis by auto
    qed
  qed
qed

lemma refresh_below_issued:
  assumes "wired s e" and "refreshIssuer s e kind rid w = (r, w')"
  shows "below_issued s w w'"
  using assms(2)
proof (cases rule: refresh_parts)
  case (run caKind entries found v x)
  from run(3) obtain u where "files u = files w"
    and "PublishCRL e caKind (concat (map fst found)) (concat (map snd found)) u = (x, w')" by blast
  with PublishCRL_below_issued [OF assms(1)] show ?thesis by (simp add: below_issued_def)
qed (simp add: below_issued_refl)

section \<open>Writing a manifest\<close>

lemma writeManifest_others:
  assumes "writeManifest (issued_root s @ [cid, manifestName]) m w = (r, w')" and "cid' \<noteq> cid"
  shows "inventory s w' cid' = inventory s w cid'"
proof -
  let ?p = "issued_root s @ [cid, manifestName]"
  let ?A = "scratch (butlast ?p) ''.manifest-'' ''.tmp'' \<union> below ?p"
  have ch: "changes ?A (writeManifest ?p m)" by (intro footprint) auto
  have b: "butlast ?p = issued_root s @ [cid]" by (simp add: butlast_append)
  have "issued_root s @ cid' # t \<notin> ?A" for t
    unfolding b using assms(2) by (auto simp: scratch_def temp_name_def)
  with changesD [OF ch assms(1)] show ?thesis by (intro inventory_cong) blast+
qed

lemma writeManifest_here:
  assumes run: "writeManifest (issued_root s @ [cid, manifestName]) m w = (r, w')" and st: "storable_bundle m"
    and cid: "rec_ID (mf_Record m) = cid" "\<not> has_prefix cid ''.''"
  shows "inventory s w' cid = inventory s w cid \<and> (\<forall>u. r \<noteq> Inr u) \<or> inventory s w' cid = Some (mf_Record m)"
    and "r = Inr u \<Longrightarrow> manifest_of s cid w' = Some m"
proof -
  let ?p = "issued_root s @ [cid, manifestName]"
  have res: "manifest_of s cid w' = manifest_of s cid w \<and> (\<forall>u. r \<noteq> Inr u) \<or> manifest_of s cid w' = Some m"
    using writeManifest_stored [of "issued_root s @ [cid]" m w r w'] run st by simp
  have b: "butlast ?p = issued_root s @ [cid]" by (simp add: butlast_append)
  have same: "at w' (issued_root s @ [cid]) = at w (issued_root s @ [cid])"
  proof -
    have ch: "changes (scratch (butlast ?p) ''.manifest-'' ''.tmp'' \<union> below ?p) (writeManifest ?p m)"
      by (intro footprint) auto
    show ?thesis by (rule changesD [OF ch run]) (auto simp: b scratch_def temp_name_def)
  qed
  have dir: "dir_at (files w) (issued_root s @ [cid]) \<or> files w' = files w \<and> (\<forall>u. r \<noteq> Inr u)"
  proof -
    obtain r1 w1 where c: "create_temp (Regular mode_0600 []) (issued_root s @ [cid]) ''.manifest-'' ''.tmp'' w = (r1, w1)"
      by force
    show ?thesis
    proof (cases r1)
      case (Inl e)
      with c run create_temp_Inl [of "Regular mode_0600 []" "issued_root s @ [cid]" "''.manifest-''" "''.tmp''" w e w1]
      show ?thesis by (auto simp: writeManifest_def b os_create_temp_def bindE_def wrapE_def)
    next
      case (Inr t)
      from create_temp_open(1) [OF c [unfolded Inr]] show ?thesis by blast
    qed
  qed
  show "inventory s w' cid = inventory s w cid \<and> (\<forall>u. r \<noteq> Inr u) \<or> inventory s w' cid = Some (mf_Record m)"
  proof (cases "dir_at (files w) (issued_root s @ [cid])")
    case True
    with same have "dir_at (files w') (issued_root s @ [cid])" by (simp add: dir_at_def)
    with True res cid show ?thesis by (auto simp: inventory_def)
  next
    case False
    with dir have "files w' = files w" "\<forall>u. r \<noteq> Inr u" by auto
    then show ?thesis by (simp add: inventory_def stored_manifest_def)
  qed
  show "r = Inr u \<Longrightarrow> manifest_of s cid w' = Some m" using res by auto
qed

end
