(* ===== verification/Web_Issuing.thy ===== *)
theory Web_Issuing
  imports Web_Inventory Backup_Collect
begin

text \<open>
  Issuing, revoking and listing against the inventory.
\<close>

section \<open>Issuing\<close>

definition bundle_names :: "string \<Rightarrow> string list" where
  "bundle_names kind =
     (if kind = ''rsa'' then [''server-rsa.crt'', ''server-rsa.key'']
      else [''server-sign.crt'', ''server-sign.key'', ''server-enc.crt'', ''server-enc.key''])"

lemma bundle_names_ok: "list_all utf8_valid (bundle_names kind)"
proof -
  have "utf8_valid ''server-rsa.crt''" "utf8_valid ''server-rsa.key''" "utf8_valid ''server-sign.crt''"
    "utf8_valid ''server-sign.key''" "utf8_valid ''server-enc.crt''" "utf8_valid ''server-enc.key''"
    by (rule utf8_valid_ascii, simp add: code_def)+
  then show ?thesis by (simp add: bundle_names_def del: utf8_valid.simps)
qed

lemma issue_bundle_parts:
  assumes w: "wired s e" and run: "issue_bundle e kind req w = (r, w')"
  shows "cid \<noteq> Name req \<Longrightarrow> inventory s w' cid = inventory s w cid"
    and "r = Inr (names, serials, purpose) \<Longrightarrow>
      (kind = ''rsa'' \<or> kind = ''tlcp'') \<and> names = bundle_names kind \<and>
      (purpose = ''TLS Web Server Authentication'' \<or> purpose = ''TLCP Signing and Encryption'') \<and>
      inventory s w (Name req) = None"
proof -
  have c: "confined (runner e)" using w by (simp add: wired_def)
  have dir: "issued_root s = issued_dir e" using wired_dirs(2) [OF w] .
  let ?A = "{q. prefix q (issued_dir e)} \<union> scratch (issued_dir e) (bundle_pre req) [] \<union>
    state_area (store e) \<union> below (issued_dir e @ [Name req])"
  have others: "inventory s w' cid = inventory s w cid"
    if same: "\<And>q. q \<notin> ?A \<Longrightarrow> at w' q = at w q" and ne: "cid \<noteq> Name req" for w' cid
  proof (cases "has_prefix cid ''.''")
    case True
    then show ?thesis by (simp add: inventory_def)
  next
    case False
    have "issued_dir e @ cid # t \<notin> ?A" for t
    proof -
      have "\<not> prefix (bundle_pre req) cid" using False by (auto simp: has_prefix_iff bundle_pre_def prefix_def)
      then have "issued_dir e @ cid # t \<notin> scratch (issued_dir e) (bundle_pre req) []"
        by (auto simp: scratch_def temp_name_def prefix_def)
      with ne issued_not_state [of e "cid # t"] show ?thesis by (auto dest: prefix_length_le)
    qed
    from same [OF this] show ?thesis by (intro inventory_cong) (simp_all only: dir append_Cons)
  qed
  have fresh: "inventory s w (Name req) = None" if "at w (issued_dir e @ [Name req]) = None"
    using that by (simp add: inventory_def dir dir_at_def)
  show "cid \<noteq> Name req \<Longrightarrow> inventory s w' cid = inventory s w cid"
  proof -
    assume ne: "cid \<noteq> Name req"
    consider (rsa) x where "IssueRSA e req w = (x, w')" | (tlcp) x where "IssueTLCP e req w = (x, w')" | (none) "w' = w"
      using run by (cases "IssueRSA e req w"; cases "IssueTLCP e req w")
        (auto simp: issue_bundle_def bindE_def translateE_def throwE_def returnE_def split: if_splits sum.splits)
    then show ?thesis
    proof cases
      case rsa
      show ?thesis by (rule others [OF changesD [OF rsa.issue_footprint [OF c] rsa [unfolded IssueRSA_eq]] ne])
    next
      case tlcp
      show ?thesis by (rule others [OF changesD [OF tlcp.issue_footprint [OF c] tlcp [unfolded IssueTLCP_eq]] ne])
    qed simp
  qed
  assume r: "r = Inr (names, serials, purpose)"
  consider (rsa) b where "kind = ''rsa''" "IssueRSA e req w = (Inr b, w')"
      "names = [path_base (CertificatePath b), path_base (KeyPath b)]" "purpose = ''TLS Web Server Authentication''"
    | (tlcp) b where "kind = ''tlcp''" "IssueTLCP e req w = (Inr b, w')"
      "names = [path_base (CertificatePath (Signing b)), path_base (KeyPath (Signing b)),
            path_base (CertificatePath (Encryption b)), path_base (KeyPath (Encryption b))]"
      "purpose = ''TLCP Signing and Encryption''"
    using run unfolding r issue_bundle_def by (auto simp: bindE_Inr split: if_splits)
  then show "(kind = ''rsa'' \<or> kind = ''tlcp'') \<and> names = bundle_names kind \<and>
      (purpose = ''TLS Web Server Authentication'' \<or> purpose = ''TLCP Signing and Encryption'') \<and>
      inventory s w (Name req) = None"
  proof cases
    case rsa
    from rsa.issue_outcome [OF c rsa(2) [unfolded IssueRSA_eq]] obtain t x where
      free: "at w (issued_dir e @ [Name req]) = None" and b: "b = rsa_result t (issued_dir e @ [Name req]) x" by auto
    from rsa(1,3,4) b fresh [OF free] show ?thesis by (simp add: rsa_result_def bundle_names_def path_base_def)
  next
    case tlcp
    from tlcp.issue_outcome [OF c tlcp(2) [unfolded IssueTLCP_eq]] obtain t x where
      free: "at w (issued_dir e @ [Name req]) = None" and b: "b = tlcp_result t (issued_dir e @ [Name req]) x" by auto
    from tlcp(1,3,4) b fresh [OF free] show ?thesis by (simp add: tlcp_result_def bundle_names_def path_base_def)
  qed
qed

text \<open>The texts of a request that a manifest can carry, as every decoded request has them.\<close>

definition storable_request :: "IssueRequest \<Rightarrow> bool" where
  "storable_request input \<longleftrightarrow>
     list_all utf8_valid (rq_CommonName input # rq_DNSNames input @ rq_IPAddresses input)"

lemma toPKIRequest_Inr:
  assumes "toPKIRequest input = Inr req"
  shows "ValidateRequest req = None" and "Name req = rq_Name input" and "ValidDays req = rq_ValidDays input"
  using assms by (auto simp: toPKIRequest_def Let_def split: option.splits if_splits)

lemma safe_name_utf8: "safeName n \<Longrightarrow> utf8_valid n"
  by (rule utf8_valid_ascii)
    (auto simp: list_all_iff safe_name_char_def char_class_defs dest!: safe_name_chars)

lemma issued_record_storable:
  assumes "toPKIRequest input = Inr req" and "storable_request input"
    and "kind = ''rsa'' \<or> kind = ''tlcp''"
    and "purpose = ''TLS Web Server Authentication'' \<or> purpose = ''TLCP Signing and Encryption''"
  shows "storable_record (issued_record kind input now serials purpose)"
proof -
  note req = toPKIRequest_Inr [OF assms(1)]
  have "safeName (rq_Name input)" using req by (simp add: validate_None [symmetric] flip: req(2)) (simp add: validate_None)
  then have n: "utf8_valid (rq_Name input)" by (rule safe_name_utf8)
  have d: "1 \<le> rq_ValidDays input" "rq_ValidDays input \<le> 825" using req by (auto simp: validate_None)
  have "utf8_valid ''rsa''" "utf8_valid ''tlcp''" "utf8_valid ''TLS Web Server Authentication''"
    "utf8_valid ''TLCP Signing and Encryption''" "utf8_valid ''valid''"
    by (rule utf8_valid_ascii, simp add: code_def)+
  then have "utf8_valid kind" "utf8_valid purpose" "utf8_valid ''valid''" using assms(3,4) by blast+
  with n d assms(2) rfc3339_utf8(1) show ?thesis
    by (simp add: storable_record_def issued_record_def storable_request_def del: utf8_valid.simps)
qed

lemma Issue_refines:
  assumes w: "wired s e" and run: "svc_Issue s now kind input w = (r, w')" and st: "storable_request input"
  shows "(\<forall>cid. cid \<noteq> rq_Name input \<longrightarrow> inventory s w' cid = inventory s w cid) \<and>
    (\<forall>c. r = Inr c \<longrightarrow> inventory s w (rq_Name input) = None \<and>
       inventory s w' = (inventory s w)(rq_Name input \<mapsto> c) \<and>
       (kind = ''rsa'' \<or> kind = ''tlcp'') \<and> (\<exists>serials purpose. c = issued_record kind input now serials purpose) \<and>
       manifest_of s (rq_Name input) w' = Some \<lparr>mf_Record = c, mf_Files = Some (bundle_names kind)\<rparr>)"
proof -
  have e: "svc_engine s = Some e" using w by (simp add: wired_def)
  let ?n = "rq_Name input"
  show ?thesis
  proof (cases "toPKIRequest input")
    case (Inl err)
    with run e have "r = Inl err" "w' = w" by (auto simp: svc_Issue_def bindE_def liftE_def throwE_def)
    then show ?thesis by simp
  next
    case (Inr req)
    note req = toPKIRequest_Inr [OF Inr]
    have safe: "safeName ?n" using req(1,2) by (simp add: validate_None)
    have plain: "plain_segment ?n" using safe_name_plain [OF safe] .
    have nd: "\<not> has_prefix ?n ''.''" using safe_name_not_hidden [OF safe, of "[]"] by (simp add: has_prefix_iff)
    obtain r1 w1 where ib: "issue_bundle e kind req w = (r1, w1)" by force
    note parts = issue_bundle_parts [OF w ib, unfolded req(2)]
    show ?thesis
    proof (cases r1)
      case (Inl err)
      with run e Inr ib have "r = Inl err" "w' = w1" by (auto simp: svc_Issue_def bindE_def liftE_def)
      with parts(1) show ?thesis by simp
    next
      case r1: (Inr x)
      obtain names serials purpose where x: "x = (names, serials, purpose)" by (cases x)
      from parts(2) r1 x have k: "kind = ''rsa'' \<or> kind = ''tlcp''" and names: "names = bundle_names kind"
        and pu: "purpose = ''TLS Web Server Authentication'' \<or> purpose = ''TLCP Signing and Encryption''"
        and free: "inventory s w ?n = None" by blast+
      let ?c = "issued_record kind input now serials purpose"
      let ?m = "\<lparr>mf_Record = ?c, mf_Files = Some names\<rparr>"
      have p: "join_path (join_path (issued_root s) ?n) manifestName = issued_root s @ [?n, manifestName]"
        using plain manifestName_plain(1) by simp
      have stm: "storable_bundle ?m"
        using issued_record_storable [OF Inr st k pu] bundle_names_ok by (simp add: storable_bundle_def files_of_def names)
      obtain r2 w2 where wm: "writeManifest (issued_root s @ [?n, manifestName]) ?m w1 = (r2, w2)" by force
      have others: "inventory s w2 cid = inventory s w cid" if "cid \<noteq> ?n" for cid
        using writeManifest_others [OF wm that] parts(1) [OF that] by simp
      show ?thesis
      proof (cases r2)
        case (Inl err)
        with run e Inr ib r1 x wm have "r = Inl err" "w' = w2"
          by (auto simp: svc_Issue_def bindE_def liftE_def returnE_def Let_def p)
        with others show ?thesis by simp
      next
        case r2: (Inr u)
        have cid: "rec_ID (mf_Record ?m) = ?n" by (simp add: issued_record_def)
        have here: "inventory s w2 ?n = Some ?c" "manifest_of s ?n w2 = Some ?m"
          using writeManifest_here [OF wm stm cid nd] r2 by auto
        obtain r3 w3 where rf: "refreshIssuer s e kind [] w2 = (r3, w3)" by force
        have w': "w' = w3" and r: "r = Inr c \<Longrightarrow> c = ?c" for c
          using run e Inr ib r1 x wm r2 rf
          by (auto simp: svc_Issue_def bindE_def liftE_def returnE_def Let_def p split: sum.splits)
        have bi: "below_issued s w2 w3" using refresh_below_issued [OF w rf] .
        have inv: "inventory s w' = inventory s w2" unfolding w' by (rule below_issued_inventory [OF bi])
        have mf: "manifest_of s ?n w' = manifest_of s ?n w2"
          unfolding w' stored_manifest_def using bi by (simp add: below_issued_def strict_prefix_def)
        have "inventory s w' = (inventory s w)(?n \<mapsto> ?c)"
          unfolding inv using others here(1) by (auto simp: fun_eq_iff)
        with inv mf others here free k r names show ?thesis by auto
      qed
    qed
  qed
qed


section \<open>Revoking\<close>

lemma manifest_opened:
  assumes "readManifest p w = (Inr m, w')" and "strict_prefix q p"
  shows "dir_at (files w) q"
proof -
  from assms(1) obtain d v where "os_read_file p w = (Inr d, v)"
    by (auto simp: readManifest_def bindE_Inr split: option.splits)
  then have "blocked (files w) p = None"
    unfolding os_read_file_def
    by (cases rule: syscall_cases) (auto simp: fault_def stat_def split: option.splits sum.splits)
  with assms(2) show ?thesis by (simp add: blocked_None)
qed

lemma storable_revoked: "storable_bundle m \<Longrightarrow> storable_bundle (m\<lparr>mf_Record := (mf_Record m)\<lparr>rec_State := ''revoked''\<rparr>\<rparr>)"
proof -
  have "utf8_valid ''revoked''" by (rule utf8_valid_ascii) (simp add: code_def)
  then show "storable_bundle m \<Longrightarrow> storable_bundle (m\<lparr>mf_Record := (mf_Record m)\<lparr>rec_State := ''revoked''\<rparr>\<rparr>)"
    by (simp add: storable_bundle_def storable_record_def files_of_def del: utf8_valid.simps)
qed

definition revoked :: "CertificateRecord \<Rightarrow> CertificateRecord" where
  "revoked c = c\<lparr>rec_State := ''revoked''\<rparr>"

lemma Revoke_steps:
  assumes e: "svc_engine s = Some e" and run: "svc_Revoke s cid w = (r, w')"
  obtains (refused) err where "r = Inl err" and "files w' = files w"
  | (again) m where "manifest_of s cid w = Some m" and "rec_ID (mf_Record m) = cid" and "rec_State (mf_Record m) = ''revoked''"
      and "dir_at (files w) (issued_root s @ [cid])" and "r = Inr (mf_Record m)" and "files w' = files w"
  | (goes) m v r1 w1 where "plain_segment cid" and "readManifest (issued_root s @ [cid, manifestName]) w = (Inr m, v)"
      and "manifest_of s cid w = Some m" and "rec_ID (mf_Record m) = cid"
      and "rec_State (mf_Record m) \<noteq> ''revoked''" and "dir_at (files w) (issued_root s @ [cid])" and "files v = files w"
      and "refreshIssuer s e (rec_Kind (mf_Record m)) cid v = (r1, w1)"
      and "(\<exists>err. r1 = Inl err \<and> r = Inl err \<and> w' = w1) \<or> r1 = Inr () \<and>
        (\<exists>r2. writeManifest (issued_root s @ [cid, manifestName]) (m\<lparr>mf_Record := revoked (mf_Record m)\<rparr>) w1 = (r2, w') \<and>
          (case r2 of Inl err \<Rightarrow> r = Inl err | Inr u \<Rightarrow> r = Inr (revoked (mf_Record m))))"
proof (cases "safeRouteSegment cid")
  case False
  with e run have "r = Inl ErrFileNotAllowed" "w' = w" by (auto simp: svc_Revoke_def throwE_def)
  then show thesis by (intro refused) simp_all
next
  case True
  have plain: "plain_segment cid" using safe_segment_plain [OF True] .
  have p: "join_path (join_path (issued_root s) cid) manifestName = issued_root s @ [cid, manifestName]"
    using plain manifestName_plain(1) by simp
  obtain r0 v where rd: "readManifest (issued_root s @ [cid, manifestName]) w = (r0, v)" by force
  have fv: "files v = files w" using reads_onlyD [OF reads_readManifest rd] .
  note unf = svc_Revoke_def e option.case Let_def p
  show thesis
  proof (cases r0)
    case (Inl err)
    with run rd True have "r = Inl ErrFileNotAllowed" "w' = v"
      unfolding unf by (auto simp: bindE_def translateE_def)
    with fv show thesis by (intro refused) simp_all
  next
    case (Inr m)
    note m = readManifest_Inr [OF rd [unfolded Inr]]
    have d: "dir_at (files w) (issued_root s @ [cid])"
      by (rule manifest_opened [OF rd [unfolded Inr]]) (simp add: strict_prefix_def)
    let ?c = "mf_Record m"
    have found: "revoke_found s e cid (issued_root s @ [cid, manifestName]) m v = (r, w')"
      using run rd True Inr unfolding unf by (simp add: bindE_def translateE_def)
    note step = found [unfolded revoke_found_def Let_def]
    show thesis
    proof (cases "rec_ID ?c \<noteq> cid \<or> rec_State ?c \<noteq> ''revoked'' \<and> rec_Kind ?c \<noteq> ''rsa'' \<and> rec_Kind ?c \<noteq> ''tlcp''")
      case True
      with step have "(\<exists>err. r = Inl err) \<and> w' = v" by (auto simp: throwE_def split: if_splits)
      with fv show thesis using refused by auto
    next
      case ok: False
      show thesis
      proof (cases "rec_State ?c = ''revoked''")
        case True
        with step ok have "r = Inr ?c" "w' = v" by (auto simp: returnE_def)
        with m ok True d fv show thesis by (intro again [of m]) auto
      next
        case False
        obtain r1 w1 where rf: "refreshIssuer s e (rec_Kind ?c) cid v = (r1, w1)" by force
        have go: "rec_ID ?c = cid" "\<not> (rec_Kind ?c \<noteq> ''rsa'' \<and> rec_Kind ?c \<noteq> ''tlcp'')" using ok False by blast+
        have "bindE (refreshIssuer s e (rec_Kind ?c) cid) (\<lambda>_.
            bindE (writeManifest (issued_root s @ [cid, manifestName]) (m\<lparr>mf_Record := revoked ?c\<rparr>)) (\<lambda>_.
              returnE (revoked ?c))) v = (r, w')"
          using step unfolding if_not_P [OF False] if_not_P [OF go(2)] by (simp add: go(1) revoked_def)
        with rf have tail: "(case r1 of Inl err \<Rightarrow> (Inl err, w1) | Inr u \<Rightarrow>
            bindE (writeManifest (issued_root s @ [cid, manifestName]) (m\<lparr>mf_Record := revoked ?c\<rparr>)) (\<lambda>_.
              returnE (revoked ?c)) w1) = (r, w')"
          by (simp add: bindE_def split: sum.splits)
        have "(\<exists>err. r1 = Inl err \<and> r = Inl err \<and> w' = w1) \<or> r1 = Inr () \<and>
          (\<exists>r2. writeManifest (issued_root s @ [cid, manifestName]) (m\<lparr>mf_Record := revoked ?c\<rparr>) w1 = (r2, w') \<and>
          (case r2 of Inl err \<Rightarrow> r = Inl err | Inr u \<Rightarrow> r = Inr (revoked ?c)))"
        proof (cases r1)
          case (Inl err)
          with tail show ?thesis by simp
        next
          case (Inr u)
          obtain r2 w2 where wm: "writeManifest (issued_root s @ [cid, manifestName]) (m\<lparr>mf_Record := revoked ?c\<rparr>) w1 = (r2, w2)"
            by force
          with tail Inr show ?thesis by (cases r2) (auto simp: bindE_def returnE_def)
        qed
        then show thesis by (rule goes [OF plain rd [unfolded Inr] m go(1) False d fv rf])
      qed
    qed
  qed
qed

lemma Revoke_refines:
  assumes w: "wired s e" and run: "svc_Revoke s cid w = (r, w')" and nd: "\<not> has_prefix cid ''.''"
    and st: "\<And>m. manifest_of s cid w = Some m \<Longrightarrow> storable_bundle m"
  shows "(\<exists>err. r = Inl err) \<and> inventory s w' = inventory s w \<or>
    (\<exists>c. inventory s w cid = Some c \<and> inventory s w' = (inventory s w)(cid \<mapsto> revoked c) \<and>
      (\<forall>x. r = Inr x \<longrightarrow> x = revoked c))"
proof -
  have e: "svc_engine s = Some e" using w by (simp add: wired_def)
  from e run show ?thesis
  proof (cases rule: Revoke_steps)
    case (refused err)
    have "inventory s w' = inventory s w" by (rule below_issued_inventory [OF below_issued_refl [OF refused(2)]])
    with refused(1) show ?thesis by simp
  next
    case (again m)
    have i: "inventory s w cid = Some (mf_Record m)" using again(1,2,4) nd by (simp add: inventory_def)
    have "revoked (mf_Record m) = mf_Record m" using again(3) by (cases "mf_Record m") (simp add: revoked_def)
    then have same: "(inventory s w)(cid \<mapsto> revoked (mf_Record m)) = inventory s w" using i by (simp add: map_upd_triv)
    have "inventory s w' = inventory s w" using below_issued_inventory [OF below_issued_refl [OF again(6)]] .
    moreover have "\<forall>x. r = Inr x \<longrightarrow> x = revoked (mf_Record m)" using again(5) \<open>revoked (mf_Record m) = mf_Record m\<close> by simp
    ultimately show ?thesis using i same by (intro disjI2 exI [of _ "mf_Record m"]) simp
  next
    case (goes m v r1 w1)
    let ?c = "mf_Record m"
    have i: "inventory s w cid = Some ?c" using goes(3,4,6) nd by (simp add: inventory_def)
    have inv1: "inventory s w1 = inventory s w"
      using below_issued_inventory [OF refresh_below_issued [OF w goes(8)]]
        below_issued_inventory [OF below_issued_refl [OF goes(7)]] by simp
    from goes(9) show ?thesis
    proof (elim disjE exE conjE)
      fix err assume "r = Inl err" "w' = w1"
      with inv1 show ?thesis by auto
    next
      fix r2 assume wm: "writeManifest (issued_root s @ [cid, manifestName]) (m\<lparr>mf_Record := revoked ?c\<rparr>) w1 = (r2, w')"
        and res: "case r2 of Inl err \<Rightarrow> r = Inl err | Inr u \<Rightarrow> r = Inr (revoked ?c)"
      have stm: "storable_bundle (m\<lparr>mf_Record := revoked ?c\<rparr>)" using storable_revoked [OF st [OF goes(3)]] by (simp add: revoked_def)
      have id: "rec_ID (mf_Record (m\<lparr>mf_Record := revoked ?c\<rparr>)) = cid" using goes(4) by (simp add: revoked_def)
      have others: "inventory s w' cid' = inventory s w cid'" if "cid' \<noteq> cid" for cid'
        using writeManifest_others [OF wm that] inv1 by simp
      from writeManifest_here(1) [OF wm stm id nd] show ?thesis
      proof (elim disjE conjE)
        assume "inventory s w' cid = inventory s w1 cid" and no: "\<forall>u. r2 \<noteq> Inr u"
        with inv1 others have "inventory s w' = inventory s w" by (metis ext)
        moreover from no res have "\<exists>err. r = Inl err" by (cases r2) auto
        ultimately show ?thesis by blast
      next
        assume "inventory s w' cid = Some (mf_Record (m\<lparr>mf_Record := revoked ?c\<rparr>))"
        then have "inventory s w' cid = Some (revoked ?c)" by simp
        with others have upd: "inventory s w' = (inventory s w)(cid \<mapsto> revoked ?c)" by (intro ext) simp
        have "\<forall>x. r = Inr x \<longrightarrow> x = revoked ?c" using res by (cases r2) simp_all
        with i upd show ?thesis by (intro disjI2 exI [of _ ?c]) simp
      qed
    qed
  qed
qed

end
