(* ===== verification/Go_Http.thy ===== *)
theory Go_Http
  imports Go_Path Go_Json
begin

text \<open>
  What package webapp uses of Go's packages net/http, net/url and strings: requests, the response a
  handler fills, percent-decoding, the canonical form of a path, the routing of \<open>http.ServeMux\<close>
  with method and wildcard patterns, and the standard answers.
\<close>

section \<open>Requests and responses\<close>

text \<open>
  The URL of a request is given by its path in escaped form, \<open>r.URL.EscapedPath()\<close>; \<open>r.URL.Path\<close>
  is that unescaped. \<open>r_Body\<close> are the bytes that can be read from the body before it ends, or fails
  when \<open>r_BodyFails\<close>. Header names are canonical.
\<close>

type_synonym http_header = "(string \<times> string list) list"

record HttpRequest =
  r_Method :: string
  r_EscapedPath :: string
  r_RawQuery :: string
  r_Host :: string
  r_TLS :: bool
  r_RemoteAddr :: string
  r_Header :: http_header
  r_Body :: string
  r_BodyFails :: bool

definition header_values :: "http_header \<Rightarrow> string \<Rightarrow> string list" where
  "header_values h k = (case map_of h k of None \<Rightarrow> [] | Some vs \<Rightarrow> vs)"

definition header_Get :: "http_header \<Rightarrow> string \<Rightarrow> string" where
  "header_Get h k = (case header_values h k of [] \<Rightarrow> [] | v # vs \<Rightarrow> v)"

definition header_put :: "string \<Rightarrow> string list \<Rightarrow> http_header \<Rightarrow> http_header" where
  "header_put k vs h = (k, vs) # filter (\<lambda>e. fst e \<noteq> k) h"

text \<open>The response so far: status 0 until the header is written. Every header is set before that.\<close>

record Response =
  resp_Status :: nat
  resp_Header :: http_header
  resp_Body :: string

definition fresh_response :: Response where
  "fresh_response = \<lparr>resp_Status = 0, resp_Header = [], resp_Body = []\<rparr>"

definition set_header :: "string \<Rightarrow> string \<Rightarrow> Response \<Rightarrow> Response" where
  "set_header k v x = x\<lparr>resp_Header := header_put k [v] (resp_Header x)\<rparr>"

definition WriteHeader :: "nat \<Rightarrow> Response \<Rightarrow> Response" where
  "WriteHeader st x = (if resp_Status x = 0 then x\<lparr>resp_Status := st\<rparr> else x)"

definition Write :: "string \<Rightarrow> Response \<Rightarrow> Response" where
  "Write d x = (let y = WriteHeader 200 x in y\<lparr>resp_Body := resp_Body y @ d\<rparr>)"

text \<open>\<open>http.MaxBytesReader\<close> and \<open>io.ReadAll\<close>: all of the body, or an error.\<close>

definition read_limited :: "nat \<Rightarrow> HttpRequest \<Rightarrow> string option" where
  "read_limited limit r = (if length (r_Body r) \<le> limit \<and> \<not> r_BodyFails r then Some (r_Body r) else None)"

section \<open>Package strings\<close>

text \<open>\<open>strings.TrimSpace\<close>: the length of the white space a string begins with, and the same for a
  string given backwards.\<close>

definition spaces1 :: "string list" where
  "spaces1 = [[CHR 0x09], [CHR 0x0A], [CHR 0x0B], [CHR 0x0C], [CHR 0x0D], [CHR '' '']]"

definition spaces2 :: "string list" where
  "spaces2 = [[CHR 0xC2, CHR 0x85], [CHR 0xC2, CHR 0xA0]]"

definition spaces3 :: "string list" where
  "spaces3 =
     [CHR 0xE1, CHR 0x9A, CHR 0x80] # [CHR 0xE2, CHR 0x81, CHR 0x9F] # [CHR 0xE3, CHR 0x80, CHR 0x80] #
     map (\<lambda>k. [CHR 0xE2, CHR 0x80, char_of k]) ([128..<139] @ [168, 169, 175::nat])"

definition space_len :: "(string \<Rightarrow> string) \<Rightarrow> string \<Rightarrow> nat" where
  "space_len dir s =
     (if dir (take 1 s) \<in> set spaces1 then 1
      else if dir (take 2 s) \<in> set spaces2 then 2
      else if dir (take 3 s) \<in> set spaces3 then 3 else 0)"

fun skip_spaces :: "(string \<Rightarrow> string) \<Rightarrow> string \<Rightarrow> string" where
  "skip_spaces dir [] = []"
| "skip_spaces dir (c # cs) =
     (if space_len dir (c # cs) = 0 then c # cs
      else skip_spaces dir (drop (space_len dir (c # cs) - 1) cs))"

definition trim_space :: "string \<Rightarrow> string" where
  "trim_space s = rev (skip_spaces rev (rev (skip_spaces id s)))"

text \<open>\<open>strings.ToLower\<close>, as far as comparing with ASCII text tells: beside the ASCII letters,
  U+0130 and U+212A become ASCII; all other bytes of non-ASCII letters stay non-ASCII.\<close>

fun go_lower :: "string \<Rightarrow> string" where
  "go_lower [] = []"
| "go_lower (c # cs) =
     (if is_upper c then char_of (code c + 32) # go_lower cs
      else if take 2 (c # cs) = [CHR 0xC4, CHR 0xB0] then CHR ''i'' # go_lower (drop 1 cs)
      else if take 3 (c # cs) = [CHR 0xE2, CHR 0x84, CHR 0xAA] then CHR ''k'' # go_lower (drop 2 cs)
      else c # go_lower cs)"

section \<open>Paths\<close>

text \<open>\<open>url.PathUnescape\<close>; the mux keeps a segment that does not unescape as it is.\<close>

fun url_unescape :: "string \<Rightarrow> string option" where
  "url_unescape [] = Some []"
| "url_unescape (c # cs) =
     (if c = CHR ''%'' then
        (case cs of
           a # b # r \<Rightarrow>
             (case (hex_val a, hex_val b) of
                (Some i, Some j) \<Rightarrow> map_option (Cons (char_of (i * 16 + j))) (url_unescape r)
              | _ \<Rightarrow> None)
         | _ \<Rightarrow> None)
      else map_option (Cons c) (url_unescape cs))"

definition pathUnescape :: "string \<Rightarrow> string" where
  "pathUnescape s = (case url_unescape s of None \<Rightarrow> s | Some t \<Rightarrow> t)"

definition url_Path :: "HttpRequest \<Rightarrow> string" where
  "url_Path r = pathUnescape (r_EscapedPath r)"

text \<open>Escaping of a path in a URL.\<close>

definition path_safe :: "char \<Rightarrow> bool" where
  "path_safe c \<longleftrightarrow> is_alnum c \<or> c \<in> set ''-_.~$&+,/:;=@''"

definition upper_hex :: "nat \<Rightarrow> char" where
  "upper_hex d = (if d < 10 then char_of (48 + d) else char_of (55 + d))"

definition url_escape :: "string \<Rightarrow> string" where
  "url_escape s =
     concat (map (\<lambda>c. if path_safe c then [c]
       else [CHR ''%'', upper_hex (code c div 16), upper_hex (code c mod 16)]) s)"

text \<open>The canonical form of a path: \<open>path.Clean\<close>, keeping a trailing slash.\<close>

definition cleanPath :: "string \<Rightarrow> string" where
  "cleanPath p =
     (if p = [] then ''/''
      else
        let q = (if hd p = CHR ''/'' then p else CHR ''/'' # p);
            np = path_str (join_path [] q)
        in if last q = CHR ''/'' \<and> np \<noteq> ''/'' then np @ ''/'' else np)"

text \<open>The segments a path is matched by, unescaped; a trailing slash is a segment of its own.\<close>

definition path_segments :: "string \<Rightarrow> string list" where
  "path_segments p =
     (let raws = split_on (CHR ''/'') (drop 1 p) in
      map pathUnescape (butlast raws) @ [if last raws = [] then ''/'' else pathUnescape (last raws)])"

section \<open>Routing\<close>

text \<open>
  A pattern is a method and a path of literal segments and one-segment wildcards; \<open>Trail\<close> is the
  trailing slash that matches the rest of any path. The routing tree is the list of what is left of the
  patterns that agree with the path so far: literals are tried first, then wildcards, then the rest.
\<close>

datatype seg = Literal string | Single | Trail

definition after :: "seg \<Rightarrow> (seg list \<times> 'h) list \<Rightarrow> (seg list \<times> 'h) list" where
  "after x rs = concat (map (\<lambda>(p, h). case p of [] \<Rightarrow> [] | y # q \<Rightarrow> if y = x then [(q, h)] else []) rs)"

definition leaf :: "seg list \<Rightarrow> (seg list \<times> 'h) list \<Rightarrow> 'h option" where
  "leaf p rs = map_option snd (find (\<lambda>r. fst r = p) rs)"

definition or_else :: "'a option \<Rightarrow> 'a option \<Rightarrow> 'a option" where
  "or_else x y = (case x of None \<Rightarrow> y | Some a \<Rightarrow> Some a)"

fun matchPath :: "(seg list \<times> 'h) list \<Rightarrow> string list \<Rightarrow> string list \<Rightarrow> ('h \<times> string list) option" where
  "matchPath rs [] ms = map_option (\<lambda>h. (h, ms)) (leaf [] rs)"
| "matchPath rs (s # ss) ms =
     or_else (matchPath (after (Literal s) rs) ss ms)
      (or_else (if s = ''/'' then None else matchPath (after Single rs) ss (ms @ [s]))
        (map_option (\<lambda>h. (h, ms)) (leaf [Trail] rs)))"

type_synonym 'h routes = "(string \<times> seg list \<times> 'h) list"

definition routes_of :: "string \<Rightarrow> 'h routes \<Rightarrow> (seg list \<times> 'h) list" where
  "routes_of m rts = map snd (filter (\<lambda>t. fst t = m) rts)"

text \<open>A pattern for \<open>GET\<close> also matches \<open>HEAD\<close>.\<close>

definition matchMethodAndPath :: "'h routes \<Rightarrow> string \<Rightarrow> string \<Rightarrow> ('h \<times> string list) option" where
  "matchMethodAndPath rts m p =
     or_else (matchPath (routes_of m rts) (path_segments p) [])
      (if m = ''HEAD'' then matchPath (routes_of ''GET'' rts) (path_segments p) [] else None)"

definition matchingMethods :: "'h routes \<Rightarrow> string \<Rightarrow> string list" where
  "matchingMethods rts p =
     (let ms = filter (\<lambda>m. matchPath (routes_of m rts) (path_segments p) [] \<noteq> None) (remdups (map fst rts)) in
      sort (if ''GET'' \<in> set ms \<and> ''HEAD'' \<notin> set ms then ''HEAD'' # ms else ms))"

datatype 'h found =
  Handler 'h "string list"
| Redirect string
| NotAllowed "string list"
| NotFound
| BadURI

text \<open>
  \<open>ServeMux.findHandler\<close>. The redirect to a path with a trailing slash does not occur with the
  patterns of this program, as only the root pattern ends in one.
\<close>

definition findHandler :: "'h routes \<Rightarrow> string \<Rightarrow> string \<Rightarrow> 'h found" where
  "findHandler rts m esc =
     (if esc = ''*'' then BadURI
      else
        let path = (if m = ''CONNECT'' then esc else cleanPath esc) in
        if path \<noteq> esc then Redirect path
        else
          case matchMethodAndPath rts m path of
            Some (h, ms) \<Rightarrow> Handler h ms
          | None \<Rightarrow> if matchingMethods rts path \<noteq> [] then NotAllowed (matchingMethods rts path) else NotFound)"

section \<open>Standard answers\<close>

definition http_Error :: "string \<Rightarrow> nat \<Rightarrow> Response \<Rightarrow> Response" where
  "http_Error msg st x =
     Write (msg @ [CHR 0x0A]) (WriteHeader st
       (set_header ''X-Content-Type-Options'' ''nosniff''
         (set_header ''Content-Type'' ''text/plain; charset=utf-8'' x)))"

definition html_escape :: "string \<Rightarrow> string" where
  "html_escape s =
     concat (map (\<lambda>c. if c = CHR ''&'' then ''&amp;'' else if c = CHR ''<'' then ''&lt;''
       else if c = CHR ''>'' then ''&gt;'' else if c = CHR 0x22 then ''&#34;''
       else if c = CHR 0x27 then ''&#39;'' else [c]) s)"

definition hexEscapeNonASCII :: "string \<Rightarrow> string" where
  "hexEscapeNonASCII s = concat (map (\<lambda>c. if code c < 128 then [c] else CHR ''%'' # hex_byte c) s)"

definition http_Redirect :: "HttpRequest \<Rightarrow> string \<Rightarrow> Response \<Rightarrow> Response" where
  "http_Redirect r path x =
     (let url = hexEscapeNonASCII (url_escape path @ (if r_RawQuery r = [] then [] else CHR ''?'' # r_RawQuery r));
          plain = (header_values (resp_Header x) ''Content-Type'' = []);
          y = set_header ''Location'' url x;
          z = WriteHeader 301
            (if plain \<and> (r_Method r = ''GET'' \<or> r_Method r = ''HEAD'')
             then set_header ''Content-Type'' ''text/html; charset=utf-8'' y else y)
      in if plain \<and> r_Method r = ''GET''
         then Write (''<a href='' @ [CHR 0x22] @ html_escape url @ [CHR 0x22] @ ''>Moved Permanently</a>.'' @
           [CHR 0x0A, CHR 0x0A]) z
         else z)"

text \<open>The answer of the mux itself.\<close>

fun mux_answer :: "HttpRequest \<Rightarrow> 'h found \<Rightarrow> Response \<Rightarrow> Response" where
  "mux_answer r (Redirect p) x = http_Redirect r p x"
| "mux_answer r (NotAllowed ms) x =
     http_Error ''Method Not Allowed'' 405 (set_header ''Allow'' (join_with '', '' ms) x)"
| "mux_answer r NotFound x = http_Error ''404 page not found'' 404 x"
| "mux_answer r BadURI x = WriteHeader 400 (set_header ''Connection'' ''close'' x)"
| "mux_answer r (Handler h ms) x = x"

section \<open>Examples\<close>

lemma url_unescape_examples:
  "url_unescape ''/a%2Fb%20c'' = Some ''/a/b c''" "url_unescape ''%4'' = None" "url_unescape ''%zz'' = None"
  by code_simp+

lemma cleanPath_examples:
  "cleanPath ''/a//b/'' = ''/a/b/''" "cleanPath ''/a/../b'' = ''/b''" "cleanPath [] = ''/''"
  "cleanPath ''//'' = ''/''" "cleanPath ''/a/%2E%2E/b'' = ''/a/%2E%2E/b''"
  by code_simp+

lemma path_segments_examples:
  "path_segments ''/'' = [''/'']" "path_segments ''/a/b'' = [''a'', ''b'']"
  "path_segments ''/a/b/'' = [''a'', ''b'', ''/'']" "path_segments ''/a%2Fb/c'' = [''a/b'', ''c'']"
  by code_simp+

lemma media_examples:
  "go_lower (trim_space '' Application/JSON '') = ''application/json''"
  "go_lower (trim_space (''appl'' @ [CHR 0xC4, CHR 0xB0] @ ''cation/json'' @ [CHR 0xC2, CHR 0xA0])) = ''application/json''"
  by code_simp+

end
