(* ===== verification/Web_Handler.thy ===== *)
theory Web_Handler
  imports Web_Service Audit_Log Backup_Cipher Go_Http
begin

text \<open>
  The HTTP handler of internal/webapp/handler.go: the endpoints over the interface of the service, the
  decoding and the guards of mutations, the routes, the security headers, and the auditing wrapper. A
  handler takes a request and the response so far and gives the response and the world after it.
\<close>

section \<open>The interface of the service\<close>

record Service =
  sv_Status :: "Status io"
  sv_Initialize :: "string \<Rightarrow> unit io"
  sv_Issue :: "string \<Rightarrow> IssueRequest \<Rightarrow> CertificateRecord io"
  sv_List :: "CertificateRecord list io"
  sv_Download :: "string \<Rightarrow> string \<Rightarrow> Download io"
  sv_Bundle :: "string \<Rightarrow> Download io"
  sv_RootCA :: "string \<Rightarrow> Download io"
  sv_Revoke :: "string \<Rightarrow> CertificateRecord io"
  sv_CRL :: "string \<Rightarrow> Download io"
  sv_OCSP :: "string \<Rightarrow> string \<Rightarrow> string io"

text \<open>The PKI service behind it; \<open>now\<close> is the time of issuing, \<open>z\<close> the zip package,
  \<open>mw\<close> what other requests do between the steps of an initialisation.\<close>

definition pki_ops :: "zipper \<Rightarrow> PKIService \<Rightarrow> instant \<Rightarrow> others \<Rightarrow> Service" where
  "pki_ops z s now mw =
     \<lparr>sv_Status = svc_Status s, sv_Initialize = svc_Initialize mw s, sv_Issue = svc_Issue s now, sv_List = svc_List s,
      sv_Download = svc_Download s, sv_Bundle = svc_Bundle z s, sv_RootCA = svc_RootCA s, sv_Revoke = svc_Revoke s,
      sv_CRL = svc_CRL s, sv_OCSP = svc_OCSP s\<rparr>"

text \<open>The handler: the service, the version, and the two constant pages of ui.go.\<close>

record handler =
  service :: Service
  version :: string
  homePage :: string
  applicationJS :: string

type_synonym serve = "HttpRequest \<Rightarrow> Response \<Rightarrow> world \<Rightarrow> Response \<times> world"

section \<open>Answers\<close>

definition message :: "nat list \<Rightarrow> string" where
  "message cs = concat (map utf8_encode cs)"

definition msg_format :: string where "msg_format = message [0x8BF7, 0x6C42, 0x683C, 0x5F0F, 0x65E0, 0x6548]"
definition msg_org :: string where
  "msg_org = message [0x7EC4, 0x7EC7, 0x540D, 0x79F0, 0x4E0D, 0x80FD, 0x4E3A, 0x7A7A]"
definition msg_missing :: string where "msg_missing = message [0x8D44, 0x6E90, 0x4E0D, 0x5B58, 0x5728]"
definition msg_confirm :: string where
  "msg_confirm = message [0x5FC5, 0x987B, 0x660E, 0x786E, 0x786E, 0x8BA4, 0x7531, 0x670D, 0x52A1, 0x7AEF, 0x751F,
     0x6210, 0x79C1, 0x94A5]"
definition msg_ocsp_format :: string where "msg_ocsp_format = ''OCSP '' @ msg_format"
definition msg_ocsp_origin :: string where
  "msg_ocsp_origin = ''OCSP '' @ message [0x8BF7, 0x6C42, 0x6765, 0x6E90, 0x65E0, 0x6548]"
definition msg_param :: string where "msg_param = message [0x8BF7, 0x6C42, 0x53C2, 0x6570, 0x65E0, 0x6548]"
definition msg_conflict :: string where "msg_conflict = message [0x8D44, 0x6E90, 0x5DF2, 0x7ECF, 0x5B58, 0x5728]"
definition msg_timeout :: string where "msg_timeout = message [0x5BC6, 0x7801, 0x64CD, 0x4F5C, 0x8D85, 0x65F6]"
definition msg_crypto :: string where "msg_crypto = message [0x5BC6, 0x7801, 0x64CD, 0x4F5C, 0x5931, 0x8D25]"
definition msg_internal :: string where "msg_internal = message [0x670D, 0x52A1, 0x5185, 0x90E8, 0x9519, 0x8BEF]"
definition msg_audit :: string where "msg_audit = message [0x5BA1, 0x8BA1, 0x8BB0, 0x5F55, 0x4E0D, 0x53EF, 0x7528]"

definition writeJSON :: "nat \<Rightarrow> json \<Rightarrow> Response \<Rightarrow> Response" where
  "writeJSON st v x =
     Write (json_marshal v @ [CHR 0x0A])
       (WriteHeader st (set_header ''Content-Type'' ''application/json; charset=utf-8'' x))"

definition writeAPIError :: "nat \<Rightarrow> string \<Rightarrow> string \<Rightarrow> Response \<Rightarrow> Response" where
  "writeAPIError st c msg = writeJSON st (JObj [(''code'', JStr c), (''message'', JStr msg)])"

definition writeServiceError :: "err \<Rightarrow> Response \<Rightarrow> Response" where
  "writeServiceError e =
     (if errors_is e ErrFileNotAllowed then writeAPIError 404 ''not_found'' msg_missing
      else if errors_is e ErrInvalid then writeAPIError 400 ''invalid_request'' msg_param
      else if errors_is e ErrConflict then writeAPIError 409 ''conflict'' msg_conflict
      else if errors_is e ErrCryptoTimeout then writeAPIError 504 ''crypto_timeout'' msg_timeout
      else if errors_is e ErrCryptoFailure then writeAPIError 502 ''crypto_failure'' msg_crypto
      else writeAPIError 500 ''internal_error'' msg_internal)"

definition serveDownload :: "Download \<Rightarrow> Response \<Rightarrow> Response" where
  "serveDownload d x =
     (let x = (if dl_Private d then set_header ''Pragma'' ''no-cache'' (set_header ''Cache-Control'' ''no-store'' x) else x);
          x = set_header ''Content-Type'' (dl_ContentType d) x;
          x = set_header ''Content-Disposition'' (''attachment; filename='' @ go_quote (dl_Name d)) x
      in Write (dl_Data d) (WriteHeader 200 x))"

text \<open>Calling the service: its error, or its result, goes into the response.\<close>

definition answer :: "(err \<Rightarrow> Response \<Rightarrow> Response) \<Rightarrow> ('a \<Rightarrow> Response \<Rightarrow> Response) \<Rightarrow> 'a io \<Rightarrow> Response \<Rightarrow> world \<Rightarrow> Response \<times> world" where
  "answer bad good m x w = (case m w of (Inl e, w') \<Rightarrow> (bad e x, w') | (Inr a, w') \<Rightarrow> (good a x, w'))"

section \<open>Guards\<close>

definition sameOrigin :: "HttpRequest \<Rightarrow> string \<Rightarrow> bool" where
  "sameOrigin r origin \<longleftrightarrow> origin = (if r_TLS r then ''https'' else ''http'') @ ''://'' @ r_Host r"

definition media_type :: "HttpRequest \<Rightarrow> string" where
  "media_type r = go_lower (trim_space (takeWhile (\<lambda>c. c \<noteq> CHR '';'') (header_Get (r_Header r) ''Content-Type'')))"

definition foreign_origin :: "HttpRequest \<Rightarrow> bool" where
  "foreign_origin r \<longleftrightarrow>
     (let origin = header_Get (r_Header r) ''Origin'' in origin \<noteq> [] \<and> \<not> sameOrigin r origin)"

definition maxJSONBody :: nat where
  "maxJSONBody = 64 * 1024"

text \<open>The body must be one JSON value that decodes, and white space.\<close>

definition decodeMutation :: "(json \<Rightarrow> 'a option) \<Rightarrow> HttpRequest \<Rightarrow> 'a option" where
  "decodeMutation f r =
     (if media_type r \<noteq> ''application/json'' then None
      else if foreign_origin r then None
      else case read_limited maxJSONBody r of
          None \<Rightarrow> None
        | Some data \<Rightarrow> (case json_parse data of None \<Rightarrow> None | Some j \<Rightarrow> f j))"

definition set_organization :: "string \<Rightarrow> json \<Rightarrow> string \<Rightarrow> string option" where
  "set_organization k v s = (if field_matches k ''organization'' then into_string v s else None)"

definition empty_request :: IssueRequest where
  "empty_request = \<lparr>rq_Name = [], rq_CommonName = [], rq_DNSNames = [], rq_IPAddresses = [], rq_ValidDays = 0,
     rq_ConfirmServerKeyGeneration = False\<rparr>"

section \<open>Endpoints\<close>

datatype endpoint =
  H_home | H_script | H_health | H_status | H_initialize | H_list | H_issue | H_download | H_bundle | H_rootCA
| H_revoke | H_crl | H_ocsp

definition h_page :: "string \<Rightarrow> string \<Rightarrow> Response \<Rightarrow> Response" where
  "h_page ct page x = Write page (set_header ''Content-Type'' ct x)"

definition h_health :: "handler \<Rightarrow> instant \<Rightarrow> Response \<Rightarrow> Response" where
  "h_health h now =
     writeJSON 200 (JObj [(''status'', JStr ''ok''), (''time'', JStr (rfc3339 now)), (''version'', JStr (version h))])"

definition h_status :: "handler \<Rightarrow> Response \<Rightarrow> world \<Rightarrow> Response \<times> world" where
  "h_status h =
     answer writeServiceError
       (\<lambda>st. writeJSON 200 (JObj [(''initialized'', JBool (Initialized st)), (''version'', JStr (version h))]))
       (sv_Status (service h))"

definition h_initialize :: "handler \<Rightarrow> serve" where
  "h_initialize h r x w =
     (case decodeMutation (decode_struct set_organization []) r of
        None \<Rightarrow> (writeAPIError 400 ''invalid_request'' msg_format x, w)
      | Some organization \<Rightarrow>
          if trim_space organization = [] then (writeAPIError 400 ''invalid_request'' msg_org x, w)
          else answer writeServiceError (\<lambda>u. writeJSON 201 (JObj [(''initialized'', JBool True)]))
            (sv_Initialize (service h) organization) x w)"

definition h_list :: "handler \<Rightarrow> Response \<Rightarrow> world \<Rightarrow> Response \<times> world" where
  "h_list h =
     answer writeServiceError
       (\<lambda>cs. writeJSON 200 (JObj [(''certificates'', JArr (map encode_record_json cs))]))
       (sv_List (service h))"

definition h_issue :: "handler \<Rightarrow> string \<Rightarrow> serve" where
  "h_issue h kind r x w =
     (if kind \<noteq> ''rsa'' \<and> kind \<noteq> ''tlcp'' then (writeAPIError 404 ''not_found'' msg_missing x, w)
      else
        case decodeMutation (decode_struct set_request_field empty_request) r of
          None \<Rightarrow> (writeAPIError 400 ''invalid_request'' msg_format x, w)
        | Some input \<Rightarrow>
            if \<not> rq_ConfirmServerKeyGeneration input then
              (writeAPIError 400 ''key_confirmation_required'' msg_confirm x, w)
            else answer writeServiceError (\<lambda>c. writeJSON 201 (encode_record_json c))
              (sv_Issue (service h) kind input) x w)"

definition not_found_or :: "err \<Rightarrow> Response \<Rightarrow> Response" where
  "not_found_or e =
     (if errors_is e ErrFileNotAllowed then writeAPIError 404 ''not_found'' msg_missing else writeServiceError e)"

definition h_download :: "handler \<Rightarrow> string \<Rightarrow> string \<Rightarrow> Response \<Rightarrow> world \<Rightarrow> Response \<times> world" where
  "h_download h cid file = answer not_found_or serveDownload (sv_Download (service h) cid file)"

definition h_bundle :: "handler \<Rightarrow> string \<Rightarrow> Response \<Rightarrow> world \<Rightarrow> Response \<times> world" where
  "h_bundle h cid = answer writeServiceError serveDownload (sv_Bundle (service h) cid)"

definition h_rootCA :: "handler \<Rightarrow> string \<Rightarrow> Response \<Rightarrow> world \<Rightarrow> Response \<times> world" where
  "h_rootCA h kind = answer writeServiceError serveDownload (sv_RootCA (service h) kind)"

definition h_revoke :: "handler \<Rightarrow> string \<Rightarrow> serve" where
  "h_revoke h cid r x w =
     (case decodeMutation (decode_struct (\<lambda>k v u. None) ()) r of
        None \<Rightarrow> (writeAPIError 400 ''invalid_request'' msg_format x, w)
      | Some u \<Rightarrow>
          answer writeServiceError (\<lambda>c. writeJSON 200 (encode_record_json c)) (sv_Revoke (service h) cid) x w)"

definition h_crl :: "handler \<Rightarrow> string \<Rightarrow> Response \<Rightarrow> world \<Rightarrow> Response \<times> world" where
  "h_crl h kind = answer not_found_or serveDownload (sv_CRL (service h) kind)"

definition h_ocsp :: "handler \<Rightarrow> string \<Rightarrow> serve" where
  "h_ocsp h kind r x w =
     (if kind \<noteq> ''rsa'' \<and> kind \<noteq> ''sm2'' then (writeAPIError 404 ''not_found'' msg_missing x, w)
      else if media_type r \<noteq> ''application/ocsp-request'' then
        (writeAPIError 400 ''invalid_ocsp_request'' msg_ocsp_format x, w)
      else if foreign_origin r then (writeAPIError 400 ''invalid_ocsp_request'' msg_ocsp_origin x, w)
      else
        case read_limited (16 * 1024) r of
          None \<Rightarrow> (writeAPIError 400 ''invalid_ocsp_request'' msg_ocsp_format x, w)
        | Some request \<Rightarrow>
            if request = [] then (writeAPIError 400 ''invalid_ocsp_request'' msg_ocsp_format x, w)
            else answer writeServiceError
              (\<lambda>response x. Write response (WriteHeader 200
                 (set_header ''Cache-Control'' ''no-store'' (set_header ''Content-Type'' ''application/ocsp-response'' x))))
              (sv_OCSP (service h) kind request) x w)"

section \<open>Routes\<close>

definition api :: "seg list \<Rightarrow> seg list" where
  "api p = Literal ''api'' # Literal ''v1'' # p"

definition routes :: "endpoint routes" where
  "routes =
     [(''GET'', [Trail], H_home),
      (''GET'', [Literal ''app.js''], H_script),
      (''GET'', api [Literal ''health''], H_health),
      (''GET'', api [Literal ''status''], H_status),
      (''POST'', api [Literal ''initialize''], H_initialize),
      (''GET'', api [Literal ''certificates''], H_list),
      (''POST'', api [Literal ''certificates'', Single], H_issue),
      (''GET'', api [Literal ''certificates'', Single, Literal ''files'', Single], H_download),
      (''GET'', api [Literal ''certificates'', Single, Literal ''bundle.zip''], H_bundle),
      (''GET'', api [Literal ''ca'', Single], H_rootCA),
      (''POST'', api [Literal ''certificates'', Single, Literal ''revoke''], H_revoke),
      (''GET'', api [Literal ''crl'', Single], H_crl),
      (''POST'', [Literal ''ocsp'', Single], H_ocsp)]"

text \<open>The wildcards of a match are the path values of the request.\<close>

fun run_endpoint :: "handler \<Rightarrow> instant \<Rightarrow> endpoint \<Rightarrow> string list \<Rightarrow> serve" where
  "run_endpoint h now H_home vs r x w = (h_page ''text/html; charset=utf-8'' (homePage h) x, w)"
| "run_endpoint h now H_script vs r x w = (h_page ''text/javascript; charset=utf-8'' (applicationJS h) x, w)"
| "run_endpoint h now H_health vs r x w = (h_health h now x, w)"
| "run_endpoint h now H_status vs r x w = h_status h x w"
| "run_endpoint h now H_initialize vs r x w = h_initialize h r x w"
| "run_endpoint h now H_list vs r x w = h_list h x w"
| "run_endpoint h now H_issue vs r x w = h_issue h (hd vs) r x w"
| "run_endpoint h now H_download vs r x w = h_download h (hd vs) (hd (tl vs)) x w"
| "run_endpoint h now H_bundle vs r x w = h_bundle h (hd vs) x w"
| "run_endpoint h now H_rootCA vs r x w = h_rootCA h (hd vs) x w"
| "run_endpoint h now H_revoke vs r x w = h_revoke h (hd vs) r x w"
| "run_endpoint h now H_crl vs r x w = h_crl h (hd vs) x w"
| "run_endpoint h now H_ocsp vs r x w = h_ocsp h (hd vs) r x w"

definition ServeHTTP :: "handler \<Rightarrow> instant \<Rightarrow> serve" where
  "ServeHTTP h now r x w =
     (case findHandler routes (r_Method r) (r_EscapedPath r) of
        Handler e vs \<Rightarrow> run_endpoint h now e vs r x w
      | other \<Rightarrow> (mux_answer r other x, w))"

definition quoted :: "string \<Rightarrow> string" where
  "quoted s = CHR 0x27 # s @ [CHR 0x27]"

definition securityHeaders :: "serve \<Rightarrow> serve" where
  "securityHeaders next r x =
     next r (set_header ''Content-Security-Policy'' (''default-src '' @ quoted ''self'' @ ''; style-src '' @ quoted ''unsafe-inline'')
       (set_header ''X-Frame-Options'' ''DENY'' (set_header ''X-Content-Type-Options'' ''nosniff'' x)))"

section \<open>Auditing\<close>

definition auditTarget :: "HttpRequest \<Rightarrow> (string \<times> string) option" where
  "auditTarget r =
     (let path = trim [CHR ''/''] (url_Path r);
          parts = split_on (CHR ''/'') path;
          certs = (join_with ''/'' (take 3 parts) = ''api/v1/certificates'') in
      if r_Method r = ''POST'' \<and> path = ''api/v1/initialize'' then Some (''initialize'', ''ca'')
      else if r_Method r = ''POST'' \<and> length parts = 4 \<and> certs then Some (''issue'', parts ! 3)
      else if r_Method r = ''POST'' \<and> length parts = 5 \<and> certs \<and> parts ! 4 = ''revoke'' then
        Some (''revoke'', parts ! 3)
      else if r_Method r = ''GET'' \<and> length parts = 6 \<and> certs \<and> parts ! 4 = ''files'' then
        Some (''download'', parts ! 3 @ ''/'' @ parts ! 5)
      else if r_Method r = ''GET'' \<and> length parts = 5 \<and> certs \<and> parts ! 4 = ''bundle.zip'' then
        Some (''download_bundle'', parts ! 3)
      else None)"

definition newRequestID :: "string io" where
  "newRequestID = bindE (wrapE ''generate request ID'' (rand_read 16)) (\<lambda>v. returnE (concat (map hex_byte v)))"

text \<open>The error code in a captured body: \<open>json.Unmarshal\<close>, its error ignored, keeps what it has
  decoded.\<close>

fun code_member :: "(string \<times> json) list \<Rightarrow> string \<Rightarrow> string" where
  "code_member [] c = c"
| "code_member ((k, v) # ms) c =
     code_member ms (if field_matches k ''code'' then (case v of JStr s \<Rightarrow> s | _ \<Rightarrow> c) else c)"

definition error_code :: "string \<Rightarrow> string" where
  "error_code body = (case json_parse body of Some (JObj ms) \<Rightarrow> code_member ms [] | _ \<Rightarrow> [])"

definition audit_failure :: "Response \<Rightarrow> Response" where
  "audit_failure = writeAPIError 500 ''audit_failure'' msg_audit"

definition audit_entry :: "instant \<Rightarrow> string \<Rightarrow> HttpRequest \<Rightarrow> string \<Rightarrow> string \<Rightarrow> Response \<Rightarrow> Record" where
  "audit_entry now rid r action resource capture =
     \<lparr>Time = now, RequestID = rid, RemoteAddr = r_RemoteAddr r, Action = action, Resource = resource,
      Outcome = (if 400 \<le> resp_Status capture then ''failure'' else ''success''),
      ErrorCode = (if 400 \<le> resp_Status capture then error_code (resp_Body capture) else [])\<rparr>"

definition replay :: "string \<Rightarrow> Response \<Rightarrow> Response \<Rightarrow> Response" where
  "replay rid capture x =
     Write (resp_Body capture) (WriteHeader (resp_Status capture)
       (set_header ''X-Request-ID'' rid
         (x\<lparr>resp_Header := foldr (\<lambda>(k, vs). header_put k vs) (resp_Header capture) (resp_Header x)\<rparr>)))"

definition auditRequests :: "serve \<Rightarrow> path \<Rightarrow> Log option \<Rightarrow> instant \<Rightarrow> serve" where
  "auditRequests next cwd log now r x w =
     (case auditTarget r of
        None \<Rightarrow> next r x w
      | Some (action, resource) \<Rightarrow>
          (case bindE newRequestID (\<lambda>rid. bindE (Log_Ready cwd log) (\<lambda>_. returnE rid)) w of
             (Inl e, w1) \<Rightarrow> (audit_failure x, w1)
           | (Inr rid, w1) \<Rightarrow>
               (case next r fresh_response w1 of
                  (y, w2) \<Rightarrow>
                    let capture = WriteHeader 200 y in
                    (case Log_Append cwd now log (audit_entry now rid r action resource capture) w2 of
                       (Inl e, w3) \<Rightarrow> (audit_failure x, w3)
                     | (Inr u, w3) \<Rightarrow> (replay rid capture x, w3)))))"

text \<open>The handler \<open>New\<close> returns; \<open>now\<close> and \<open>later\<close> are the times the endpoint and the
  auditor see.\<close>

definition New :: "handler \<Rightarrow> path \<Rightarrow> Log option \<Rightarrow> instant \<Rightarrow> instant \<Rightarrow> serve" where
  "New h cwd auditor now later =
     (let base = securityHeaders (ServeHTTP h now) in
      case auditor of None \<Rightarrow> base | Some l \<Rightarrow> auditRequests base cwd (Some l) later)"

section \<open>Listening\<close>

definition IsLoopbackListen :: "string \<Rightarrow> bool" where
  "IsLoopbackListen address =
     (case split_host_port address of
        None \<Rightarrow> False
      | Some (host, port) \<Rightarrow> (case parse_IP host of None \<Rightarrow> False | Some ip \<Rightarrow> is_loopback ip))"

end
