(* ===== verification/Web_Decoded.thy ===== *)
theory Web_Decoded
  imports Go_Json_Utf8 Web_Issuing Web_Handler
begin

text \<open>
  What the decoders give can be stored: a manifest read from whatever bytes, and a request decoded from
  whatever body, hold UTF-8 text and numbers in range.
\<close>

lemma decode_members_keep:
  assumes "decode_members f ms r = Some r'" and "list_all (\<lambda>m. json_text (snd m)) ms" and "P r"
    and "\<And>k v r r'. f k v r = Some r' \<Longrightarrow> json_text v \<Longrightarrow> P r \<Longrightarrow> P r'"
  shows "P r'"
  using assms(1-3)
proof (induction ms arbitrary: r)
  case (Cons m ms)
  then show ?case using assms(4) by (cases m) (auto split: option.splits)
qed simp

lemma decode_struct_keep:
  assumes "decode_struct f r j = Some r'" and "json_text j" and "P r"
    and "\<And>k v r r'. f k v r = Some r' \<Longrightarrow> json_text v \<Longrightarrow> P r \<Longrightarrow> P r'"
  shows "P r'"
  using assms decode_members_keep [of f _ r r' P] by (cases j) (auto simp: decode_struct_def)

lemma into_string_utf8: "into_string v s = Some t \<Longrightarrow> json_text v \<Longrightarrow> utf8_valid s \<Longrightarrow> utf8_valid t"
  by (cases v) (auto simp del: utf8_valid.simps)

lemma into_elems_utf8:
  "into_elems into_string [] vs ys = Some xs \<Longrightarrow> list_all json_text vs \<Longrightarrow> list_all utf8_valid ys \<Longrightarrow> list_all utf8_valid xs"
proof (induction vs arbitrary: ys xs)
  case (Cons v vs)
  let ?y = "case ys of [] \<Rightarrow> [] | y # r \<Rightarrow> y"
  from Cons.prems(1) obtain x zs where x: "into_string v ?y = Some x" and zs: "into_elems into_string [] vs (drop 1 ys) = Some zs"
    and xs: "xs = x # zs" by (auto split: option.splits)
  have "utf8_valid ?y" using Cons.prems(3) by (cases ys) (auto simp del: utf8_valid.simps simp: utf8_valid.simps(1))
  with x Cons.prems(2) have "utf8_valid x" by (auto dest: into_string_utf8 simp del: utf8_valid.simps)
  moreover have "list_all utf8_valid (drop 1 ys)" using Cons.prems(3) by (cases ys) auto
  ultimately show ?case using Cons.IH [OF zs] Cons.prems(2) xs by (simp del: utf8_valid.simps)
qed simp

lemma into_slice_utf8:
  assumes "into_slice into_string [] v ys = Some xs" and "json_text v"
    and "case ys of None \<Rightarrow> True | Some zs \<Rightarrow> list_all utf8_valid zs"
  shows "case xs of None \<Rightarrow> True | Some zs \<Rightarrow> list_all utf8_valid zs"
  using assms by (cases v) (auto dest: into_elems_utf8 split: option.splits)

lemma into_list_utf8:
  assumes "into_list into_string [] v ys = Some xs" and "json_text v" and "list_all utf8_valid ys"
  shows "list_all utf8_valid xs"
proof -
  obtain r where r: "into_slice into_string [] v (Some ys) = Some r" and xs: "xs = (case r of None \<Rightarrow> [] | Some zs \<Rightarrow> zs)"
    using assms(1) by (auto simp: into_list_def)
  from into_slice_utf8 [OF r assms(2)] assms(3) xs show ?thesis by (cases r) auto
qed

lemma parse_int64_range: "parse_int64 l = Some i \<Longrightarrow> - (2 ^ 63) \<le> i \<and> i < 2 ^ 63"
  by (auto simp: parse_int64_def split: list.splits if_splits option.splits)

lemma into_int_range:
  "into_int v i = Some k \<Longrightarrow> - (2 ^ 63) \<le> i \<and> i < 2 ^ 63 \<Longrightarrow> - (2 ^ 63) \<le> k \<and> k < 2 ^ 63"
  using parse_int64_range by (cases v) auto

lemma if_SomeE: "(if b then x else y) = Some z \<Longrightarrow> (x = Some z \<Longrightarrow> R) \<Longrightarrow> (y = Some z \<Longrightarrow> R) \<Longrightarrow> R"
  by (cases b) simp_all

lemma set_bundle_field_storable:
  assumes "set_bundle_field k v m = Some m'" and t: "json_text v" and "storable_bundle m"
  shows "storable_bundle m'"
proof -
  obtain c fs where m: "m = \<lparr>mf_Record = c, mf_Files = fs\<rparr>" by (cases m)
  have f: "case fs of None \<Rightarrow> True | Some zs \<Rightarrow> list_all utf8_valid zs"
    using assms(3) m by (cases fs) (simp_all add: storable_bundle_def files_of_def)
  have st: "storable_record c" "case fs of None \<Rightarrow> True | Some zs \<Rightarrow> list_all utf8_valid zs"
    using assms(3) f by (simp_all add: m storable_bundle_def)
  have sl: "into_slice into_string [] v None = Some (Some xs) \<Longrightarrow> list_all utf8_valid xs"
    "into_slice into_string [] v (Some ys) = Some (Some xs) \<Longrightarrow> list_all utf8_valid ys \<Longrightarrow> list_all utf8_valid xs" for xs ys
    using into_slice_utf8 [OF _ t, of None "Some xs"] into_slice_utf8 [OF _ t, of "Some ys" "Some xs"] by auto
  note u = into_string_utf8 [OF _ t] into_list_utf8 [OF _ t] sl into_int_range
  have fs: "storable_bundle \<lparr>mf_Record = c', mf_Files = fs'\<rparr> \<longleftrightarrow>
      storable_record c' \<and> (case fs' of None \<Rightarrow> True | Some zs \<Rightarrow> list_all utf8_valid zs)" for c' fs'
    by (cases fs') (simp_all add: storable_bundle_def files_of_def)
  from assms(1) show ?thesis
    unfolding m set_bundle_field_def Let_def bundleManifest.select_convs bundleManifest.update_convs
    by (elim if_SomeE)
      (use st in \<open>auto simp: fs storable_record_def simp del: utf8_valid.simps power_numeral dest: u split: option.splits\<close>)
qed

lemma decode_bundle_storable:
  assumes "decode_bundle d = Some m"
  shows "storable_bundle m"
proof -
  from assms obtain j where j: "json_parse d = Some j"
    and m: "decode_struct set_bundle_field \<lparr>mf_Record = no_record, mf_Files = None\<rparr> j = Some m"
    by (auto simp: decode_bundle_def split: option.splits)
  have "storable_bundle \<lparr>mf_Record = no_record, mf_Files = None\<rparr>"
    by (simp add: storable_bundle_def storable_record_def no_record_def files_of_def)
  then show ?thesis
    by (rule decode_struct_keep [where P = storable_bundle, OF m json_parse_text [OF j]])
      (rule set_bundle_field_storable)
qed

lemma manifest_storable: "stored_manifest p w = Some m \<Longrightarrow> storable_bundle m"
  by (auto simp: stored_manifest_def dest: decode_bundle_storable split: option.splits)

lemma set_request_field_storable:
  assumes "set_request_field k v r = Some r'" and t: "json_text v" and "storable_request r"
  shows "storable_request r'"
  using assms(1,3) unfolding set_request_field_def
  by (auto simp: storable_request_def simp del: utf8_valid.simps split: if_splits
      dest: into_string_utf8 [OF _ t] into_list_utf8 [OF _ t])

lemma decoded_request_storable:
  assumes "decodeMutation (decode_struct set_request_field empty_request) r = Some input"
  shows "storable_request input"
proof -
  from assms obtain d j where j: "json_parse d = Some j"
    and m: "decode_struct set_request_field empty_request j = Some input"
    by (auto simp: decodeMutation_def split: if_splits option.splits)
  have "storable_request empty_request" by (simp add: storable_request_def empty_request_def)
  then show ?thesis
    by (rule decode_struct_keep [where P = storable_request, OF m json_parse_text [OF j]])
      (rule set_request_field_storable)
qed

end
