(* ===== verification/Pki_Counting.thy ===== *)
theory Pki_Counting
  imports Pki_Issue
begin

text \<open>
  The serial counter under every operation of the engine: it never goes back, and where a state file
  exists, initialising fails and leaves it.
\<close>

section \<open>The counter\<close>

definition counting :: "Store \<Rightarrow> 'a io \<Rightarrow> bool" where
  "counting st m \<longleftrightarrow>
     (\<forall>w n. stored_serial st w = Some n \<longrightarrow> (\<exists>n'. n \<le> n' \<and> stored_serial st (snd (m w)) = Some n'))"

lemma countingD: "counting st m \<Longrightarrow> m w = (r, w') \<Longrightarrow> stored_serial st w = Some n \<Longrightarrow>
    \<exists>n'. n \<le> n' \<and> stored_serial st w' = Some n'"
  unfolding counting_def by (metis snd_conv)

lemma counting_changes: "changes A m \<Longrightarrow> state_path st \<notin> A \<Longrightarrow> counting st m"
  unfolding counting_def changes_def using stored_serial_cong by (metis order_refl)

lemma counting_bindE_gives:
  assumes m: "counting st m" and P: "gives P m" and f: "\<And>x. P x \<Longrightarrow> counting st (f x)"
  shows "counting st (bindE m f)"
  unfolding counting_def
proof (intro allI impI)
  fix w n assume n: "stored_serial st w = Some n"
  obtain r w1 where r: "m w = (r, w1)" by force
  from countingD [OF m r n] obtain k where k: "n \<le> k" "stored_serial st w1 = Some k" by blast
  show "\<exists>n'. n \<le> n' \<and> stored_serial st (snd (bindE m f w)) = Some n'"
  proof (cases r)
    case (Inl e)
    with r k show ?thesis by (auto simp: bindE_def)
  next
    case (Inr x)
    have "counting st (f x)" using f givesD [OF P r [unfolded Inr]] by blast
    from countingD [OF this surjective_pairing k(2)] obtain j where "k \<le> j" "stored_serial st (snd (f x w1)) = Some j"
      by blast
    with r Inr k(1) show ?thesis by (auto simp: bindE_def intro: order_trans)
  qed
qed

lemma counting_bindE: "counting st m \<Longrightarrow> (\<And>x. counting st (f x)) \<Longrightarrow> counting st (bindE m f)"
  by (rule counting_bindE_gives [where P = "\<lambda>_. True"]) (auto intro: outcome)

lemma snd_deferE: "snd (deferE c m w) = snd (c (snd (m w)))"
  by (simp add: deferE_def split: prod.splits)

lemma counting_deferE:
  assumes "counting st c" and "counting st m"
  shows "counting st (deferE c m)"
  unfolding counting_def snd_deferE
proof (intro allI impI)
  fix w n assume n: "stored_serial st w = Some n"
  from countingD [OF assms(2) surjective_pairing n] obtain k where k: "n \<le> k" "stored_serial st (snd (m w)) = Some k"
    by blast
  from countingD [OF assms(1) surjective_pairing k(2)] obtain j where "k \<le> j" "stored_serial st (snd (c (snd (m w)))) = Some j"
    by blast
  with k(1) show "\<exists>n'. n \<le> n' \<and> stored_serial st (snd (c (snd (m w)))) = Some n'"
    by (intro exI [of _ j]) (auto intro: order_trans)
qed

lemma counting_NextSerial: "counting st (Store_NextSerial st)"
  unfolding counting_def
proof (intro allI impI)
  fix w n assume n: "stored_serial st w = Some n"
  obtain r w' where run: "Store_NextSerial st w = (r, w')" by force
  from NextSerial_result [OF run] show "\<exists>n'. n \<le> n' \<and> stored_serial st (snd (Store_NextSerial st w)) = Some n'"
  proof (elim disjE conjE)
    assume "advanced (stored_serial st w) (stored_serial st w')"
    with n have a: "n \<noteq> NOT 0" "stored_serial st w' = Some (n + 1)" by (auto simp: advanced_def)
    then have "n \<le> n + 1" using word_step [of n] by (simp add: word_le_nat_alt)
    with a(2) run show ?thesis by auto
  qed (use n run in auto)
qed

lemma state_not_inside: "temp_name (issued_dir e) pre [] t \<Longrightarrow> state_path (store e) \<notin> inside t"
  and state_not_below: "temp_name (issued_dir e) pre [] t \<Longrightarrow> \<not> prefix t (state_path (store e))"
  by (auto simp: temp_name_def inside_def strict_prefix_def state_path_def issued_dir_def prefix_def)

lemma counting_fill_rsa:
  assumes c: "confined (runner e)" and t: "temp_name (issued_dir e) pre [] t"
  shows "counting (store e) (fill_rsa e req t)"
  unfolding fill_rsa_def Let_def
proof (rule counting_bindE [OF counting_NextSerial], rule counting_changes [OF _ state_not_inside [OF t]])
  fix n
  have "list_all (tool_step (inside t)) (rsa_commands e req t n)" by (rule rsa_commands_confined)
  then show "changes (inside t)
     (bindE (liftE (BuildExtensionConfig req KindRSA)) (\<lambda>config.
      bindE (wrapE ''write RSA extensions'' (os_write_file (t @ [''rsa-ext.cnf'']) config mode_0600)) (\<lambda>_.
      bindE (runAll e (rsa_commands e req t n)) (\<lambda>_.
      bindE (secureGeneratedFiles [t @ [''server-rsa.key''], t @ [''server-rsa.csr''], t @ [''server-rsa.crt''], t @ [''rsa-ext.cnf'']]) (\<lambda>_.
      returnE n)))))"
    using c by (intro footprint changes_runAll) auto
qed

lemma counting_fill_tlcp:
  assumes c: "confined (runner e)" and t: "temp_name (issued_dir e) pre [] t"
  shows "counting (store e) (fill_tlcp e req t)"
  unfolding fill_tlcp_def Let_def bundleFiles_def prod.case
  by (rule counting_bindE [OF counting_NextSerial], rule counting_bindE [OF counting_NextSerial],
      rule counting_changes [OF _ state_not_inside [OF t]], intro footprint changes_runAll)
    (use c tlcp_commands_confined [of t e req] in auto)

lemma counting_issue:
  assumes fill: "\<And>t. temp_name (issued_dir e) (bundle_pre req) [] t \<Longrightarrow> counting (store e) (fill t)"
  shows "counting (store e) (issue e req fill result)"
proof (cases "ValidateRequest req")
  case (Some err)
  then show ?thesis
    unfolding issue_def by (intro counting_changes [of "{}"]) (simp_all add: changes_def bindE_def failE_def throwE_def)
next
  case None
  then have safe: "safeName (Name req)" by (simp add: validate_None)
  let ?A = "{q. prefix q (issued_dir e)} \<union> scratch (issued_dir e) (bundle_pre req) []"
  have out: "state_path (store e) \<notin> ?A"
    by (auto simp: scratch_def temp_name_def state_path_def issued_dir_def)
  have stage: "counting (store e) (stage_and_publish fill ''publish certificate bundle'' (issued_dir e @ [Name req]) g t)"
    if t: "temp_name (issued_dir e) (bundle_pre req) [] t" for t g
    unfolding stage_and_publish_def
  proof (intro counting_deferE counting_bindE fill t)
    show "counting (store e) (os_remove_all t)"
      by (rule counting_changes [of "below t"]) (use state_not_below [OF t] in \<open>auto intro: footprint\<close>)
    show "counting (store e) (wrapE ''publish certificate bundle'' (os_rename t (issued_dir e @ [Name req])))"
      by (rule counting_changes [of "below t \<union> below (issued_dir e @ [Name req])"])
        (use state_not_below [OF t] in \<open>auto intro!: footprint simp: state_path_def issued_dir_def\<close>)
    show "counting (store e) (syncDirectory (butlast (issued_dir e @ [Name req])))"
      "counting (store e) (returnE (g x))" for x
      by (rule counting_changes [of "{}"], intro footprint, simp)+
  qed
  have "counting (store e) (bindE (beginBundle e (Name req)) (\<lambda>(temp, final).
     stage_and_publish fill ''publish certificate bundle'' final (result temp final) temp))"
  proof (rule counting_bindE_gives)
    show "counting (store e) (beginBundle e (Name req))"
      by (rule counting_changes [OF _ out], intro footprint) (auto simp: bundle_pre_def)
    show "gives (\<lambda>(t, f). f = issued_dir e @ [Name req] \<and> temp_name (issued_dir e) (bundle_pre req) [] t)
        (beginBundle e (Name req))"
      using beginBundle_Inr [OF _ safe] by (auto simp: gives_def bundle_pre_def)
  qed (use stage in auto)
  then show ?thesis
    unfolding issue_def by (rule counting_bindE [OF counting_changes [OF changes_failE [of "{}"]], rotated]) simp
qed

section \<open>Initialising again\<close>

text \<open>Where a state file exists, no initialisation passes its last check, so nothing is cleaned up.\<close>

lemma writeStateAtomic_refused:
  assumes run: "writeStateAtomic p v True w = (r, w')" and p: "p = d @ [c]" "\<not> prefix ''.state-'' c" and ex: "at w p \<noteq> None"
  shows "(\<exists>err. r = Inl err) \<and> at w' p = at w p"
proof -
  let ?rest = "\<lambda>t. bindE (fill_temp t (state_bytes v) ''temporary state'') (\<lambda>_.
      bindE (require_absent p ErrAlreadyInitialized ''inspect destination state'') (\<lambda>_.
      bindE (wrapE ''publish state'' (os_rename t p)) (\<lambda>_.
      sync_dir d ''open state directory'' ''sync state directory'')))"
  obtain r1 w1 where c: "os_create_temp d ''.state-'' ''.tmp'' w = (r1, w1)" by force
  show ?thesis
  proof (cases r1)
    case (Inl err)
    with run c p create_temp_Inl [of _ d _ _ w err w1] show ?thesis
      by (auto simp: writeStateAtomic_def Let_def bindE_def wrapE_def os_create_temp_def)
  next
    case (Inr t)
    note temp = create_temp_Inr [OF c [unfolded Inr os_create_temp_def]]
    have tp: "t \<noteq> p" "\<not> prefix t p" using temp(1) p by (auto simp: temp_name_def prefix_def)
    from temp(3) tp have at1: "at w1 p = at w p" by auto
    from run c Inr p(1) obtain w2 where rest: "?rest t w1 = (r, w2)" and w': "w' = snd (os_remove t w2)"
      by (auto simp: writeStateAtomic_def Let_def bindE_def wrapE_def deferE_def split: prod.splits)
    have "changes {t} (os_remove t)" by (intro footprint) simp
    then have last: "at w' p = at w2 p" using w' tp unfolding changes_def by simp
    obtain r3 w3 where f: "fill_temp t (state_bytes v) ''temporary state'' w1 = (r3, w3)" by force
    have "changes {t} (fill_temp t (state_bytes v) ''temporary state'')" by (intro footprint) simp
    from changesD [OF this f, of p] tp(1) at1 have at3: "at w3 p = at w p" by simp
    show ?thesis
    proof (cases r3)
      case (Inl err)
      with rest f at3 last show ?thesis by (auto simp: bindE_def)
    next
      case r3: (Inr u)
      obtain r4 w4 where a: "require_absent p ErrAlreadyInitialized ''inspect destination state'' w3 = (r4, w4)" by force
      have f4: "files w4 = files w3" by (rule require_absent_files [OF a])
      show ?thesis
      proof (cases r4)
        case (Inl err)
        with rest f r3 a f4 at3 last show ?thesis by (auto simp: bindE_def)
      next
        case r4: (Inr u')
        have blk: "blocked (files w4) p \<noteq> None"
          using require_absent_lookup [OF a [unfolded r4]] at3 ex f4 by auto
        obtain r5 w5 where ren: "os_rename t p w4 = (r5, w5)" by force
        have "r5 \<noteq> Inr x" for x
        proof
          assume "r5 = Inr x"
          with ren have "\<exists>f. rename_files t p (files w4) = Inr f"
            unfolding os_rename_def by (auto elim!: syscall_cases split: sum.splits)
          with blk show False by (auto simp: rename_files_def split: sum.splits option.splits if_splits)
        qed
        then obtain err where err: "r5 = Inl err" by (cases r5) auto
        with rest f r3 a r4 ren have "r = Inl (Wrap (''publish state'' @ '': '') err [])" "w2 = w5"
          by (auto simp: bindE_def wrapE_def)
        with os_rename_Inl [OF ren [unfolded err]] f4 at3 last show ?thesis by simp
      qed
    qed
  qed
qed

lemma Store_Initialize_refused:
  assumes run: "Store_Initialize st w = (r, w')" and ex: "at w (state_path st) \<noteq> None"
  shows "(\<exists>err. r = Inl err) \<and> at w' (state_path st) = at w (state_path st)"
proof -
  let ?p = "state_path st"
  obtain r1 w1 where a: "require_absent ?p ErrAlreadyInitialized ''inspect state'' w = (r1, w1)" by force
  have f1: "files w1 = files w" by (rule require_absent_files [OF a])
  obtain r2 w2 where mk: "os_mkdir_all (pki_dir st) mode_0700 w1 = (r2, w2)" by force
  have at2: "at w2 ?p = at w ?p" using os_mkdir_all_grows [OF mk, of ?p] f1 ex by auto
  obtain r3 w3 where ch: "os_chmod (pki_dir st) mode_0700 w2 = (r3, w3)" by force
  have "changes {pki_dir st} (os_chmod (pki_dir st) mode_0700)" by (intro footprint) simp
  from changesD [OF this ch, of ?p] at2 have at3: "at w3 ?p = at w ?p" by (simp add: state_path_def)
  obtain r4 w4 where wr: "writeStateAtomic ?p \<lparr>Version = 1, NextSerial = 1\<rparr> True w3 = (r4, w4)" by force
  have at4: "(\<exists>err. r4 = Inl err) \<and> at w4 ?p = at w ?p"
    using writeStateAtomic_refused [OF wr state_path_def state_path_not_temp] at3 ex by simp
  have "w' = w1 \<and> (\<exists>err. r = Inl err) \<or> w' = w2 \<and> (\<exists>err. r = Inl err) \<or> w' = w3 \<and> (\<exists>err. r = Inl err) \<or> w' = w4 \<and> r = r4"
    using run a mk ch wr by (cases r1; cases r2; cases r3) (auto simp: Store_Initialize_def bindE_def wrapE_def)
  with at2 at3 at4 f1 show ?thesis by auto
qed

lemma changes_Store_Initialize:
  "changes ({q. prefix q (pki_dir st)} \<union> state_area st) (Store_Initialize st)"
  unfolding Store_Initialize_def by (intro footprint) (auto simp: state_area_def state_path_def)

end
