(* ===== verification/Web_Keeping.thy ===== *)
theory Web_Keeping
  imports Web_Decoded Pki_Counting Web_Issuing Audit_Log
begin

text \<open>
  What no operation of the service takes away: the serial counter never goes back, a record once in the
  inventory stays, at most revoked, and nothing outside the directory of the PKI changes.
\<close>

lemma counting_translateE: "counting st m \<Longrightarrow> counting st (translateE f m)"
  by (simp add: counting_def translateE_def split: prod.splits sum.splits) (metis snd_conv)

lemma counting_issue_bundle:
  assumes c: "confined (runner e)"
  shows "counting (store e) (issue_bundle e kind req)"
proof -
  have q: "counting (store e) (returnE x)" "counting (store e) (throwE err)" for x err
    by (rule counting_changes [of "{}"], intro footprint, simp)+
  have "counting (store e) (IssueRSA e req)" "counting (store e) (IssueTLCP e req)"
    unfolding IssueRSA_eq IssueTLCP_eq
    by (rule counting_issue, erule counting_fill_rsa [OF c] counting_fill_tlcp [OF c])+
  then show ?thesis
    unfolding issue_bundle_def by (auto intro!: counting_bindE counting_translateE q)
qed

section \<open>What is outside\<close>

definition pki_area :: "PKIService \<Rightarrow> path set" where
  "pki_area s = {q. prefix q (dataDir s @ [''pki'']) \<or> prefix (dataDir s @ [''pki'']) q}"

lemma PublishCRL_outside:
  assumes w: "wired s e" and run: "PublishCRL e kind good gone w = (r, w')"
    and q: "q \<notin> pki_area s \<or> q = state_path (store e)"
  shows "at w' q = at w q"
proof -
  have pki: "engine_pki e = dataDir s @ [''pki'']" using wired_dirs(1) [OF w] .
  have st: "state_path (store e) = engine_pki e @ [''state.json'']"
    by (simp add: state_path_def)
  have "q \<notin> crl_scratch e kind \<and> \<not> prefix q (engine_pki e @ [''crl'']) \<and> \<not> prefix (crl_path e kind) q \<and>
      q \<notin> database_area e kind"
  proof (cases "q = state_path (store e)")
    case True
    then show ?thesis
      unfolding st by (auto simp: crl_scratch_def scratch_def temp_name_def crl_path_def database_area_def)
  next
    case False
    with q have q: "\<not> prefix q (engine_pki e)" "\<not> prefix (engine_pki e) q" by (auto simp: pki_area_def pki)
    then have "\<not> prefix q (engine_pki e @ [''crl''])" by auto
    moreover have "\<not> prefix (engine_pki e @ x) q" for x using q(2) by (auto simp: prefix_def)
    ultimately show ?thesis
      using q(2) by (auto simp: crl_scratch_def scratch_def temp_name_def crl_path_def database_area_def prefix_def)
  qed
  moreover have "confined (runner e)" using w by (simp add: wired_def)
  ultimately show ?thesis
    using PublishCRL_outcome [OF _ run] unfolding crl_unchanged_def crl_replaced_def by blast
qed

lemma refresh_outside:
  assumes "wired s e" and "refreshIssuer s e kind rid w = (r, w')" and "q \<notin> pki_area s \<or> q = state_path (store e)"
  shows "at w' q = at w q"
  using assms(2)
proof (cases rule: refresh_parts)
  case (run caKind entries found v x)
  from run(3) obtain u where "files u = files w"
    and "PublishCRL e caKind (concat (map fst found)) (concat (map snd found)) u = (x, w')" by blast
  with PublishCRL_outside [OF assms(1) _ assms(3)] show ?thesis by simp
qed simp

lemma writeManifest_outside:
  assumes w: "wired s e" and run: "writeManifest (issued_root s @ [cid, manifestName]) m w = (r, w')"
    and q: "q \<notin> pki_area s \<or> q = state_path (store e)"
  shows "at w' q = at w q"
proof -
  let ?p = "issued_root s @ [cid, manifestName]"
  have ch: "changes (scratch (butlast ?p) ''.manifest-'' ''.tmp'' \<union> below ?p) (writeManifest ?p m)"
    by (intro footprint) auto
  have out: "q \<notin> scratch (butlast ?p) ''.manifest-'' ''.tmp'' \<union> below ?p"
    using q w by (auto simp: butlast_append scratch_def temp_name_def issued_root_def pki_area_def wired_def
        state_path_def pki_dir_def prefix_def)
  show ?thesis by (rule changesD [OF ch run out])
qed

section \<open>Growing\<close>

text \<open>The relation between an earlier and a later state; \<open>l\<close> is the file of the audit log.\<close>

definition grown :: "PKIService \<Rightarrow> path \<Rightarrow> world \<Rightarrow> world \<Rightarrow> bool" where
  "grown s l w w' \<longleftrightarrow>
     prefix (content l w) (content l w') \<and>
     (\<forall>n. stored_serial (svc_store s) w = Some n \<longrightarrow>
        (\<exists>n'. n \<le> n' \<and> stored_serial (svc_store s) w' = Some n') \<and>
        (\<forall>cid c. inventory s w cid = Some c \<longrightarrow> inventory s w' cid = Some c \<or> inventory s w' cid = Some (revoked c)))"

lemma revoked_twice [simp]: "revoked (revoked c) = revoked c"
  by (simp add: revoked_def)

lemma grown_trans:
  assumes "grown s l u v" and "grown s l v w"
  shows "grown s l u w"
  unfolding grown_def
proof (intro conjI allI impI)
  show "prefix (content l u) (content l w)" using assms prefix_order.trans unfolding grown_def by blast
  fix n assume n: "stored_serial (svc_store s) u = Some n"
  with assms(1) obtain k where k: "n \<le> k" "stored_serial (svc_store s) v = Some k" unfolding grown_def by blast
  with assms(2) show "\<exists>n'. n \<le> n' \<and> stored_serial (svc_store s) w = Some n'"
    unfolding grown_def using order_trans by blast
  fix cid c assume "inventory s u cid = Some c"
  with assms(1) n have "inventory s v cid = Some c \<or> inventory s v cid = Some (revoked c)" unfolding grown_def by blast
  with assms(2) k(2) show "inventory s w cid = Some c \<or> inventory s w cid = Some (revoked c)"
    unfolding grown_def by (metis revoked_twice)
qed

text \<open>The installation the main program makes: one store, and the log beside the directory of the PKI.\<close>

definition installed :: "PKIService \<Rightarrow> Engine \<Rightarrow> path \<Rightarrow> bool" where
  "installed s e l \<longleftrightarrow> wired s e \<and> svc_store s = store e \<and> l = dataDir s @ [''audit.jsonl'']"

lemma log_outside: "installed s e l \<Longrightarrow> l \<notin> pki_area s"
  by (auto simp: installed_def pki_area_def)

lemma grownI:
  assumes i: "installed s e l" and out: "\<And>q. q \<notin> pki_area s \<Longrightarrow> at w' q = at w q"
    and count: "\<And>n. stored_serial (store e) w = Some n \<Longrightarrow> \<exists>n'. n \<le> n' \<and> stored_serial (store e) w' = Some n'"
    and inv: "\<And>n cid c. stored_serial (store e) w = Some n \<Longrightarrow> inventory s w cid = Some c \<Longrightarrow>
      inventory s w' cid = Some c \<or> inventory s w' cid = Some (revoked c)"
  shows "grown s l w w'"
  using count inv out [OF log_outside [OF i]] i unfolding grown_def installed_def by (auto simp: content_def)

lemma grown_kept:
  assumes i: "installed s e l" and "\<And>q. q \<notin> pki_area s \<Longrightarrow> at w' q = at w q"
    and st: "at w' (state_path (store e)) = at w (state_path (store e))" and "inventory s w' = inventory s w"
  shows "grown s l w w'"
  by (rule grownI [OF i assms(2)]) (simp_all add: stored_serial_cong [OF st] assms(4))

lemma grown_files: "files w' = files w \<Longrightarrow> grown s l w w'"
  using below_issued_inventory [OF below_issued_refl, of w' w s] stored_serial_cong [of w' "svc_store s" w]
  by (auto simp: grown_def content_def)

text \<open>What only touches the log, or the directories it lies in.\<close>

lemma log_keeps_inventory:
  assumes i: "installed s e l" and out: "\<And>q. q \<noteq> l \<Longrightarrow> \<not> prefix q (butlast l) \<Longrightarrow> at w' q = at w q"
  shows "inventory s w' = inventory s w"
proof (rule below_issued_inventory, unfold below_issued_def, intro allI impI out)
  fix q assume "strict_prefix (issued_root s) q"
  then obtain z where "q = dataDir s @ ''pki'' # ''issued'' # z" by (auto simp: strict_prefix_def prefix_def issued_root_def)
  then show "q \<noteq> l" and "\<not> prefix q (butlast l)" using i by (auto simp: installed_def prefix_def)
qed

lemma grown_log:
  assumes i: "installed s e l" and out: "\<And>q. q \<noteq> l \<Longrightarrow> \<not> prefix q (butlast l) \<Longrightarrow> at w' q = at w q"
    and l: "prefix (content l w) (content l w')"
  shows "grown s l w w'"
proof -
  have "at w' (state_path (store e)) = at w (state_path (store e))"
    by (rule out) (use i in \<open>simp_all add: installed_def wired_def state_path_def pki_dir_def prefix_def\<close>)
  from stored_serial_cong [OF this] log_keeps_inventory [OF i out] l i show ?thesis by (simp add: grown_def installed_def)
qed

section \<open>The operations\<close>

lemma issue_bundle_runs:
  assumes "issue_bundle e kind req w = (r, w')"
  obtains (rsa) x where "IssueRSA e req w = (x, w')" and "\<And>err. x = Inl err \<Longrightarrow> \<exists>err'. r = Inl err'"
  | (tlcp) x where "IssueTLCP e req w = (x, w')" and "\<And>err. x = Inl err \<Longrightarrow> \<exists>err'. r = Inl err'"
  | (neither) err where "r = Inl err" and "w' = w"
  using assms
  by (cases "IssueRSA e req w"; cases "IssueTLCP e req w")
    (auto simp: issue_bundle_def bindE_def translateE_def throwE_def returnE_def split: if_splits sum.splits)

lemma issue_bundle_outside:
  assumes w: "wired s e" and run: "issue_bundle e kind req w = (r, w')" and q: "q \<notin> pki_area s"
  shows "at w' q = at w q"
proof -
  have c: "confined (runner e)" using w by (simp add: wired_def)
  let ?A = "{q. prefix q (issued_dir e)} \<union> scratch (issued_dir e) (bundle_pre req) [] \<union>
    state_area (store e) \<union> below (issued_dir e @ [Name req])"
  have i: "issued_dir e = dataDir s @ [''pki'', ''issued'']" using w by (simp add: wired_def issued_dir_def pki_dir_def)
  have st: "\<exists>c r. p = dataDir s @ ''pki'' # c # r" if "p \<in> state_area (store e)" for p
    using below_state_area [OF that] w by (auto simp: wired_def pki_dir_def)
  have out: "q \<notin> ?A"
  proof
    assume "q \<in> ?A"
    moreover have "prefix q (dataDir s @ [''pki'', ''issued'']) \<Longrightarrow> q \<in> pki_area s"
      using prefix_snoc [of q "dataDir s @ [''pki'']" "''issued''"] by (auto simp: pki_area_def)
    moreover have "q \<in> state_area (store e) \<Longrightarrow> q \<in> pki_area s" by (auto simp: pki_area_def dest!: st)
    ultimately show False
      using q by (auto simp: i scratch_def temp_name_def pki_area_def prefix_def)
  qed
  from run show ?thesis
  proof (cases rule: issue_bundle_runs)
    case (rsa x)
    show ?thesis by (rule changesD [OF rsa.issue_footprint [OF c] rsa(1) [unfolded IssueRSA_eq] out])
  next
    case (tlcp x)
    show ?thesis by (rule changesD [OF tlcp.issue_footprint [OF c] tlcp(1) [unfolded IssueTLCP_eq] out])
  qed simp
qed

lemma issue_bundle_taken:
  assumes w: "wired s e" and run: "issue_bundle e kind req w = (r, w')" and i: "inventory s w (Name req) = Some c"
  shows "(\<exists>err. r = Inl err) \<and> inventory s w' (Name req) = Some c"
proof -
  have cf: "confined (runner e)" using w by (simp add: wired_def)
  have dir: "issued_root s = issued_dir e" using wired_dirs(2) [OF w] .
  have ex: "at w (issued_dir e @ [Name req]) \<noteq> None"
    using i by (auto simp: inventory_def dir dir_at_def split: if_splits option.splits)
  have keep: ?thesis if "\<exists>err. r = Inl err" and "\<And>z. at w' (issued_dir e @ [Name req] @ z) = at w (issued_dir e @ [Name req] @ z)"
    using that(1) that(2) [of "[]"] that(2) [of "[manifestName]"] i inventory_cong [of w' s "Name req" w] by (simp add: dir)
  from run show ?thesis
  proof (cases rule: issue_bundle_runs)
    case (rsa x)
    from rsa.issue_outcome [OF cf rsa(1) [unfolded IssueRSA_eq]] ex rsa(2) show ?thesis by (intro keep) auto
  next
    case (tlcp x)
    from tlcp.issue_outcome [OF cf tlcp(1) [unfolded IssueTLCP_eq]] ex tlcp(2) show ?thesis by (intro keep) auto
  qed (use i in simp)
qed

lemma Issue_steps:
  assumes e: "svc_engine s = Some e" and run: "svc_Issue s now kind input w = (r, w')"
  obtains (refused) "files w' = files w"
  | (begun) req r1 where "toPKIRequest input = Inr req" and "issue_bundle e kind req w = (r1, w')"
  | (manifest) req x w1 m r2 where "toPKIRequest input = Inr req" and "issue_bundle e kind req w = (Inr x, w1)"
      and "writeManifest (issued_root s @ [rq_Name input, manifestName]) m w1 = (r2, w')"
  | (refresh) req x w1 m w2 r3 where "toPKIRequest input = Inr req" and "issue_bundle e kind req w = (Inr x, w1)"
      and "writeManifest (issued_root s @ [rq_Name input, manifestName]) m w1 = (Inr (), w2)"
      and "refreshIssuer s e kind [] w2 = (r3, w')"
proof (cases "toPKIRequest input")
  case (Inl err)
  with run e have "w' = w" by (auto simp: svc_Issue_def bindE_def liftE_def throwE_def)
  then show thesis by (intro refused) simp
next
  case (Inr req)
  have "safeName (rq_Name input)" using toPKIRequest_Inr [OF Inr] by (simp add: validate_None)
  then have p: "join_path (join_path (issued_root s) (rq_Name input)) manifestName = issued_root s @ [rq_Name input, manifestName]"
    using safe_name_plain manifestName_plain(1) by simp
  obtain r1 w1 where ib: "issue_bundle e kind req w = (r1, w1)" by force
  show thesis
  proof (cases r1)
    case (Inl err)
    with run e Inr ib have "w' = w1" by (auto simp: svc_Issue_def bindE_def liftE_def returnE_def)
    with Inr ib show thesis by (auto intro: begun)
  next
    case r1: (Inr x)
    obtain names serials purpose where x: "x = (names, serials, purpose)" by (cases x)
    let ?m = "\<lparr>mf_Record = issued_record kind input now serials purpose, mf_Files = Some names\<rparr>"
    obtain r2 w2 where wm: "writeManifest (issued_root s @ [rq_Name input, manifestName]) ?m w1 = (r2, w2)" by force
    obtain r3 w3 where rf: "refreshIssuer s e kind [] w2 = (r3, w3)" by force
    show thesis
    proof (cases r2)
      case (Inl err)
      with run e \<open>toPKIRequest input = Inr req\<close> ib r1 x wm have "w' = w2"
        by (auto simp: svc_Issue_def bindE_def liftE_def returnE_def Let_def p)
      with \<open>toPKIRequest input = Inr req\<close> ib r1 wm show thesis by (auto intro: manifest)
    next
      case (Inr u)
      with run e \<open>toPKIRequest input = Inr req\<close> ib r1 x wm rf have "w' = w3"
        by (auto simp: svc_Issue_def bindE_def liftE_def returnE_def Let_def p split: sum.splits)
      with \<open>toPKIRequest input = Inr req\<close> Inr ib r1 wm rf show thesis by (auto intro: refresh)
    qed
  qed
qed

lemma grown_Issue:
  assumes i: "installed s e l" and st: "storable_request input" and run: "svc_Issue s now kind input w = (r, w')"
  shows "grown s l w w'"
proof -
  have w: "wired s e" and e: "svc_engine s = Some e" and c: "confined (runner e)" using i by (auto simp: installed_def wired_def)
  let ?n = "rq_Name input"
  note count = countingD [OF counting_issue_bundle [OF c]]
  have both: "grown s l w w'"
    if out: "\<And>q. q \<notin> pki_area s \<Longrightarrow> at w' q = at w q"
      and cnt: "\<And>n. stored_serial (store e) w = Some n \<Longrightarrow> \<exists>n'. n \<le> n' \<and> stored_serial (store e) w' = Some n'"
      and here: "\<And>c. inventory s w ?n = Some c \<Longrightarrow> inventory s w' ?n = Some c"
  proof (rule grownI [OF i out cnt])
    fix n cid c assume "inventory s w cid = Some c"
    then show "inventory s w' cid = Some c \<or> inventory s w' cid = Some (revoked c)"
      using Issue_refines [OF w run st] here by (cases "cid = ?n") auto
  qed
  from e run show ?thesis
  proof (cases rule: Issue_steps)
    case refused
    then show ?thesis by (rule grown_files)
  next
    case (begun req r1)
    have n: "Name req = ?n" using toPKIRequest_Inr [OF begun(1)] by simp
    show ?thesis
      by (rule both) (use issue_bundle_outside [OF w begun(2)] count [OF begun(2)] issue_bundle_taken [OF w begun(2)] n in auto)
  next
    case (manifest req x w1 m r2)
    have n: "Name req = ?n" using toPKIRequest_Inr [OF manifest(1)] by simp
    note wm = writeManifest_outside [OF w manifest(3)]
    have "stored_serial (store e) w' = stored_serial (store e) w1" by (rule stored_serial_cong) (simp add: wm)
    then show ?thesis
      by (intro both)
        (use issue_bundle_outside [OF w manifest(2)] wm count [OF manifest(2)] issue_bundle_taken [OF w manifest(2)] n in auto)
  next
    case (refresh req x w1 m w2 r3)
    have n: "Name req = ?n" using toPKIRequest_Inr [OF refresh(1)] by simp
    note wm = writeManifest_outside [OF w refresh(3)] and rf = refresh_outside [OF w refresh(4)]
    have "stored_serial (store e) w' = stored_serial (store e) w1" by (rule stored_serial_cong) (simp add: wm rf)
    then show ?thesis
      by (intro both)
        (use issue_bundle_outside [OF w refresh(2)] wm rf count [OF refresh(2)] issue_bundle_taken [OF w refresh(2)] n in auto)
  qed
qed

lemma Revoke_inventory:
  assumes w: "wired s e" and run: "svc_Revoke s cid w = (r, w')" and i: "inventory s w k = Some c"
  shows "inventory s w' k = Some c \<or> inventory s w' k = Some (revoked c)"
proof (cases "has_prefix cid ''.''")
  case False
  have "\<And>m. manifest_of s cid w = Some m \<Longrightarrow> storable_bundle m" by (rule manifest_storable)
  from Revoke_refines [OF w run False this] i show ?thesis by (cases "k = cid") auto
next
  case True
  then have k: "k \<noteq> cid" using i by (auto simp: inventory_def)
  have e: "svc_engine s = Some e" using w by (simp add: wired_def)
  have "inventory s w' k = inventory s w k"
    using e run
  proof (cases rule: Revoke_steps)
    case (goes m v r1 w1)
    have "inventory s w1 = inventory s w"
      using below_issued_inventory [OF refresh_below_issued [OF w goes(8)]]
        below_issued_inventory [OF below_issued_refl [OF goes(7)]] by simp
    with goes(9) writeManifest_others [OF _ k] show ?thesis by auto
  qed (simp_all add: inventory_def stored_manifest_def)
  with i show ?thesis by simp
qed

lemma grown_Revoke:
  assumes i: "installed s e l" and run: "svc_Revoke s cid w = (r, w')"
  shows "grown s l w w'"
proof -
  have w: "wired s e" and e: "svc_engine s = Some e" using i by (auto simp: installed_def wired_def)
  have out: "at w' q = at w q" if "q \<notin> pki_area s \<or> q = state_path (store e)" for q
    using e run
  proof (cases rule: Revoke_steps)
    case (goes m v r1 w1)
    have "at w1 q = at w q" using refresh_outside [OF w goes(8) that] goes(7) by simp
    with goes(9) writeManifest_outside [OF w _ that] show ?thesis by auto
  qed simp_all
  have "stored_serial (store e) w' = stored_serial (store e) w" by (rule stored_serial_cong) (simp add: out)
  with out show ?thesis
    by (intro grownI [OF i]) (use Revoke_inventory [OF w run] in auto)
qed

text \<open>With a counter that can be read nothing is initialised.\<close>

lemma grown_refused:
  assumes i: "installed s e l" and si: "Store_Initialize (svc_store s) w = (r, w')"
    and n: "stored_serial (svc_store s) w = Some n"
  shows "grown s l w w'" and "r \<noteq> Inr u"
proof -
  have e: "svc_engine s = Some e" "svc_store s = store e" "root (store e) = dataDir s"
    using i by (auto simp: installed_def wired_def)
  have "at w (state_path (store e)) \<noteq> None"
    using n e by (auto simp: stored_serial_def stored_state_def split: option.splits)
  note si = si [unfolded e(2)] and refused = Store_Initialize_refused [OF si [unfolded e(2)] this]
  then show "r \<noteq> Inr u" by auto
  have pki: "pki_dir (store e) = dataDir s @ [''pki'']" using e by (simp add: pki_dir_def)
  note out = changesD [OF changes_Store_Initialize si]
  show "grown s l w w'"
  proof (rule grown_kept [OF i])
    fix q assume "q \<notin> pki_area s"
    then show "at w' q = at w q"
      by (intro out) (auto simp: pki_area_def pki dest!: below_state_area)
  next
    show "inventory s w' = inventory s w"
    proof (rule below_issued_inventory, unfold below_issued_def, intro allI impI out)
      fix q assume "strict_prefix (issued_root s) q"
      then obtain z where "q = dataDir s @ ''pki'' # ''issued'' # z" by (auto simp: strict_prefix_def prefix_def issued_root_def)
      then show "q \<notin> {q. prefix q (pki_dir (store e))} \<union> state_area (store e)"
        by (auto simp: pki dest!: below_state_area)
    qed
  qed (use refused in simp)
qed

end
