(* ===== verification/Web_Listing.thy ===== *)
theory Web_Listing
  imports Web_Issuing
begin

text \<open>
  Listing: on a file system that answers, the list is the inventory, sorted by identifier.
\<close>

text \<open>Every node lies in a directory.\<close>

definition closed_tree :: "fsys \<Rightarrow> bool" where
  "closed_tree f \<longleftrightarrow> wf_tree f \<and> (\<forall>e \<in> set f. dir_at f (butlast (fst e)))"

lemma closed_parent:
  assumes "closed_tree f" and "lookup f (p @ [c]) = Some n"
  shows "dir_at f p"
proof -
  from assms(2) have "(p @ [c], n) \<in> set f" by (auto simp: lookup_def dest: map_of_SomeD)
  with assms(1) show ?thesis by (force simp: closed_tree_def)
qed

lemma closed_ancestor:
  assumes c: "closed_tree f" and "dir_at f (p @ q)"
  shows "dir_at f p"
  using assms(2)
proof (induction q rule: rev_induct)
  case (snoc x q)
  then obtain m where "lookup f ((p @ q) @ [x]) = Some (Directory m)" by (auto simp: dir_at_iff)
  from closed_parent [OF c this] snoc.IH show ?case by blast
qed simp

lemma closed_stat:
  assumes c: "closed_tree f" and "dir_at f (p @ q)"
  shows "\<exists>m. stat f p = Inr (Directory m)"
proof -
  have d: "dir_at f p" by (rule closed_ancestor [OF assms])
  have "blocked f p = None"
    using d closed_ancestor [OF c] by (auto simp: blocked_None strict_prefix_def prefix_def)
  with d show ?thesis by (auto simp: stat_Inr dir_at_iff)
qed

lemma strict_prefix_snoc: "strict_prefix q (p @ [c]) \<longleftrightarrow> prefix q p"
  by (auto simp: strict_prefix_def)

lemma readManifest_steady:
  assumes "faults w = []"
  shows "\<exists>r. readManifest p w = (r, w) \<and>
    (\<forall>m. r = Inr m \<longleftrightarrow> blocked (files w) p = None \<and> stored_manifest p w = Some m)"
proof (cases "stat (files w) p")
  case (Inl e)
  then have "blocked (files w) p \<noteq> None \<or> at w p = None" by (auto simp: stat_def split: option.splits)
  with Inl assms show ?thesis
    by (auto simp: readManifest_def os_read_file_def syscall_def bindE_def stored_manifest_def split: option.splits)
next
  case (Inr n)
  then have "blocked (files w) p = None" "at w p = Some n" by (auto simp: stat_Inr)
  with Inr assms show ?thesis
    by (cases n)
      (auto simp: readManifest_def os_read_file_def syscall_def bindE_def stored_manifest_def throwE_def returnE_def
        split: option.splits)
qed

lemma blocked_absent:
  assumes "\<And>q. strict_prefix q p \<Longrightarrow> dir_at f q \<or> lookup f q = None"
  shows "blocked f p = None \<or> blocked f p = Some ENOENT"
proof (cases "find (\<lambda>q. \<not> dir_at f q) (parents p)")
  case (Some q)
  then have "q \<in> set (parents p)" "\<not> dir_at f q" by (auto simp: find_Some_iff)
  with assms [of q] Some show ?thesis by (auto simp: blocked_def set_parents)
qed (simp add: blocked_def)

definition listed :: "PKIService \<Rightarrow> world \<Rightarrow> string \<Rightarrow> CertificateRecord list" where
  "listed s w name = (case inventory s w name of None \<Rightarrow> [] | Some c \<Rightarrow> [c])"

lemma listed_record_steady:
  assumes f: "faults w = []" and st: "stat (files w) (issued_root s) = Inr (Directory m0)"
    and n: "lookup (files w) (issued_root s @ [fst entry]) = Some (snd entry)"
  shows "listed_record (issued_root s) entry w = (Inr (listed s w (fst entry)), w)"
proof (cases "\<not> is_directory (snd entry) \<or> has_prefix (fst entry) ''.''")
  case True
  with n have "inventory s w (fst entry) = None" by (auto simp: inventory_def dir_at_def)
  with True show ?thesis by (auto simp: listed_record_def listed_def returnE_def)
next
  case False
  let ?p = "issued_root s @ [fst entry, manifestName]"
  have d: "dir_at (files w) (issued_root s @ [fst entry])" using False n by (simp add: dir_at_def)
  have "dir_at (files w) q" if "strict_prefix q ?p" for q
  proof -
    from that have "q = issued_root s @ [fst entry] \<or> prefix q (issued_root s)"
      using strict_prefix_snoc [of q "issued_root s @ [fst entry]" manifestName] by simp
    then show ?thesis
      using st d by (cases "q = issued_root s") (auto simp: stat_Inr blocked_None dir_at_iff strict_prefix_def)
  qed
  then have b: "blocked (files w) ?p = None" by (simp add: blocked_None)
  obtain r where r: "readManifest ?p w = (r, w)"
    and rm: "\<forall>m. r = Inr m \<longleftrightarrow> blocked (files w) ?p = None \<and> manifest_of s (fst entry) w = Some m"
    using readManifest_steady [OF f, of ?p] by blast
  show ?thesis
  proof (cases r)
    case (Inl e)
    then have "manifest_of s (fst entry) w = None" using rm b by (cases "manifest_of s (fst entry) w") auto
    with Inl r False show ?thesis
      by (auto simp: listed_record_def listed_def inventory_def bindE_def tryE_def returnE_def)
  next
    case (Inr m)
    with rm have "manifest_of s (fst entry) w = Some m" by blast
    with Inr r False d show ?thesis
      by (auto simp: listed_record_def listed_def inventory_def bindE_def tryE_def returnE_def)
  qed
qed

lemma mapE_steady:
  assumes "\<And>x. x \<in> set xs \<Longrightarrow> f x w = (Inr (g x), w)"
  shows "mapE f xs w = (Inr (map g xs), w)"
  using assms by (induction xs) (auto simp: bindE_def returnE_def)

lemma listed_ids: "c \<in> set (listed s w n) \<longleftrightarrow> inventory s w n = Some c \<and> rec_ID c = n"
  by (auto simp: listed_def inventory_def split: option.splits if_splits)

lemma distinct_listed:
  assumes "distinct ns"
  shows "distinct (map rec_ID (concat (map (listed s w) ns)))"
  using assms
proof (induction ns)
  case (Cons n ns)
  have one: "map rec_ID (listed s w n) = [] \<or> map rec_ID (listed s w n) = [n]"
  proof (cases "inventory s w n")
    case (Some c)
    then have "c \<in> set (listed s w n)" by (simp add: listed_def)
    with Some show ?thesis unfolding listed_ids by (simp add: listed_def)
  qed (simp add: listed_def)
  have "rec_ID c \<in> set ns" if "c \<in> set (concat (map (listed s w) ns))" for c
    using that by (simp add: listed_ids)
  then have new: "n \<notin> set (map rec_ID (concat (map (listed s w) ns)))" using Cons.prems by fastforce
  have d: "distinct (map rec_ID (concat (map (listed s w) ns)))" using Cons by simp
  show ?case unfolding list.map concat.simps map_append using one new d by (elim disjE) simp_all
qed simp

lemma List_steady:
  assumes f: "faults w = []" and c: "closed_tree (files w)"
    and reach: "\<And>q n. prefix q (issued_root s) \<Longrightarrow> at w q = Some n \<Longrightarrow> is_directory n"
  shows "\<exists>cs. svc_List s w = (Inr cs, w) \<and> sorted (map rec_ID cs) \<and> distinct (map rec_ID cs) \<and>
    (\<forall>c. c \<in> set cs \<longleftrightarrow> inventory s w (rec_ID c) = Some c)"
proof (cases "stat (files w) (issued_root s)")
  case (Inl e)
  have "dir_at (files w) q \<or> at w q = None" if "strict_prefix q (issued_root s)" for q
    using reach [of q] that by (auto simp: dir_at_def strict_prefix_def split: option.splits)
  then have "blocked (files w) (issued_root s) = None \<or> blocked (files w) (issued_root s) = Some ENOENT"
    by (rule blocked_absent)
  with Inl have e: "e = ENOENT" by (auto simp: stat_def split: option.splits)
  have none: "\<not> dir_at (files w) (issued_root s @ [cid])" for cid
    using closed_stat [OF c, of "issued_root s" "[cid]"] Inl by auto
  have "svc_List s w = (Inr [], w)"
    using Inl e f by (simp add: svc_List_def os_read_dir_def syscall_def bindE_def tryE_def returnE_def)
  with none show ?thesis by (simp add: inventory_def)
next
  case (Inr n)
  with reach [of "issued_root s" n] obtain m where st: "stat (files w) (issued_root s) = Inr (Directory m)"
    by (cases n) (auto simp: stat_Inr)
  let ?es = "children (issued_root s) (files w)"
  have wf: "wf_tree (files w)" using c by (simp add: closed_tree_def)
  have "mapE (listed_record (issued_root s)) ?es w = (Inr (map (\<lambda>x. listed s w (fst x)) ?es), w)"
    by (rule mapE_steady, rule listed_record_steady [OF f st])
      (use wf_children [OF wf] in \<open>metis prod.collapse\<close>)
  then have run: "svc_List s w = (Inr (sort_key rec_ID (concat (map (\<lambda>x. listed s w (fst x)) ?es))), w)"
    using st f by (simp add: svc_List_def os_read_dir_def syscall_def bindE_def tryE_def returnE_def)
  let ?cs = "concat (map (\<lambda>x. listed s w (fst x)) ?es)"
  have cs: "?cs = concat (map (listed s w) (map fst ?es))" by (simp add: comp_def)
  have "distinct (map rec_ID ?cs)"
    unfolding cs by (rule distinct_listed [OF distinct_children [OF wf]])
  then have "distinct (map rec_ID (sort_key rec_ID ?cs))"
    by (simp only: distinct_map_mset [OF mset_sort])
  moreover have "c \<in> set ?cs \<longleftrightarrow> inventory s w (rec_ID c) = Some c" for c
  proof
    assume "inventory s w (rec_ID c) = Some c"
    then obtain n where "lookup (files w) (issued_root s @ [rec_ID c]) = Some n" "inventory s w (rec_ID c) = Some c"
      by (auto simp: inventory_def dir_at_def split: if_splits option.splits)
    with wf_children [OF wf] have "(rec_ID c, n) \<in> set ?es" "c \<in> set (listed s w (rec_ID c))"
      by (auto simp: listed_ids)
    then show "c \<in> set ?cs" by force
  qed (auto simp: listed_ids)
  ultimately show ?thesis using run by (intro exI conjI) (assumption, simp_all)
qed

end
