(* ===== verification/Web_Routes.thy ===== *)
theory Web_Routes
  imports Web_Handler Web_Listing
begin

text \<open>
  Which requests reach which endpoint, what the auditor makes of them, and what an endpoint does to the
  world: the facts the properties of the handler rest on.
\<close>

section \<open>Matching\<close>

text \<open>What a pattern matches, and the values of its wildcards.\<close>

fun fits :: "seg list \<Rightarrow> string list \<Rightarrow> string list option" where
  "fits [] [] = Some []"
| "fits (Literal l # p) (s # ss) = (if l = s then fits p ss else None)"
| "fits (Single # p) (s # ss) = (if s = ''/'' then None else map_option (Cons s) (fits p ss))"
| "fits [Trail] (s # ss) = Some []"
| "fits p ss = None"

lemma set_after: "(q, h) \<in> set (after x rs) \<longleftrightarrow> (x # q, h) \<in> set rs"
  by (force simp: after_def split: list.splits if_splits)

lemma leaf_Some: "leaf p rs = Some h \<Longrightarrow> (p, h) \<in> set rs"
  by (auto simp: leaf_def find_Some_iff) (metis fst_conv nth_mem)

lemma or_else_Some: "or_else x y = Some a \<longleftrightarrow> x = Some a \<or> x = None \<and> y = Some a"
  by (cases x) (auto simp: or_else_def)

lemma matchPath_sound:
  "matchPath rs ss ms = Some (h, ms') \<Longrightarrow> \<exists>p vs. (p, h) \<in> set rs \<and> fits p ss = Some vs \<and> ms' = ms @ vs"
proof (induction rs ss ms rule: matchPath.induct)
  case (1 rs ms)
  then show ?case by (auto intro!: exI [of _ "[]"] dest: leaf_Some)
next
  case (2 rs s ss ms)
  consider "matchPath (after (Literal s) rs) ss ms = Some (h, ms')"
    | "s \<noteq> ''/''" "matchPath (after Single rs) ss (ms @ [s]) = Some (h, ms')"
    | "leaf [Trail] rs = Some h" "ms' = ms"
    using "2.prems" by (auto simp: or_else_Some split: if_splits)
  then show ?case
  proof cases
    case 1
    from "2.IH"(1) [OF this] obtain p vs where "(Literal s # p, h) \<in> set rs" "fits p ss = Some vs" "ms' = ms @ vs"
      by (auto simp: set_after)
    then show ?thesis by (intro exI [of _ "Literal s # p"] exI [of _ vs]) simp
  next
    case 2
    from "2.IH"(2) [OF this] obtain p vs where "(Single # p, h) \<in> set rs" "fits p ss = Some vs" "ms' = (ms @ [s]) @ vs"
      by (auto simp: set_after)
    with 2 show ?thesis by (intro exI [of _ "Single # p"] exI [of _ "s # vs"]) simp
  next
    case 3
    then show ?thesis by (intro exI [of _ "[Trail]"] exI [of _ "[]"]) (simp add: leaf_Some)
  qed
qed

lemma fits_Literal: "fits (Literal l # p) ss = Some vs \<longleftrightarrow> (\<exists>r. ss = l # r \<and> fits p r = Some vs)"
  by (cases ss) auto

lemma fits_Single: "fits (Single # p) ss = Some vs \<longleftrightarrow> (\<exists>s r us. ss = s # r \<and> s \<noteq> ''/'' \<and> fits p r = Some us \<and> vs = s # us)"
  by (cases ss) auto

lemma fits_Nil: "fits [] ss = Some vs \<longleftrightarrow> ss = [] \<and> vs = []"
  by (cases ss) auto

lemmas fits_simps = fits_Literal fits_Single fits_Nil

lemma cleanPath_rooted: "hd (cleanPath p) = CHR ''/''"
proof -
  have "\<exists>t. path_str q = CHR ''/'' # t" for q by (cases q) (auto simp: path_str_def)
  then have "\<exists>t. cleanPath p = CHR ''/'' # t"
    unfolding cleanPath_def Let_def by (metis append_Cons)
  then show ?thesis by auto
qed

text \<open>The requests that reach the endpoints with an effect or a private answer.\<close>

lemma route:
  assumes "findHandler routes m esc = Handler e vs"
  shows "e = H_initialize \<Longrightarrow> m = ''POST'' \<and> path_segments esc = [''api'', ''v1'', ''initialize''] \<and> vs = []"
    and "e = H_issue \<Longrightarrow> m = ''POST'' \<and> (\<exists>k. path_segments esc = [''api'', ''v1'', ''certificates'', k] \<and> vs = [k])"
    and "e = H_revoke \<Longrightarrow> m = ''POST'' \<and>
      (\<exists>k. path_segments esc = [''api'', ''v1'', ''certificates'', k, ''revoke''] \<and> vs = [k])"
    and "e = H_download \<Longrightarrow> (m = ''GET'' \<or> m = ''HEAD'') \<and>
      (\<exists>k f. path_segments esc = [''api'', ''v1'', ''certificates'', k, ''files'', f] \<and> vs = [k, f])"
    and "e = H_bundle \<Longrightarrow> (m = ''GET'' \<or> m = ''HEAD'') \<and>
      (\<exists>k. path_segments esc = [''api'', ''v1'', ''certificates'', k, ''bundle.zip''] \<and> vs = [k])"
    and "e = H_ocsp \<Longrightarrow> m = ''POST'' \<and> (\<exists>k. path_segments esc = [''ocsp'', k] \<and> vs = [k])"
    and "e \<notin> {H_initialize, H_issue, H_revoke, H_ocsp} \<Longrightarrow> m = ''GET'' \<or> m = ''HEAD''"
    and "m = ''POST'' \<Longrightarrow> hd esc = CHR ''/''"
proof -
  have "matchMethodAndPath routes m esc = Some (e, vs)"
    using assms by (auto simp: findHandler_def Let_def split: if_splits option.splits)
  then obtain m' where mm: "matchPath (routes_of m' routes) (path_segments esc) [] = Some (e, vs)"
    and m': "m' = m \<or> m = ''HEAD'' \<and> m' = ''GET''"
    by (auto simp: matchMethodAndPath_def or_else_Some split: if_splits)
  from matchPath_sound [OF mm] obtain p where p: "(m', p, e) \<in> set routes" and f: "fits p (path_segments esc) = Some vs"
    by (auto simp: routes_of_def)
  note all = p f m'
  show "e = H_initialize \<Longrightarrow> m = ''POST'' \<and> path_segments esc = [''api'', ''v1'', ''initialize''] \<and> vs = []"
    using all by (auto simp: routes_def api_def fits_simps)
  show "e = H_issue \<Longrightarrow> m = ''POST'' \<and> (\<exists>k. path_segments esc = [''api'', ''v1'', ''certificates'', k] \<and> vs = [k])"
    using all by (auto simp: routes_def api_def fits_simps)
  show "e = H_revoke \<Longrightarrow> m = ''POST'' \<and>
      (\<exists>k. path_segments esc = [''api'', ''v1'', ''certificates'', k, ''revoke''] \<and> vs = [k])"
    using all by (auto simp: routes_def api_def fits_simps)
  show "e = H_download \<Longrightarrow> (m = ''GET'' \<or> m = ''HEAD'') \<and>
      (\<exists>k f. path_segments esc = [''api'', ''v1'', ''certificates'', k, ''files'', f] \<and> vs = [k, f])"
    using all by (auto simp: routes_def api_def fits_simps)
  show "e = H_bundle \<Longrightarrow> (m = ''GET'' \<or> m = ''HEAD'') \<and>
      (\<exists>k. path_segments esc = [''api'', ''v1'', ''certificates'', k, ''bundle.zip''] \<and> vs = [k])"
    using all by (auto simp: routes_def api_def fits_simps)
  show "e = H_ocsp \<Longrightarrow> m = ''POST'' \<and> (\<exists>k. path_segments esc = [''ocsp'', k] \<and> vs = [k])"
    using all by (auto simp: routes_def api_def fits_simps)
  show "e \<notin> {H_initialize, H_issue, H_revoke, H_ocsp} \<Longrightarrow> m = ''GET'' \<or> m = ''HEAD''"
    using p m' by (auto simp: routes_def)
  show "hd esc = CHR ''/''" if "m = ''POST''"
  proof -
    have "cleanPath esc = esc" using assms that by (auto simp: findHandler_def Let_def split: if_splits)
    with cleanPath_rooted [of esc] show ?thesis by simp
  qed
qed

section \<open>The decoded path\<close>

lemma hex_val_slash: "hex_val (CHR ''/'') = None"
  by code_simp

lemma url_unescape_slash:
  "url_unescape (a @ CHR ''/'' # b) =
     (case url_unescape a of None \<Rightarrow> None | Some x \<Rightarrow> map_option (\<lambda>y. x @ CHR ''/'' # y) (url_unescape b))"
proof (induction a rule: url_unescape.induct)
  case 1
  show ?case by (cases "url_unescape b") simp_all
next
  case (2 c cs)
  show ?case
  proof (cases "c = CHR ''%''")
    case False
    with 2 show ?thesis by (cases "url_unescape cs"; cases "url_unescape b") simp_all
  next
    case True
    consider "cs = []" | u where "cs = [u]" | u v r where "cs = u # v # r"
      by (cases cs; cases "tl cs") auto
    then show ?thesis
    proof cases
      case 1
      with True show ?thesis by (cases b) (simp_all add: hex_val_slash)
    next
      case 2
      with True show ?thesis by (cases "hex_val u") (simp_all add: hex_val_slash)
    next
      case 3
      with True "2.IH"(1) [OF True 3 refl] show ?thesis
        by (cases "hex_val u"; cases "hex_val v"; cases "url_unescape r"; cases "url_unescape b") simp_all
    qed
  qed
qed

lemma url_unescape_join:
  assumes "url_unescape (join_with ''/'' xs) = Some t"
  shows "t = join_with ''/'' (map pathUnescape xs)"
  using assms
proof (induction "''/''" xs arbitrary: t rule: join_with.induct)
  case (3 x y ys)
  then show ?case by (auto simp: url_unescape_slash pathUnescape_def split: option.splits)
qed (auto simp: pathUnescape_def split: option.splits)

text \<open>A path whose last segment is not its trailing slash decodes to its segments.\<close>

lemma decoded_path:
  assumes "url_unescape esc = Some t" and "hd esc = CHR ''/''" and "last (path_segments esc) \<noteq> ''/''"
  shows "t = CHR ''/'' # join_with ''/'' (path_segments esc)"
proof -
  have ne: "esc \<noteq> []" using assms(2,3) by (auto simp: path_segments_def)
  have "pathUnescape [] = []" by (simp add: pathUnescape_def)
  moreover obtain raws where raws: "split_on (CHR ''/'') (drop 1 esc) = raws" and "raws \<noteq> []" by simp
  moreover have "map pathUnescape raws = map pathUnescape (butlast raws) @ [pathUnescape (last raws)]"
    using append_butlast_last_id [OF \<open>raws \<noteq> []\<close>] by (metis list.simps(8,9) map_append)
  ultimately have segs: "path_segments esc = map pathUnescape (split_on (CHR ''/'') (drop 1 esc))"
    using assms(3) unfolding path_segments_def Let_def raws by (cases "last raws = []") simp_all
  have "esc = [] @ CHR ''/'' # join_with ''/'' (split_on (CHR ''/'') (drop 1 esc))"
    using ne assms(2) by (cases esc) simp_all
  then have "url_unescape ([] @ CHR ''/'' # join_with ''/'' (split_on (CHR ''/'') (drop 1 esc))) = Some t"
    using assms(1) by simp
  then obtain y where "t = CHR ''/'' # y" "url_unescape (join_with ''/'' (split_on (CHR ''/'') (drop 1 esc))) = Some y"
    by (subst (asm) url_unescape_slash) (auto simp del: join_split)
  with url_unescape_join [OF this(2)] segs show ?thesis by simp
qed

section \<open>What the auditor sees\<close>

lemma last_join: "xs \<noteq> [] \<Longrightarrow> last xs \<noteq> [] \<Longrightarrow> join_with sep xs \<noteq> [] \<and> last (join_with sep xs) = last (last xs)"
  by (induction sep xs rule: join_with.induct) auto

lemma hd_join: "xs \<noteq> [] \<Longrightarrow> hd xs \<noteq> [] \<Longrightarrow> hd (join_with sep xs) = hd (hd xs)"
  by (induction sep xs rule: join_with.induct) auto

lemma trim_rooted:
  assumes "s \<noteq> []" and "hd s \<noteq> c" and "last s \<noteq> c"
  shows "trim [c] (c # s) = s"
proof -
  obtain a t where s: "s = a # t" using assms(1) by (cases s) auto
  have "dropWhile (\<lambda>x. x \<in> set [c]) (rev s) = rev s"
    using assms(1,3) by (cases "rev s") (auto simp: last_rev hd_rev [symmetric])
  with s assms(2) show ?thesis by (simp add: trim_def trim_left_def trim_right_def)
qed

lemma audit_parts:
  assumes u: "url_unescape (r_EscapedPath r) \<noteq> None" and "hd (r_EscapedPath r) = CHR ''/''"
    and segs: "path_segments (r_EscapedPath r) = segs" and plain: "list_all (\<lambda>s. s \<noteq> [] \<and> CHR ''/'' \<notin> set s) segs"
    and ne: "segs \<noteq> []"
  shows "trim [CHR ''/''] (url_Path r) = join_with ''/'' segs" and "split_on (CHR ''/'') (join_with ''/'' segs) = segs"
proof -
  obtain t where t: "url_unescape (r_EscapedPath r) = Some t" using u by auto
  have l: "last segs \<noteq> []" "CHR ''/'' \<notin> set (last segs)" "hd segs \<noteq> []" "CHR ''/'' \<notin> set (hd segs)"
    using plain ne by (auto simp: list_all_iff)
  then have "last segs \<noteq> ''/''" by auto
  with decoded_path [OF t assms(2)] segs have "url_Path r = CHR ''/'' # join_with ''/'' segs"
    by (simp add: url_Path_def pathUnescape_def t)
  moreover have "hd (join_with ''/'' segs) \<noteq> CHR ''/''" "last (join_with ''/'' segs) \<noteq> CHR ''/''" "join_with ''/'' segs \<noteq> []"
    using hd_join [OF ne l(3)] last_join [OF ne l(1)] l hd_in_set [OF l(3)] last_in_set [OF l(1)] by metis+
  ultimately show "trim [CHR ''/''] (url_Path r) = join_with ''/'' segs" by (simp add: trim_rooted)
  show "split_on (CHR ''/'') (join_with ''/'' segs) = segs"
    by (rule split_join [OF ne]) (use plain in \<open>auto simp: list_all_iff\<close>)
qed

text \<open>The requests with an effect, and the private answers, are audited.\<close>

lemma audited:
  assumes h: "findHandler routes (r_Method r) (r_EscapedPath r) = Handler e vs"
    and u: "url_unescape (r_EscapedPath r) \<noteq> None"
  shows "e = H_initialize \<Longrightarrow> auditTarget r = Some (''initialize'', ''ca'')"
    and "e = H_issue \<Longrightarrow> plain_segment (hd vs) \<Longrightarrow> auditTarget r = Some (''issue'', hd vs)"
    and "e = H_revoke \<Longrightarrow> plain_segment (hd vs) \<Longrightarrow> auditTarget r = Some (''revoke'', hd vs)"
proof -
  note rt = route [OF h]
  show "e = H_initialize \<Longrightarrow> auditTarget r = Some (''initialize'', ''ca'')"
  proof -
    assume "e = H_initialize"
    with rt(1,8) have m: "r_Method r = ''POST''" "hd (r_EscapedPath r) = CHR ''/''"
      and segs: "path_segments (r_EscapedPath r) = [''api'', ''v1'', ''initialize'']" by auto
    from audit_parts(1) [OF u m(2) segs] m(1) show ?thesis by (simp add: auditTarget_def)
  qed
  show "auditTarget r = Some (''issue'', hd vs)" if e: "e = H_issue" and p: "plain_segment (hd vs)"
  proof -
    obtain k where m: "r_Method r = ''POST''" "hd (r_EscapedPath r) = CHR ''/''"
      and segs: "path_segments (r_EscapedPath r) = [''api'', ''v1'', ''certificates'', k]" and k: "vs = [k]"
      using rt(2) [OF e] rt(8) by auto
    have "list_all (\<lambda>s. s \<noteq> [] \<and> CHR ''/'' \<notin> set s) [''api'', ''v1'', ''certificates'', k]"
      using p k by (simp add: plain_segment_def)
    from audit_parts [OF u m(2) segs this] m(1) k show ?thesis
      by (simp add: auditTarget_def del: join_with.simps) simp
  qed
  show "auditTarget r = Some (''revoke'', hd vs)" if e: "e = H_revoke" and p: "plain_segment (hd vs)"
  proof -
    obtain k where m: "r_Method r = ''POST''" "hd (r_EscapedPath r) = CHR ''/''"
      and segs: "path_segments (r_EscapedPath r) = [''api'', ''v1'', ''certificates'', k, ''revoke'']" and k: "vs = [k]"
      using rt(3) [OF e] rt(8) by auto
    have "list_all (\<lambda>s. s \<noteq> [] \<and> CHR ''/'' \<notin> set s) [''api'', ''v1'', ''certificates'', k, ''revoke'']"
      using p k by (simp add: plain_segment_def)
    from audit_parts [OF u m(2) segs this] m(1) k show ?thesis
      by (simp add: auditTarget_def del: join_with.simps) simp
  qed
qed

section \<open>What an endpoint changes\<close>

lemma answer_world: "answer bad good m x w = (y, w') \<Longrightarrow> \<exists>r. m w = (r, w')"
  by (auto simp: answer_def split: prod.splits sum.splits)

lemma answer_reads: "reads_only m \<Longrightarrow> answer bad good m x w = (y, w') \<Longrightarrow> files w' = files w"
  by (auto dest!: answer_world dest: reads_onlyD)

text \<open>What the auditor relies on: the operations it does not record change nothing, a revocation of
  what no route names is refused, and an OCSP request works in its own area.\<close>

locale audited_service =
  fixes sv :: Service and ok :: bool and area :: "path set"
  assumes reading: "reads_only (sv_Status sv)" "reads_only (sv_List sv)" "reads_only (sv_Download sv cid name)"
      "reads_only (sv_Bundle sv cid)" "reads_only (sv_RootCA sv kind)" "reads_only (sv_CRL sv kind)"
    and refused: "\<not> plain_segment cid \<Longrightarrow> sv_Revoke sv cid w = (r, w') \<Longrightarrow> files w' = files w"
    and ocsp: "ok \<Longrightarrow> changes area (sv_OCSP sv kind request)"
begin

lemma endpoint_unaudited:
  assumes "service h = sv" and ok and "run_endpoint h now e vs r x w = (y, w')" and "q \<notin> area"
    and "e \<noteq> H_initialize" and "e = H_issue \<Longrightarrow> \<not> plain_segment (hd vs)" and "e = H_revoke \<Longrightarrow> \<not> plain_segment (hd vs)"
  shows "at w' q = at w q"
proof (cases e)
  case H_issue
  with assms(6) have "hd vs \<noteq> ''rsa''" "hd vs \<noteq> ''tlcp''" by (auto simp: plain_segment_def)
  with assms(3) H_issue show ?thesis by (auto simp: h_issue_def)
next
  case H_revoke
  with assms(1,3,7) show ?thesis
    by (auto simp: h_revoke_def split: option.splits dest!: answer_world dest: refused)
next
  case H_ocsp
  with assms(1,3) have "w' = w \<or> (\<exists>kind request r. sv_OCSP sv kind request w = (r, w'))"
    by (auto simp: h_ocsp_def split: if_splits option.splits dest!: answer_world)
  with changesD [OF ocsp [OF assms(2)] _ assms(4)] show ?thesis by blast
qed (use assms(1,3,5) in \<open>auto simp: h_status_def h_list_def h_download_def h_bundle_def h_rootCA_def h_crl_def
  dest: answer_reads [OF reading(1) [folded assms(1)]] answer_reads [OF reading(2) [folded assms(1)]] answer_reads [OF reading(3) [folded assms(1)]]
    answer_reads [OF reading(4) [folded assms(1)]] answer_reads [OF reading(5) [folded assms(1)]] answer_reads [OF reading(6) [folded assms(1)]]\<close>)

lemma unaudited:
  assumes "service h = sv" and ok and "ServeHTTP h now r x w = (y, w')" and "q \<notin> area"
    and a: "auditTarget r = None" and u: "url_unescape (r_EscapedPath r) \<noteq> None"
  shows "at w' q = at w q"
proof (cases "findHandler routes (r_Method r) (r_EscapedPath r)")
  case (Handler e vs)
  note aud = audited [OF Handler u]
  from assms(3) Handler have run: "run_endpoint h now e vs r x w = (y, w')" by (simp add: ServeHTTP_def)
  show ?thesis
    by (rule endpoint_unaudited [OF assms(1,2) run assms(4)]) (use aud a in auto)
qed (use assms(3) in \<open>auto simp: ServeHTTP_def\<close>)

end

definition ocsp_area :: "Engine \<Rightarrow> path set" where
  "ocsp_area e = scratch (engine_pki e) ''.ocsp-'' []"

lemma changes_svc_OCSP:
  assumes "wired s e"
  shows "changes (ocsp_area e) (svc_OCSP s kind request)"
proof -
  have "changes (ocsp_area e) (RespondOCSP e kind request)"
    unfolding ocsp_area_def by (rule changes_RespondOCSP) (use assms in \<open>simp add: wired_def\<close>)
  with assms show ?thesis
    unfolding svc_OCSP_def by (auto simp: wired_def intro!: footprint)
qed

interpretation pki: audited_service "pki_ops z s now mw" "wired s e" "ocsp_area e" for z s now mw e
proof unfold_locales
  show "files w' = files w" if "\<not> plain_segment cid" and "sv_Revoke (pki_ops z s now mw) cid w = (r, w')" for cid w r w'
    using that safe_segment_plain [of cid] by (auto simp: pki_ops_def svc_Revoke_def throwE_def split: option.splits if_splits)
qed (simp_all add: pki_ops_def reads_service changes_svc_OCSP)

end
