(* ===== verification/Web_Handler_Claims.thy ===== *)
theory Web_Handler_Claims
  imports Web_Routes Pki_Issue_Claims
begin

text \<open>
  The properties of the HTTP handler: nothing happens unrecorded, answers to recorded requests follow
  their record, and mutations from elsewhere never reach the service.
\<close>

section \<open>Steps of the auditor\<close>

lemma log_ready_footprint:
  assumes "bindE newRequestID (\<lambda>rid. bindE (Log_Ready cwd log) (\<lambda>_. returnE rid)) w = (a, w1)"
    and "q \<noteq> log_file cwd log" and "\<not> prefix q (butlast (log_file cwd log))"
  shows "at w1 q = at w q"
proof -
  have "changes ({q. prefix q (butlast (log_file cwd log))} \<union> {log_file cwd log})
      (bindE newRequestID (\<lambda>rid. bindE (Log_Ready cwd log) (\<lambda>_. returnE rid)))"
    unfolding newRequestID_def Log_Ready_def log_open_def
    by (auto intro!: footprint split: sum.split)
  from changesD [OF this assms(1)] assms(2,3) show ?thesis by simp
qed

lemma request_id_Inr:
  assumes "bindE newRequestID (\<lambda>rid. bindE (Log_Ready cwd log) (\<lambda>_. returnE rid)) w = (Inr rid, w1)"
  shows "length rid = 32"
proof -
  from assms obtain v w0 where "rand_read 16 w = (Inr v, w0)" and "rid = concat (map hex_byte v)"
    by (auto simp: newRequestID_def bindE_Inr)
  moreover have "length (concat (map hex_byte v)) = 2 * length v" for v
    by (induction v) (auto simp: hex_byte_def)
  ultimately show ?thesis using rand_read_Inr by fastforce
qed

lemma stamp_entry: "stamp now (audit_entry now rid r action resource c) = audit_entry now rid r action resource c"
  by (simp add: stamp_def audit_entry_def)

lemma auditRequests_cases:
  assumes run: "auditRequests next cwd log now r x w = (y, w')" and t: "auditTarget r = Some (action, resource)"
  obtains (refused) "y = audit_failure x"
      and "\<forall>q. q \<noteq> log_file cwd log \<and> \<not> prefix q (butlast (log_file cwd log)) \<longrightarrow> at w' q = at w q"
  | (ran) rid c w1 w2 where "length rid = 32"
      and "\<forall>q. q \<noteq> log_file cwd log \<and> \<not> prefix q (butlast (log_file cwd log)) \<longrightarrow> at w1 q = at w q"
      and "next r fresh_response w1 = (c, w2)"
      and "(\<exists>e. Log_Append cwd now log (audit_entry now rid r action resource (WriteHeader 200 c)) w2 = (Inl e, w')) \<and>
          y = audit_failure x \<or>
        Log_Append cwd now log (audit_entry now rid r action resource (WriteHeader 200 c)) w2 = (Inr (), w') \<and>
          y = replay rid (WriteHeader 200 c) x"
proof -
  obtain a w1 where a: "bindE newRequestID (\<lambda>rid. bindE (Log_Ready cwd log) (\<lambda>_. returnE rid)) w = (a, w1)" by force
  have keep: "\<forall>q. q \<noteq> log_file cwd log \<and> \<not> prefix q (butlast (log_file cwd log)) \<longrightarrow> at w1 q = at w q"
    using log_ready_footprint [OF a] by blast
  note step = run [unfolded auditRequests_def t option.case prod.case a]
  show thesis
  proof (cases a)
    case (Inl e)
    with step keep show thesis by (intro refused) simp_all
  next
    case (Inr rid)
    obtain c w2 where c: "next r fresh_response w1 = (c, w2)" by force
    obtain b w3 where b: "Log_Append cwd now log (audit_entry now rid r action resource (WriteHeader 200 c)) w2 = (b, w3)"
      by force
    from step show thesis
      unfolding Inr sum.case prod.case c Let_def b
      using ran [OF request_id_Inr [OF a [unfolded Inr]] keep c] b by (cases b) auto
  qed
qed

section \<open>Refusals\<close>

lemma status_error: "resp_Status x = 0 \<Longrightarrow> st \<noteq> 0 \<Longrightarrow> resp_Status (writeAPIError st c m x) = st"
  by (simp add: writeAPIError_def writeJSON_def Write_def Let_def WriteHeader_def set_header_def)

lemma status_mux:
  "resp_Status x = 0 \<Longrightarrow> (\<And>h vs. f \<noteq> Handler h vs) \<Longrightarrow> 300 \<le> resp_Status (mux_answer r f x)"
  by (cases f) (auto simp: http_Redirect_def http_Error_def Let_def Write_def WriteHeader_def set_header_def)

definition refusable :: "HttpRequest \<Rightarrow> bool" where
  "refusable r \<longleftrightarrow>
     foreign_origin r \<or> media_type r \<notin> {''application/json'', ''application/ocsp-request''} \<or>
     r_BodyFails r \<or> maxJSONBody < length (r_Body r)"

lemma refusable_mutation: "refusable r \<Longrightarrow> decodeMutation f r = None"
  by (auto simp: refusable_def decodeMutation_def read_limited_def)

lemma endpoint_refuses:
  assumes e: "e \<in> {H_initialize, H_issue, H_revoke, H_ocsp}" and r: "refusable r" and x: "resp_Status x = 0"
    and run: "run_endpoint h now e vs r x w = (y, w')"
  shows "w' = w \<and> 300 \<le> resp_Status y"
proof -
  have big: "16 * 1024 < n" if "maxJSONBody < n" for n using that by (simp add: maxJSONBody_def)
  from e show ?thesis
  proof (elim insertE)
    assume "e = H_initialize"
    with run x show ?thesis by (auto simp: refusable_mutation [OF r] h_initialize_def status_error)
  next
    assume "e = H_issue"
    with run x show ?thesis by (auto simp: refusable_mutation [OF r] h_issue_def status_error split: if_splits)
  next
    assume "e = H_revoke"
    with run x show ?thesis by (auto simp: refusable_mutation [OF r] h_revoke_def status_error)
  next
    assume H: "e = H_ocsp"
    have "foreign_origin r \<or> media_type r \<noteq> ''application/ocsp-request'' \<or> read_limited (16 * 1024) r = None"
      using r big [of "length (r_Body r)"] by (auto simp: refusable_def read_limited_def)
    with run H x show ?thesis by (auto simp: h_ocsp_def status_error split: if_splits)
  qed simp
qed

section \<open>Properties\<close>

text \<open>C17. Answers follow the record. A request the auditor names gets one of three answers: a refusal
  before any endpoint has run, with nothing changed but the log itself; a refusal because the record
  could not be written; or the endpoint's answer with the request identifier, and then the private log
  ends with the whole line of the record of exactly this request and outcome.\<close>

theorem answers_follow_the_record:
  assumes "New h cwd (Some log) now later r x w = (y, w')" and "auditTarget r = Some (action, resource)"
  shows "y = audit_failure x \<and>
      (\<forall>q. q \<noteq> log_file cwd (Some log) \<and> \<not> prefix q (butlast (log_file cwd (Some log))) \<longrightarrow> at w' q = at w q) \<or>
    (\<exists>rid c w1 w2. length rid = 32 \<and>
       (\<forall>q. q \<noteq> log_file cwd (Some log) \<and> \<not> prefix q (butlast (log_file cwd (Some log))) \<longrightarrow> at w1 q = at w q) \<and>
       securityHeaders (ServeHTTP h now) r fresh_response w1 = (c, w2) \<and>
       (y = audit_failure x \<or>
        y = replay rid (WriteHeader 200 c) x \<and>
        at w' (log_file cwd (Some log)) = Some (Regular mode_0600 (content (log_file cwd (Some log)) w2 @
          audit_line (audit_entry later rid r action resource (WriteHeader 200 c)) @ [CHR 0x0A]))))"
proof -
  have run: "auditRequests (securityHeaders (ServeHTTP h now)) cwd (Some log) later r x w = (y, w')"
    using assms(1) by (simp add: New_def)
  from run assms(2) show ?thesis
  proof (cases rule: auditRequests_cases)
    case (ran rid c w1 w2)
    have line: "at w' (log_file cwd (Some log)) = Some (Regular mode_0600 (content (log_file cwd (Some log)) w2 @
        audit_line (audit_entry later rid r action resource (WriteHeader 200 c)) @ [CHR 0x0A]))"
      if "Log_Append cwd later (Some log) (audit_entry later rid r action resource (WriteHeader 200 c)) w2 = (Inr (), w')"
      using Log_Append_Inr(1) [OF that] by (auto simp: stamp_entry dest: marshal_record_Inr)
    show ?thesis
      by (rule disjI2, intro exI conjI) (rule ran(1), rule ran(2), rule ran(3), use ran(4) line in blast)
  qed simp
qed

definition demo_handler :: handler where
  "demo_handler = \<lparr>service = pki_ops \<lparr>zip_entry = (\<lambda>es. None), zip_close = (\<lambda>es. Inr [])\<rparr>
       (NewPKIService [''data''] (Some demo_store) (Some (demo_engine []))) 0 (\<lambda>k w. w),
     version = ''dev'', homePage = ''home'', applicationJS = ''js''\<rparr>"

definition demo_post :: "string \<Rightarrow> string \<Rightarrow> string \<Rightarrow> HttpRequest" where
  "demo_post path origin body =
     \<lparr>r_Method = ''POST'', r_EscapedPath = path, r_RawQuery = [], r_Host = ''127.0.0.1:8080'', r_TLS = False,
      r_RemoteAddr = ''127.0.0.1:50000'',
      r_Header = [(''Content-Type'', [''application/json'']), (''Origin'', [origin])], r_Body = body, r_BodyFails = False\<rparr>"

definition init_body :: string where
  "init_body = json_marshal (JObj [(''organization'', JStr ''Lab'')])"

definition demo_init :: HttpRequest where
  "demo_init = demo_post ''/api/v1/initialize'' ''http://127.0.0.1:8080'' init_body"

lemma demo_init_conflict: "resp_Status (fst (New demo_handler [] demo_log 5 6 demo_init fresh_response demo_world)) = 409"
  by code_simp

theorem answers_follow_the_record_witness:
  "\<exists>rid c d. at (snd (New demo_handler [] demo_log 5 6 demo_init fresh_response demo_world)) [''data'', ''audit.jsonl''] =
      Some (Regular mode_0600 (d @ audit_line (audit_entry 6 rid demo_init ''initialize'' ''ca'' c) @ [CHR 0x0A]))"
proof -
  have log: "demo_log = Some (log_New ''/data/audit.jsonl'')" by (simp add: demo_log_def)
  have f: "log_file [] (Some (log_New ''/data/audit.jsonl'')) = [''data'', ''audit.jsonl'']" by code_simp
  have t: "auditTarget demo_init = Some (''initialize'', ''ca'')" by code_simp
  have "resp_Status (audit_failure fresh_response) = 500" by (simp add: audit_failure_def status_error fresh_response_def)
  then have "fst (New demo_handler [] demo_log 5 6 demo_init fresh_response demo_world) \<noteq> audit_failure fresh_response"
    using demo_init_conflict by auto
  with answers_follow_the_record [OF prod.collapse [symmetric] t, of demo_handler "[]" "log_New ''/data/audit.jsonl''" 5 6
      fresh_response demo_world]
  show ?thesis unfolding f log by blast
qed

text \<open>C16. Nothing happens unrecorded: a request the auditor does not name changes no file but those
  of the temporary directory of an OCSP query, whatever its method, path, headers and body, with every
  way to escape the path.\<close>

theorem unaudited_changes_nothing:
  assumes "wired s e" and "service h = pki_ops z s t mw" and "auditTarget r = None"
    and "url_unescape (r_EscapedPath r) \<noteq> None" and "New h cwd auditor now later r x w = (y, w')" and "q \<notin> ocsp_area e"
  shows "at w' q = at w q"
proof -
  from assms(3,5) have "\<exists>x'. ServeHTTP h now r x' w = (y, w')"
    by (auto simp: New_def auditRequests_def securityHeaders_def Let_def split: option.splits)
  then show ?thesis using pki.unaudited [OF assms(2,1) _ assms(6,3,4)] by blast
qed

theorem unaudited_changes_nothing_witness:
  "at (snd (New demo_handler [] demo_log 5 6 (demo_post ''/api/v1/certificates/a%2Fb/revoke'' [] ''{}'') fresh_response demo_world))
     [''data'', ''pki'', ''state.json''] = at demo_world [''data'', ''pki'', ''state.json'']"
proof -
  let ?r = "demo_post ''/api/v1/certificates/a%2Fb/revoke'' [] ''{}''"
  let ?s = "NewPKIService [''data''] (Some demo_store) (Some (demo_engine []))"
  have w: "wired ?s (demo_engine [])"
    using confined_demo_engine by (simp add: wired_def NewPKIService_def demo_engine_def NewEngine_def demo_store_def)
  have a: "auditTarget ?r = None" by code_simp
  have u: "url_unescape (r_EscapedPath ?r) \<noteq> None" by code_simp
  have q: "[''data'', ''pki'', ''state.json''] \<notin> ocsp_area (demo_engine [])"
    by (auto simp: ocsp_area_def scratch_def temp_name_def pki_dir_def demo_engine_def NewEngine_def demo_store_def)
  show ?thesis
    by (rule unaudited_changes_nothing [OF w _ a u prod.collapse [symmetric] q]) (simp add: demo_handler_def)
qed

text \<open>C18. A mutation from another origin, of another media type, or with a body that is too long or
  cannot be read, is refused without calling the service, whatever the service is: the world is left
  as it is and the answer is no success.\<close>

theorem refused_mutations_reach_nothing:
  assumes "r_Method r \<noteq> ''GET''" and "r_Method r \<noteq> ''HEAD''" and "refusable r"
    and "resp_Status x = 0" and "ServeHTTP h now r x w = (y, w')"
  shows "w' = w \<and> 300 \<le> resp_Status y"
proof (cases "findHandler routes (r_Method r) (r_EscapedPath r)")
  case (Handler e vs)
  with assms(5) have run: "run_endpoint h now e vs r x w = (y, w')" by (simp add: ServeHTTP_def)
  have "e \<in> {H_initialize, H_issue, H_revoke, H_ocsp}" using route(7) [OF Handler] assms(1,2) by blast
  from endpoint_refuses [OF this assms(3,4) run] show ?thesis .
qed (use assms(5) in \<open>auto simp: ServeHTTP_def simp del: mux_answer.simps intro!: status_mux [OF assms(4)]\<close>)

theorem refused_mutations_reach_nothing_witness:
  "snd (ServeHTTP demo_handler 5 (demo_post ''/api/v1/initialize'' ''http://evil.example'' init_body) fresh_response demo_world) =
     demo_world"
proof -
  let ?r = "demo_post ''/api/v1/initialize'' ''http://evil.example'' init_body"
  have "r_Method ?r \<noteq> ''GET''" "r_Method ?r \<noteq> ''HEAD''" by (simp_all add: demo_post_def)
  moreover have "foreign_origin ?r"
    by (simp add: foreign_origin_def sameOrigin_def demo_post_def header_Get_def header_values_def)
  then have "refusable ?r" by (simp add: refusable_def)
  moreover have "resp_Status fresh_response = 0" by (simp add: fresh_response_def)
  ultimately show ?thesis using refused_mutations_reach_nothing [OF _ _ _ _ prod.collapse [symmetric]] by blast
qed

text \<open>
  The record of a redirect: a path that is not canonical is answered by the mux with a redirect, which
  runs no endpoint, and the auditor records a successful initialisation.
\<close>

definition demo_redirect :: "Response \<times> world" where
  "demo_redirect = New demo_handler [] demo_log 5 6 (demo_post ''//api/v1/initialize'' [] init_body) fresh_response demo_world"

theorem redirected_mutation_is_recorded_as_success:
  "resp_Status (fst demo_redirect) = 301 \<and>
   content [''data'', ''audit.jsonl''] (snd demo_redirect) =
     audit_line \<lparr>Time = 6, RequestID = ''000102030405060708090a0b0c0d0e0f'', RemoteAddr = ''127.0.0.1:50000'',
       Action = ''initialize'', Resource = ''ca'', Outcome = ''success'', ErrorCode = []\<rparr> @ [CHR 0x0A]"
  by code_simp

end
