(* ===== verification/Cli.thy ===== *)
theory Cli
  imports Web_Handler Web_Inventory Pki_Passphrase Backup
begin

text \<open>
  The two command lines, cmd/certarium/main.go and cmd/certarium-backup/main.go, after package flag has
  parsed their arguments. \<open>log.Fatal\<close> is the error of the program. Listening on the network is
  outside the model: the server program ends with the server it would run.
\<close>

section \<open>The server\<close>

record serve_flags =
  fl_listen :: string
  fl_dataDir :: string
  fl_tongsuo :: string
  fl_cryptoTimeout :: int
  fl_passphraseFile :: string
  fl_showVersion :: bool

definition second :: int where
  "second = 1000000000"

definition default_flags :: serve_flags where
  "default_flags = \<lparr>fl_listen = ''127.0.0.1:8080'', fl_dataDir = ''./data'', fl_tongsuo = ''/opt/tongsuo/bin/openssl'',
     fl_cryptoTimeout = 30 * second, fl_passphraseFile = [], fl_showVersion = False\<rparr>"

record server =
  srv_Addr :: string
  srv_Service :: PKIService
  srv_Auditor :: Log
  srv_ReadHeaderTimeout :: int
  srv_ReadTimeout :: int
  srv_WriteTimeout :: int
  srv_IdleTimeout :: int

text \<open>The data directory is created when it is missing and made private in any case.\<close>

definition make_data_dir :: "path \<Rightarrow> string \<Rightarrow> unit io" where
  "make_data_dir cwd dir =
     bindE (checkE (dir \<noteq> []) (PathErr ''mkdir'' [] ENOENT)) (\<lambda>_.
     bindE (os_mkdir_all (resolve cwd dir) mode_0700) (\<lambda>_.
     os_chmod (resolve cwd dir) mode_0700))"

definition wire :: "exec \<Rightarrow> string list \<Rightarrow> path \<Rightarrow> serve_flags \<Rightarrow> string \<Rightarrow> server" where
  "wire exec environ cwd fl pass =
     (let dir = resolve cwd (fl_dataDir fl);
          st = \<lparr>root = dir\<rparr>;
          run = \<lparr>Executable = fl_tongsuo fl, Timeout = fl_cryptoTimeout fl, Env = []\<rparr>;
          engine = NewEngineWithPassphrase exec environ st (Command run) pass in
      \<lparr>srv_Addr = fl_listen fl, srv_Service = NewPKIService dir (Some st) (Some engine),
       srv_Auditor = log_New (fl_dataDir fl @ ''/audit.jsonl''), srv_ReadHeaderTimeout = 5 * second,
       srv_ReadTimeout = 15 * second, srv_WriteTimeout = 45 * second, srv_IdleTimeout = 60 * second\<rparr>)"

definition certarium_main ::
    "exec \<Rightarrow> string list \<Rightarrow> path \<Rightarrow> string \<Rightarrow> serve_flags \<Rightarrow> (string + server) io" where
  "certarium_main exec environ cwd ver fl =
     (if fl_showVersion fl then returnE (Inl (ver @ [CHR 0x0A]))
      else
        bindE (checkE (IsLoopbackListen (fl_listen fl))
          (ErrText ''v0.1 only supports an explicit loopback listen address'')) (\<lambda>_.
        bindE (LoadPassphraseFile cwd (fl_passphraseFile fl)) (\<lambda>pass.
        bindE (make_data_dir cwd (fl_dataDir fl)) (\<lambda>_.
        returnE (Inr (wire exec environ cwd fl pass))))))"

text \<open>The handler of the server; \<open>t\<close>, \<open>now\<close> and \<open>later\<close> are the times a request sees,
  \<open>mw\<close> what others do between the steps of an initialisation.\<close>

definition server_handler :: "server \<Rightarrow> zipper \<Rightarrow> string \<times> string \<Rightarrow> string \<Rightarrow> path \<Rightarrow> instant \<Rightarrow> instant \<Rightarrow> instant \<Rightarrow> others \<Rightarrow> serve" where
  "server_handler srv z pages ver cwd t now later mw =
     New \<lparr>service = pki_ops z (srv_Service srv) t mw, version = ver, homePage = fst pages, applicationJS = snd pages\<rparr>
       cwd (Some (srv_Auditor srv)) now later"

section \<open>Backup and restore\<close>

record backup_flags =
  bf_mode :: string
  bf_dataDir :: string
  bf_configDir :: string
  bf_file :: string
  bf_passphraseFile :: string
  bf_replace :: bool
  bf_showVersion :: bool

definition default_backup_flags :: backup_flags where
  "default_backup_flags = \<lparr>bf_mode = [], bf_dataDir = ''/var/lib/certarium'', bf_configDir = ''/etc/certarium'',
     bf_file = [], bf_passphraseFile = [], bf_replace = False, bf_showVersion = False\<rparr>"

definition write_stdout :: "string \<Rightarrow> string io" where
  "write_stdout s = syscall (\<lambda>n. throwE (PathErr ''write'' [''dev'', ''stdout''] EIO)) (returnE s)"

text \<open>The program gives what it prints.\<close>

definition backup_main ::
    "codec \<Rightarrow> path \<Rightarrow> instant \<Rightarrow> (nat \<Rightarrow> int) \<Rightarrow> string \<Rightarrow> backup_flags \<Rightarrow> string io" where
  "backup_main cd cwd now nano ver fl =
     (if bf_showVersion fl then returnE (ver @ [CHR 0x0A])
      else
        bindE (checkE (bf_file fl \<noteq> []) (ErrText ''-file is required'')) (\<lambda>_.
        bindE (LoadPassphraseFile cwd (bf_passphraseFile fl)) (\<lambda>password.
        bindE (if bf_mode fl = ''backup'' then
            bindE (checkE (\<not> bf_replace fl) (ErrText ''-replace is valid only for restore'')) (\<lambda>_.
            Create cd cwd now (bf_dataDir fl) (bf_configDir fl) (bf_file fl) password)
          else if bf_mode fl = ''restore'' then
            Restore cd cwd nano (bf_file fl) (bf_dataDir fl) (bf_configDir fl) password (bf_replace fl)
          else throwE (ErrText ''-mode must be backup or restore'')) (\<lambda>_.
        write_stdout (bf_mode fl @ '' completed'' @ [CHR 0x0A])))))"

section \<open>Properties\<close>

lemma make_data_dir_Inr:
  assumes "make_data_dir cwd dir w = (Inr u, w')" and "resolve cwd dir \<noteq> []"
  shows "at w' (resolve cwd dir) = Some (Directory mode_0700)"
proof -
  from assms(1) obtain w1 where m: "os_mkdir_all (resolve cwd dir) mode_0700 w = (Inr (), w1)"
    and c: "os_chmod (resolve cwd dir) mode_0700 w1 = (Inr (), w')"
    by (auto simp: make_data_dir_def bindE_Inr)
  from os_mkdir_all_Inr [OF m, of "resolve cwd dir"] obtain m' where "at w1 (resolve cwd dir) = Some (Directory m')"
    by (auto simp: dir_at_iff)
  with os_chmod_Inr [OF c] assms(2) show ?thesis by auto
qed

definition loopback_address :: "ip \<Rightarrow> bool" where
  "loopback_address a \<longleftrightarrow> (\<exists>x y z. a = replicate 10 0 @ [255, 255, 127, x, y, z]) \<or> a = replicate 15 0 @ [1]"

lemma is_loopback_address:
  assumes "length a = 16" and "is_loopback a"
  shows "loopback_address a"
proof (cases "ip_to4 a")
  case None
  with assms(2) show ?thesis by (simp add: is_loopback_def loopback_address_def)
next
  case (Some q)
  with assms(1) have q: "q = drop 12 a" and t: "take 12 a = replicate 10 0 @ [255, 255]"
    by (auto simp: ip_to4_def split: if_splits)
  have "length q = 4" using q assms(1) by simp
  then obtain u x y z where xyz: "q = [u, x, y, z]"
    by (auto simp: length_Suc_conv eval_nat_numeral)
  have "u = 127" using assms(2) Some xyz by (simp add: is_loopback_def)
  moreover have "a = (replicate 10 0 @ [255, 255]) @ q" using append_take_drop_id [of 12 a] t q by metis
  ultimately show ?thesis using xyz by (auto simp: loopback_address_def)
qed

text \<open>C19. A server is only started on a loopback address, with a passphrase from a private file, over a
  private data directory, and with the service, store and engine sharing that directory and the
  engine's CA keys protected; on any other listen address the program ends before it touches a file.\<close>

theorem server_is_local_and_private:
  assumes "certarium_main exec environ cwd ver fl w = (r, w')" and "\<not> fl_showVersion fl"
  shows "(\<forall>srv. r = Inr (Inr srv) \<longrightarrow>
      (\<exists>host port a. split_host_port (srv_Addr srv) = Some (host, port) \<and> parse_IP host = Some a \<and> loopback_address a) \<and>
      (\<exists>m d. at w (resolve cwd (fl_passphraseFile fl)) = Some (Regular m d) \<and> m AND mode_0077 = 0) \<and>
      (resolve cwd (fl_dataDir fl) \<noteq> [] \<longrightarrow> at w' (resolve cwd (fl_dataDir fl)) = Some (Directory mode_0700)) \<and>
      (\<exists>e. svc_engine (srv_Service srv) = Some e \<and> passphrase e \<and> root (store e) = dataDir (srv_Service srv) \<and>
        svc_store (srv_Service srv) = store e)) \<and>
    (\<not> IsLoopbackListen (fl_listen fl) \<longrightarrow> (\<exists>err. r = Inl err) \<and> w' = w)"
proof (intro conjI allI impI)
  show "\<exists>err. r = Inl err" and "w' = w" if "\<not> IsLoopbackListen (fl_listen fl)"
    using assms that by (auto simp: certarium_main_def bindE_def checkE_def throwE_def)
next
  fix srv assume "r = Inr (Inr srv)"
  with assms obtain pass w1 where ll: "IsLoopbackListen (fl_listen fl)"
    and lp: "LoadPassphraseFile cwd (fl_passphraseFile fl) w = (Inr pass, w1)"
    and md: "make_data_dir cwd (fl_dataDir fl) w1 = (Inr (), w')" and srv: "srv = wire exec environ cwd fl pass"
    by (auto simp: certarium_main_def bindE_Inr)
  from ll obtain host port a where "split_host_port (fl_listen fl) = Some (host, port)" "parse_IP host = Some a" "is_loopback a"
    by (auto simp: IsLoopbackListen_def split: option.splits)
  then show "\<exists>host port a. split_host_port (srv_Addr srv) = Some (host, port) \<and> parse_IP host = Some a \<and> loopback_address a"
    using is_loopback_address parse_IP_length by (auto simp: srv wire_def Let_def)
  from lp show "\<exists>m d. at w (resolve cwd (fl_passphraseFile fl)) = Some (Regular m d) \<and> m AND mode_0077 = 0"
    by (rule LoadPassphraseFile_Inr) blast
  show "at w' (resolve cwd (fl_dataDir fl)) = Some (Directory mode_0700)" if "resolve cwd (fl_dataDir fl) \<noteq> []"
    by (rule make_data_dir_Inr [OF md that])
  have "pass \<noteq> []" using lp by (rule LoadPassphraseFile_Inr) simp
  then show "\<exists>e. svc_engine (srv_Service srv) = Some e \<and> passphrase e \<and> root (store e) = dataDir (srv_Service srv) \<and>
        svc_store (srv_Service srv) = store e"
    by (auto simp: srv wire_def Let_def NewPKIService_def NewEngineWithPassphrase_def)
qed

definition cli_world :: world where
  "cli_world = \<lparr>files = [([''home''], Directory mode_0755), ([''home'', ''pass''], Regular mode_0600 ''secret'')],
     faults = [], rand = (\<lambda>i. i), umask = 18\<rparr>"

definition cli_flags :: "string \<Rightarrow> serve_flags" where
  "cli_flags listen = default_flags\<lparr>fl_listen := listen, fl_passphraseFile := ''pass''\<rparr>"

lemma cli_serves:
  "(case fst (certarium_main demo_exec [] [''home''] ''dev'' (cli_flags ''[::1]:8080'') cli_world) of
      Inr (Inr srv) \<Rightarrow> True | _ \<Rightarrow> False)"
  by code_simp

theorem server_is_local_and_private_witness:
  "at (snd (certarium_main demo_exec [] [''home''] ''dev'' (cli_flags ''[::1]:8080'') cli_world)) [''home'', ''data''] =
     Some (Directory mode_0700) \<and>
   snd (certarium_main demo_exec [] [''home''] ''dev'' (cli_flags ''0.0.0.0:8080'') cli_world) = cli_world"
proof
  have nv: "\<not> fl_showVersion (cli_flags a)" for a by (simp add: cli_flags_def default_flags_def)
  have d: "resolve [''home''] (fl_dataDir (cli_flags a)) = [''home'', ''data'']" for a
  proof -
    have "resolve [''home''] ''./data'' = [''home'', ''data'']" by code_simp
    then show ?thesis by (simp add: cli_flags_def default_flags_def)
  qed
  obtain srv where "fst (certarium_main demo_exec [] [''home''] ''dev'' (cli_flags ''[::1]:8080'') cli_world) = Inr (Inr srv)"
    using cli_serves by (auto split: sum.splits)
  with server_is_local_and_private [OF prod.collapse [symmetric] nv, of demo_exec "[]" "[''home'']" "''dev''" "''[::1]:8080''" cli_world]
  show "at (snd (certarium_main demo_exec [] [''home''] ''dev'' (cli_flags ''[::1]:8080'') cli_world)) [''home'', ''data''] =
     Some (Directory mode_0700)" unfolding d by blast
  have "\<not> IsLoopbackListen ''0.0.0.0:8080''" by code_simp
  then have "\<not> IsLoopbackListen (fl_listen (cli_flags ''0.0.0.0:8080''))" by (simp add: cli_flags_def)
  with server_is_local_and_private [OF prod.collapse [symmetric] nv, of demo_exec "[]" "[''home'']" "''dev''" "''0.0.0.0:8080''" cli_world]
  show "snd (certarium_main demo_exec [] [''home''] ''dev'' (cli_flags ''0.0.0.0:8080'') cli_world) = cli_world" by blast
qed

end
