(* ===== verification/Web_History.thy ===== *)
theory Web_History
  imports Web_Keeping Web_Handler_Claims Cli
begin

text \<open>
  The whole server over time, with any number of requests in flight: its steps are the calls the code
  makes under a mutex, in any interleaving, whichever system calls fail, and between them the world
  outside the files may change. Every request, through endpoint, routing and auditor, is a run of such
  steps; and what the service never takes away is carried through every run.
\<close>

section \<open>The auditor's own steps\<close>

definition ready_id :: "path \<Rightarrow> Log option \<Rightarrow> string io" where
  "ready_id cwd log = bindE newRequestID (\<lambda>rid. bindE (Log_Ready cwd log) (\<lambda>_. returnE rid))"

lemma grows_ready_id: "l = log_file cwd log \<Longrightarrow> grows l (ready_id cwd log)"
proof -
  assume l: "l = log_file cwd log"
  have "grows l newRequestID" by (rule grows_changes [of "{}"]) (simp_all add: newRequestID_def footprint)
  moreover have "grows l (returnE x)" for x by (rule grows_changes [of "{}"]) (simp_all add: footprint)
  ultimately show ?thesis
    unfolding ready_id_def Log_Ready_def l [symmetric]
    by (cases "log_unconfigured log") (auto intro!: grows_rules grows_log_open grows_throwE)
qed

lemma auditor_steps:
  assumes run: "auditRequests next cwd log now r x w = (y, w')" and t: "auditTarget r = Some (action, resource)"
  obtains a w1 where "ready_id cwd log w = (a, w1)"
    and "w' = w1 \<or> (\<exists>c w2 rec b. next r fresh_response w1 = (c, w2) \<and> Log_Append cwd now log rec w2 = (b, w'))"
proof -
  obtain a w1 where a: "ready_id cwd log w = (a, w1)" by force
  note step = run [unfolded auditRequests_def t option.case prod.case ready_id_def [symmetric] a]
  show thesis
  proof (cases a)
    case (Inl e)
    with step have "w' = w1" by simp
    with that [OF a] show thesis by blast
  next
    case (Inr rid)
    obtain c w2 where c: "next r fresh_response w1 = (c, w2)" by force
    obtain b w3 where b: "Log_Append cwd now log (audit_entry now rid r action resource (WriteHeader 200 c)) w2 = (b, w3)"
      by force
    from step have "w' = w3" unfolding Inr sum.case prod.case c Let_def b by (cases b) auto
    with b c that [OF a] show thesis by blast
  qed
qed

section \<open>Requests do what the service does\<close>

text \<open>
  A relation on worlds that every operation of the service and each of the two steps of the auditor
  keeps: then every request keeps it.
\<close>

locale lasting_service = audited_service +
  fixes rel :: "world \<Rightarrow> world \<Rightarrow> bool" and cwd :: path and log :: Log
  assumes same: "ok \<Longrightarrow> files w' = files w \<Longrightarrow> rel w w'"
    and again: "rel u v \<Longrightarrow> rel v w \<Longrightarrow> rel u w"
    and initialize: "ok \<Longrightarrow> sv_Initialize sv organization w = (r1, w') \<Longrightarrow> rel w w'"
    and issue: "ok \<Longrightarrow> storable_request input \<Longrightarrow> sv_Issue sv kind input w = (r2, w') \<Longrightarrow> rel w w'"
    and revoke: "ok \<Longrightarrow> sv_Revoke sv cid w = (r3, w') \<Longrightarrow> rel w w'"
    and respond: "ok \<Longrightarrow> sv_OCSP sv kind request w = (r4, w') \<Longrightarrow> rel w w'"
    and readied: "ok \<Longrightarrow> ready_id cwd (Some log) w = (r5, w') \<Longrightarrow> rel w w'"
    and appended: "ok \<Longrightarrow> Log_Append cwd now (Some log) rec w = (r6, w') \<Longrightarrow> rel w w'"
begin

lemma endpoint_keeps:
  assumes h: "service h = sv" and ok and run: "run_endpoint h now e vs r x w = (y, w')"
  shows "rel w w'"
proof (cases e)
  case H_initialize
  with run show ?thesis
    by (auto simp: h_initialize_def h intro: same [OF \<open>ok\<close>] split: option.splits if_splits
        dest!: answer_world dest: initialize [OF \<open>ok\<close>])
next
  case H_issue
  with run show ?thesis
    by (auto simp: h_issue_def h intro: same [OF \<open>ok\<close>] split: option.splits if_splits
        dest!: answer_world dest: issue [OF \<open>ok\<close> decoded_request_storable])
next
  case H_revoke
  with run show ?thesis
    by (auto simp: h_revoke_def h intro: same [OF \<open>ok\<close>] split: option.splits if_splits
        dest!: answer_world dest: revoke [OF \<open>ok\<close>])
next
  case H_ocsp
  with run show ?thesis
    by (auto simp: h_ocsp_def h intro: same [OF \<open>ok\<close>] split: option.splits if_splits
        dest!: answer_world dest: respond [OF \<open>ok\<close>])
qed (use run in \<open>auto simp: h h_status_def h_list_def h_download_def h_bundle_def h_rootCA_def h_crl_def
  intro!: same [OF \<open>ok\<close>]
  dest: answer_reads [OF reading(1)] answer_reads [OF reading(2)] answer_reads [OF reading(3)]
    answer_reads [OF reading(4)] answer_reads [OF reading(5)] answer_reads [OF reading(6)]\<close>)

lemma serve_keeps:
  assumes "service h = sv" and ok and "ServeHTTP h now r x w = (y, w')"
  shows "rel w w'"
  using assms endpoint_keeps [OF assms(1,2)]
  by (auto simp: ServeHTTP_def intro: same split: found.splits)

lemma request_keeps:
  assumes "service h = sv" and ok and run: "New h cwd (Some log) now later r x w = (y, w')"
  shows "rel w w'"
proof -
  have aud: "auditRequests (securityHeaders (ServeHTTP h now)) cwd (Some log) later r x w = (y, w')"
    using run by (simp add: New_def)
  show ?thesis
  proof (cases "auditTarget r")
    case None
    with aud serve_keeps [OF assms(1,2)] show ?thesis by (auto simp: auditRequests_def securityHeaders_def)
  next
    case (Some t)
    obtain action resource where "auditTarget r = Some (action, resource)" using Some by (cases t) simp
    from auditor_steps [OF aud this] obtain a w1 where a: "ready_id cwd (Some log) w = (a, w1)"
      and rest: "w' = w1 \<or> (\<exists>c w2 rec b. securityHeaders (ServeHTTP h now) r fresh_response w1 = (c, w2) \<and>
        Log_Append cwd later (Some log) rec w2 = (b, w'))" by blast
    have first: "rel w w1" by (rule readied [OF \<open>ok\<close> a])
    from rest show ?thesis
    proof (elim disjE exE conjE)
      fix c w2 rec b
      assume c: "securityHeaders (ServeHTTP h now) r fresh_response w1 = (c, w2)"
        and b: "Log_Append cwd later (Some log) rec w2 = (b, w')"
      from c have "rel w1 w2" using serve_keeps [OF assms(1,2)] by (simp add: securityHeaders_def)
      with first appended [OF \<open>ok\<close> b] show ?thesis using again by blast
    qed (use first in simp)
  qed
qed

end

section \<open>The PKI service\<close>

lemma grown_OCSP:
  assumes i: "installed s e l" and run: "svc_OCSP s kind request w = (r, w')"
  shows "grown s l w w'"
proof -
  have w: "wired s e" using i by (simp add: installed_def)
  note out = changesD [OF changes_svc_OCSP [OF w] run]
  have area: "\<exists>n z. q = dataDir s @ [''pki'', ''.ocsp-'' @ n] @ z" if "q \<in> ocsp_area e" for q
    using that wired_dirs(1) [OF w] by (auto simp: ocsp_area_def scratch_def temp_name_def prefix_def)
  show ?thesis
  proof (rule grown_kept [OF i])
    show "at w' q = at w q" if "q \<notin> pki_area s" for q
      by (rule out) (use that in \<open>auto simp: pki_area_def dest!: area\<close>)
    show "at w' (state_path (store e)) = at w (state_path (store e))"
      by (rule out) (use wired_dirs(1) [OF w] in \<open>auto simp: state_path_def dest!: area\<close>)
    show "inventory s w' = inventory s w"
    proof (rule below_issued_inventory, unfold below_issued_def, intro allI impI out)
      fix q assume "strict_prefix (issued_root s) q"
      then show "q \<notin> ocsp_area e"
        by (auto simp: strict_prefix_def prefix_def issued_root_def dest!: area)
    qed
  qed
qed

text \<open>The three calls of an initialisation stay in the directory of the PKI.\<close>

lemma initialise_areas:
  assumes w: "wired s e"
  shows "changes (pki_area s) (Store_Initialize (store e))"
    and "changes (pki_area s) (InitializeAuthorities e organization)"
    and "changes (pki_area s) (os_remove_all (dataDir s @ [''pki'']))"
proof -
  have pki: "engine_pki e = dataDir s @ [''pki'']" using wired_dirs(1) [OF w] .
  have c: "confined (runner e)" using w by (simp add: wired_def)
  show "changes (pki_area s) (Store_Initialize (store e))"
    by (rule changes_mono [OF changes_Store_Initialize]) (auto simp: pki_area_def pki dest!: below_state_area)
  show "changes (pki_area s) (InitializeAuthorities e organization)"
    by (rule changes_mono [OF changes_InitializeAuthorities [OF c]])
      (auto simp: pki_area_def pki scratch_def temp_name_def prefix_def)
  show "changes (pki_area s) (os_remove_all (dataDir s @ [''pki'']))"
    by (intro footprint) (auto simp: pki_area_def)
qed

lemma grown_ready_id:
  assumes "installed s e l" and "l = log_file cwd log" and "ready_id cwd log w = (r, w')"
  shows "grown s l w w'"
  by (rule grown_log [OF assms(1)])
    (use assms log_ready_footprint [OF assms(3) [unfolded ready_id_def]] growsD [OF grows_ready_id [OF assms(2)] assms(3)]
      in auto)

lemma grown_Log_Append:
  assumes "installed s e l" and "l = log_file cwd log" and "Log_Append cwd now log rec w = (r, w')"
  shows "grown s l w w'"
  by (rule grown_log [OF assms(1)])
    (use assms changesD [OF changes_Log_Append assms(3)] growsD [OF grows_Log_Append assms(3)] in auto)

section \<open>The server\<close>

text \<open>
  The steps of the running server. A state is the world and the initialisations in flight: the state file
  is created and the authorities come next, or they have failed and the directory is to be removed. A
  step is what some request does under a mutex: the test of the auditor and the appending of a record,
  with any record; issuing, revoking and answering an OCSP query, with anything a request can ask for;
  and each of the three calls of an initialisation, which only the two mutexes of the store and the
  engine keep apart. Reading, and everything outside the files, is \<open>outside\<close>: new random numbers,
  another schedule of faults, the same files. What runs beside an operation under the mutex of the
  service, when nothing is in flight, are the steps of the log, refused initialisations and OCSP
  queries, which use files it does not use; they stand before or after it here.
\<close>

datatype initialisation = Created string | Broken

inductive serving :: "server \<Rightarrow> path \<Rightarrow> world \<times> initialisation list \<Rightarrow> world \<times> initialisation list \<Rightarrow> bool"
  for srv cwd a where
  started: "serving srv cwd a a"
| outside: "serving srv cwd a (v, ps) \<Longrightarrow> files u = files v \<Longrightarrow> serving srv cwd a (u, ps)"
| readied: "serving srv cwd a (v, ps) \<Longrightarrow> ready_id cwd (Some (srv_Auditor srv)) v = (r1, u) \<Longrightarrow>
    serving srv cwd a (u, ps)"
| appended: "serving srv cwd a (v, ps) \<Longrightarrow> Log_Append cwd now (Some (srv_Auditor srv)) rec v = (r2, u) \<Longrightarrow>
    serving srv cwd a (u, ps)"
| issued: "serving srv cwd a (v, ps) \<Longrightarrow> storable_request input \<Longrightarrow>
    svc_Issue (srv_Service srv) now kind input v = (r3, u) \<Longrightarrow> serving srv cwd a (u, ps)"
| revoking: "serving srv cwd a (v, ps) \<Longrightarrow> svc_Revoke (srv_Service srv) cid v = (r4, u) \<Longrightarrow> serving srv cwd a (u, ps)"
| responded: "serving srv cwd a (v, ps) \<Longrightarrow> svc_OCSP (srv_Service srv) kind query v = (r5, u) \<Longrightarrow>
    serving srv cwd a (u, ps)"
| refused: "serving srv cwd a (v, ps) \<Longrightarrow> Store_Initialize (svc_store (srv_Service srv)) v = (Inl err, u) \<Longrightarrow>
    serving srv cwd a (u, ps)"
| created: "serving srv cwd a (v, ps) \<Longrightarrow> Store_Initialize (svc_store (srv_Service srv)) v = (Inr x, u) \<Longrightarrow>
    serving srv cwd a (u, Created organization # ps)"
| completed: "serving srv cwd a (v, ps @ Created organization # qs) \<Longrightarrow> svc_engine (srv_Service srv) = Some e \<Longrightarrow>
    InitializeAuthorities e organization v = (Inr y, u) \<Longrightarrow> serving srv cwd a (u, ps @ qs)"
| broken: "serving srv cwd a (v, ps @ Created organization # qs) \<Longrightarrow> svc_engine (srv_Service srv) = Some e \<Longrightarrow>
    InitializeAuthorities e organization v = (Inl err, u) \<Longrightarrow> serving srv cwd a (u, ps @ Broken # qs)"
| removed: "serving srv cwd a (v, ps @ Broken # qs) \<Longrightarrow>
    os_remove_all (dataDir (srv_Service srv) @ [''pki'']) v = (r6, u) \<Longrightarrow> serving srv cwd a (u, ps @ qs)"

lemma serving_trans: "serving srv cwd b c \<Longrightarrow> serving srv cwd a b \<Longrightarrow> serving srv cwd a c"
  by (induction rule: serving.induct) (blast intro: serving.intros)+

text \<open>What a request does that finds and leaves the same initialisations in flight.\<close>

definition served :: "server \<Rightarrow> path \<Rightarrow> world \<Rightarrow> world \<Rightarrow> bool" where
  "served srv cwd w w' \<longleftrightarrow> (\<forall>ps. serving srv cwd (w, ps) (w', ps))"

lemmas serving_once = serving.intros(2-) [OF serving.started]

lemma served_Initialize:
  assumes mw: "\<forall>k v ps. serving srv cwd (v, ps) (mw k v, ps)"
    and run: "svc_Initialize mw (srv_Service srv) organization w = (r, w')"
  shows "served srv cwd w w'"
  unfolding served_def
proof
  fix ps
  let ?s = "srv_Service srv"
  show "serving srv cwd (w, ps) (w', ps)"
  proof (cases "svc_engine ?s")
    case None
    with run show ?thesis by (auto simp: svc_Initialize_def throwE_def intro: serving.started)
  next
    case (Some e)
    obtain r1 w1 where si: "Store_Initialize (svc_store ?s) w = (r1, w1)" by force
    obtain r2 w2 where ia: "InitializeAuthorities e organization (mw 0 w1) = (r2, w2)" by force
    obtain r3 w3 where rm: "os_remove_all (dataDir ?s @ [''pki'']) (mw 1 w2) = (r3, w3)" by force
    show ?thesis
    proof (cases r1)
      case (Inl err)
      with run si Some have "w' = w1" by (auto simp: svc_Initialize_def bindE_def translateE_def)
      with si Inl show ?thesis by (auto intro: serving_once)
    next
      case (Inr x)
      with si have "serving srv cwd (w, ps) (w1, Created organization # ps)" by (auto intro: serving_once)
      then have begun: "serving srv cwd (w, ps) (mw 0 w1, [] @ Created organization # ps)"
        using mw serving_trans by fastforce
      show ?thesis
      proof (cases r2)
        case r2: (Inr y)
        with run si ia Some Inr have "w' = w2"
          by (auto simp: svc_Initialize_def bindE_def translateE_def onErrorE_def meanwhile_def)
        with serving.completed [OF begun Some] ia r2 show ?thesis by auto
      next
        case (Inl err)
        have "serving srv cwd (w, ps) (w2, [] @ Broken # ps)"
          using serving.broken [OF begun Some] ia Inl by auto
        then have "serving srv cwd (w, ps) (mw 1 w2, [] @ Broken # ps)"
          using mw serving_trans by fastforce
        from serving.removed [OF this rm] have "serving srv cwd (w, ps) (w3, ps)" by simp
        moreover have "w' = w3"
          using run si ia rm Some Inr Inl
          by (auto simp: svc_Initialize_def bindE_def translateE_def onErrorE_def meanwhile_def split: sum.splits)
        ultimately show ?thesis by simp
      qed
    qed
  qed
qed

interpretation steps: lasting_service "pki_ops z (srv_Service srv) now mw"
    "wired (srv_Service srv) e \<and> (\<forall>k v ps. serving srv cwd (v, ps) (mw k v, ps))" "ocsp_area e"
    "served srv cwd" cwd "srv_Auditor srv" for z srv now mw e cwd
proof unfold_locales
  fix u v w assume "served srv cwd u v" and "served srv cwd v w"
  then show "served srv cwd u w" unfolding served_def using serving_trans by blast
next
  let ?ok = "wired (srv_Service srv) e \<and> (\<forall>k v ps. serving srv cwd (v, ps) (mw k v, ps))"
  show "changes (ocsp_area e) (sv_OCSP (pki_ops z (srv_Service srv) now mw) kind request)" if ?ok for kind request
    using that pki.ocsp by blast
  show "served srv cwd w w'" if ?ok "sv_Initialize (pki_ops z (srv_Service srv) now mw) organization w = (r1, w')"
    for organization w r1 w'
    using served_Initialize [OF conjunct2 [OF that(1)]] that(2) by (simp add: pki_ops_def)
qed (rule pki.reading pki.refused; assumption | auto simp: served_def pki_ops_def intro: serving_once)+

text \<open>What a later state of a run has to do with the first.\<close>

lemma serving_log:
  assumes "serving srv cwd a b" and i: "installed (srv_Service srv) e l" and l: "l = log_file cwd (Some (srv_Auditor srv))"
  shows "prefix (content l (fst a)) (content l (fst b))"
  using assms(1)
proof (induction rule: serving.induct)
  let ?s = "srv_Service srv"
  have w: "wired ?s e" "svc_store ?s = store e" "svc_engine ?s = Some e" using i by (auto simp: installed_def wired_def)
  have kept: "content l u = content l v" if "changes (pki_area ?s) m" "m v = (r, u)" for m :: "'a io" and v u r
    using changesD [OF that log_outside [OF i]] by (simp add: content_def)
  have longer: "prefix (content l (fst a)) (content l u)"
    if "prefix (content l (fst a)) (content l v)" and "grown ?s l v u" for v u
    using that prefix_order.trans unfolding grown_def by blast
  note area = initialise_areas [OF w(1)]
  {
    case (outside v ps u)
    then show ?case by (simp add: content_def)
  next
    case (readied v ps r1 u)
    with longer grown_ready_id [OF i l] show ?case by auto
  next
    case (appended v ps now rec r2 u)
    with longer grown_Log_Append [OF i l] show ?case by auto
  next
    case (issued v ps input now kind r3 u)
    with longer grown_Issue [OF i] show ?case by auto
  next
    case (revoking v ps cid r4 u)
    with longer grown_Revoke [OF i] show ?case by auto
  next
    case (responded v ps kind query r5 u)
    with longer grown_OCSP [OF i] show ?case by auto
  next
    case (refused v ps err u)
    with kept [OF area(1)] w show ?case by auto
  next
    case (created v ps x u organization)
    with kept [OF area(1)] w show ?case by auto
  next
    case (completed v ps organization qs e' y u)
    with kept [OF area(2)] w show ?case by auto
  next
    case (broken v ps organization qs e' err u)
    with kept [OF area(2)] w show ?case by auto
  next
    case (removed v ps qs r6 u)
    with kept [OF area(3)] show ?case by auto
  }
qed simp

lemma serving_grown:
  assumes "serving srv cwd a b" and i: "installed (srv_Service srv) e l" and l: "l = log_file cwd (Some (srv_Auditor srv))"
    and a: "snd a = []" "stored_serial (svc_store (srv_Service srv)) (fst a) = Some n"
  shows "snd b = [] \<and> grown (srv_Service srv) l (fst a) (fst b)"
  using assms(1)
proof (induction rule: serving.induct)
  let ?s = "srv_Service srv"
  have more: "grown ?s l (fst a) u" if "grown ?s l (fst a) v" "grown ?s l v u" for v u
    using that grown_trans by blast
  have readable: "\<exists>k. stored_serial (svc_store ?s) v = Some k" if "grown ?s l (fst a) v" for v
    using that a(2) unfolding grown_def by blast
  {
    case started
    with a show ?case by (simp add: grown_files)
  next
    case (outside v ps u)
    with more grown_files show ?case by auto
  next
    case (readied v ps r1 u)
    with more grown_ready_id [OF i l] show ?case by auto
  next
    case (appended v ps now rec r2 u)
    with more grown_Log_Append [OF i l] show ?case by auto
  next
    case (issued v ps input now kind r3 u)
    with more grown_Issue [OF i] show ?case by auto
  next
    case (revoking v ps cid r4 u)
    with more grown_Revoke [OF i] show ?case by auto
  next
    case (responded v ps kind query r5 u)
    with more grown_OCSP [OF i] show ?case by auto
  next
    case (refused v ps err u)
    with more readable [of v] grown_refused(1) [OF i] show ?case by auto
  next
    case (created v ps x u organization)
    with readable [of v] grown_refused(2) [OF i] show ?case by auto
  }
qed auto

lemma resolve_below: "d \<noteq> [] \<Longrightarrow> resolve cwd (d @ ''/audit.jsonl'') = resolve cwd d @ [''audit.jsonl'']"
proof -
  assume d: "d \<noteq> []"
  have "split_on (CHR ''/'') (d @ ''/audit.jsonl'') = split_on (CHR ''/'') d @ [''audit.jsonl'']"
    using split_on_snoc [of "''audit.jsonl''" d] by simp
  moreover have "has_prefix (d @ ''/audit.jsonl'') ''/'' = has_prefix d ''/''" using d by (cases d) (auto simp: has_prefix_def)
  ultimately show ?thesis by (simp add: resolve_def join_path_def path_step_def)
qed

lemma main_installs:
  assumes "certarium_main exec environ cwd ver fl w = (Inr (Inr srv), w')"
    and "\<forall>e. svc_engine (srv_Service srv) = Some e \<longrightarrow> confined (runner e)"
  shows "\<exists>e. installed (srv_Service srv) e (log_file cwd (Some (srv_Auditor srv)))"
proof -
  from assms(1) obtain pass w1 where srv: "srv = wire exec environ cwd fl pass"
    and md: "make_data_dir cwd (fl_dataDir fl) w1 = (Inr (), w')"
    by (auto simp: certarium_main_def bindE_Inr split: if_splits)
  from md have "fl_dataDir fl \<noteq> []" by (auto simp: make_data_dir_def bindE_Inr)
  from resolve_below [OF this] assms(2) show ?thesis
    by (auto simp: srv wire_def Let_def installed_def wired_def NewPKIService_def NewEngineWithPassphrase_def
        log_file_def log_New_def)
qed

lemma request_serves:
  assumes "wired (srv_Service srv) e" and "\<forall>k v ps. serving srv cwd (v, ps) (mw k v, ps)"
    and "server_handler srv z pages ver cwd t now later mw r x w = (y, w')"
  shows "serving srv cwd (w, ps) (w', ps)"
  using steps.request_keeps [OF _ conjI [OF assms(1,2)] assms(3) [unfolded server_handler_def]]
  by (simp add: served_def)

text \<open>C7. The server forgets nothing: through any run of the steps of any requests, however they
  interleave and whatever fails, the audit log is only added to; and once the counter can be read and no
  initialisation is in flight, none can begin, the counter never goes back, and every certificate in the
  inventory stays there, unchanged but for being revoked, which is never undone.\<close>

theorem server_forgets_nothing:
  assumes "certarium_main exec environ cwd ver fl w0 = (Inr (Inr srv), w1)"
    and "\<forall>e. svc_engine (srv_Service srv) = Some e \<longrightarrow> confined (runner e)"
    and "serving srv cwd (w, ps) (w', ps')"
  shows "prefix (content (log_file cwd (Some (srv_Auditor srv))) w) (content (log_file cwd (Some (srv_Auditor srv))) w') \<and>
    (\<forall>n. ps = [] \<and> stored_serial (svc_store (srv_Service srv)) w = Some n \<longrightarrow>
       ps' = [] \<and>
       (\<exists>n'. n \<le> n' \<and> stored_serial (svc_store (srv_Service srv)) w' = Some n') \<and>
       (\<forall>cid c. inventory (srv_Service srv) w cid = Some c \<longrightarrow>
          inventory (srv_Service srv) w' cid = Some c \<or> inventory (srv_Service srv) w' cid = Some (revoked c)))"
proof -
  from main_installs [OF assms(1,2)] obtain e where i: "installed (srv_Service srv) e (log_file cwd (Some (srv_Auditor srv)))" ..
  from serving_log [OF assms(3) i refl] serving_grown [OF assms(3) i refl] show ?thesis unfolding grown_def by auto
qed

text \<open>C8. A request does nothing else: whatever is asked for, on whatever path, of whatever body, answering
  it, from the auditor's test to the auditor's record, is a run of the steps of the server, one of which
  is taken for each call under a mutex, and an initialisation it begins is over when it is answered. What
  other requests do between its steps of an initialisation may itself be any run of steps.\<close>

theorem requests_are_steps:
  assumes "wired (srv_Service srv) e" and "\<forall>k v ps. serving srv cwd (v, ps) (mw k v, ps)"
    and "server_handler srv z pages ver cwd t now later mw r x w = (y, w')"
  shows "serving srv cwd (w, ps) (w', ps)"
  by (rule request_serves [OF assms])

definition history_flags :: serve_flags where
  "history_flags = (cli_flags ''127.0.0.1:8080'')\<lparr>fl_dataDir := ''/data''\<rparr>"

definition history_server :: server where
  "history_server = wire demo_exec [] [''home''] history_flags ''secret''"

definition history_world :: world where
  "history_world = snd (server_handler history_server \<lparr>zip_entry = (\<lambda>es. None), zip_close = (\<lambda>es. Inr [])\<rparr> (''home'', ''js'')
     ''dev'' [''home''] 4 5 6 (\<lambda>k w. w) demo_init fresh_response demo_world)"

lemma demo_exec_confined: "confined (CommandRunner_Run demo_exec environ c)"
  by (auto simp: confined_def CommandRunner_Run_def demo_exec_def Let_def split: option.splits)

theorem server_forgets_nothing_witness:
  "\<exists>n. 7 \<le> n \<and> stored_serial demo_store history_world = Some n"
proof -
  have s: "svc_store (srv_Service history_server) = demo_store" by code_simp
  have "(case fst (certarium_main demo_exec [] [''home''] ''dev'' history_flags cli_world) of
      Inr (Inr srv) \<Rightarrow> True | _ \<Rightarrow> False)" by code_simp
  then obtain srv where m: "fst (certarium_main demo_exec [] [''home''] ''dev'' history_flags cli_world) = Inr (Inr srv)"
    by (auto split: sum.splits)
  then have "\<exists>pass. srv = wire demo_exec [] [''home''] history_flags pass \<and>
      LoadPassphraseFile [''home''] (fl_passphraseFile history_flags) cli_world \<in> {Inr pass} \<times> UNIV"
    by (cases "certarium_main demo_exec [] [''home''] ''dev'' history_flags cli_world")
      (auto simp: certarium_main_def bindE_Inr split: if_splits)
  moreover have "fst (LoadPassphraseFile [''home''] (fl_passphraseFile history_flags) cli_world) = Inr ''secret''" by code_simp
  ultimately have srv: "srv = history_server" by (auto simp: history_server_def)
  have run: "certarium_main demo_exec [] [''home''] ''dev'' history_flags cli_world =
      (Inr (Inr history_server), snd (certarium_main demo_exec [] [''home''] ''dev'' history_flags cli_world))"
    using m srv by (metis prod.collapse)
  have tool: "\<forall>e. svc_engine (srv_Service history_server) = Some e \<longrightarrow> confined (runner e)"
    by (simp add: history_server_def wire_def Let_def NewPKIService_def NewEngineWithPassphrase_def demo_exec_confined)
  have idle: "\<forall>k v ps. serving history_server [''home''] (v, ps) ((\<lambda>k w. w) (k::nat) v, ps)"
    by (simp add: serving.started)
  have "wired (srv_Service history_server) (the (svc_engine (srv_Service history_server)))"
    using tool by (simp add: history_server_def wire_def Let_def NewPKIService_def NewEngineWithPassphrase_def wired_def)
  note step = request_serves [OF this idle prod.collapse [symmetric]]
  have "stored_serial demo_store demo_world = Some 7" by code_simp
  with server_forgets_nothing [OF run tool step] s show ?thesis
    unfolding history_world_def by metis
qed

theorem requests_are_steps_witness: "serving history_server [''home''] (demo_world, []) (history_world, [])"
proof -
  have "wired (srv_Service history_server) (the (svc_engine (srv_Service history_server)))"
    by (simp add: history_server_def wire_def Let_def NewPKIService_def NewEngineWithPassphrase_def wired_def
        demo_exec_confined)
  moreover have "\<forall>k v ps. serving history_server [''home''] (v, ps) ((\<lambda>k w. w) (k::nat) v, ps)"
    by (simp add: serving.started)
  ultimately show ?thesis
    unfolding history_world_def by (rule requests_are_steps [OF _ _ prod.collapse [symmetric]])
qed

end
