(* ===== verification/Web_Claims.thy ===== *)
theory Web_Claims
  imports Web_Listing Web_Decoded
begin

text \<open>
  The properties of the service, and the service at which they are applied: an engine with the
  stand-in tool over a data directory that holds one issued bundle.
\<close>

section \<open>A concrete service\<close>

fun succeeds :: "'a + 'b \<Rightarrow> bool" where
  "succeeds (Inl a) = False"
| "succeeds (Inr b) = True"

definition demo_service :: PKIService where
  "demo_service = NewPKIService [''data''] (Some demo_store) (Some (demo_engine []))"

lemma wired_demo: "wired demo_service (demo_engine [])"
  using confined_demo_engine
  by (simp add: wired_def demo_service_def NewPKIService_def demo_engine_def NewEngine_def demo_store_def)

definition demo_input :: IssueRequest where
  "demo_input = \<lparr>rq_Name = ''web-2'', rq_CommonName = ''web.example'', rq_DNSNames = [''web.example''],
     rq_IPAddresses = [''192.0.2.20''], rq_ValidDays = 30, rq_ConfirmServerKeyGeneration = True\<rparr>"

definition demo_manifest :: bundleManifest where
  "demo_manifest =
     \<lparr>mf_Record = \<lparr>rec_ID = ''web-1'', rec_Kind = ''rsa'', rec_State = ''valid'', rec_Serials = [6], rec_Purpose = [],
        rec_CommonName = ''web.example'', rec_DNSNames = [], rec_IPAddresses = [], rec_ValidDays = 30,
        rec_IssuedAt = [], rec_ExpiresAt = []\<rparr>,
      mf_Files = Some [''server-rsa.crt'', ''server-rsa.key'']\<rparr>"

definition issued_world :: world where
  "issued_world = demo_world\<lparr>files := files demo_world @
     [([''data'', ''pki'', ''ca''], Directory mode_0700), ([''data'', ''pki'', ''ca'', ''rsa''], Directory mode_0700),
      ([''data'', ''pki'', ''ca'', ''rsa'', ''index.txt''], Regular mode_0600 []),
      ([''data'', ''pki'', ''issued''], Directory mode_0700),
      ([''data'', ''pki'', ''issued'', ''web-1''], Directory mode_0700),
      ([''data'', ''pki'', ''issued'', ''web-1'', ''server-rsa.crt''], Regular mode_0644 ''CERT''),
      ([''data'', ''pki'', ''issued'', ''web-1'', ''server-rsa.key''], Regular mode_0600 ''KEY''),
      ([''data'', ''pki'', ''issued'', ''web-1'', ''manifest.json''], Regular mode_0600 (manifest_bytes demo_manifest))]\<rparr>"

lemma storable_demo: "storable_bundle demo_manifest"
proof -
  have "list_all utf8_valid [''web-1'', ''rsa'', ''valid'', ''web.example'', ''server-rsa.crt'', ''server-rsa.key'', []]"
    by code_simp
  then show ?thesis
    by (simp add: storable_bundle_def storable_record_def demo_manifest_def files_of_def del: utf8_valid.simps)
qed

lemma issued_manifest: "manifest_of demo_service ''web-1'' issued_world = Some demo_manifest"
proof -
  have "at issued_world [''data'', ''pki'', ''issued'', ''web-1'', ''manifest.json''] =
      Some (Regular mode_0600 (manifest_bytes demo_manifest))"
    by (simp add: issued_world_def demo_world_def lookup_def)
  then show ?thesis
    by (simp add: stored_manifest_def issued_root_def demo_service_def NewPKIService_def manifestName_def
      decode_manifest_bytes [OF storable_demo])
qed

section \<open>Revocation reaches the published list\<close>

lemma inventory_entry_steady:
  assumes "faults w = []"
  shows "\<exists>x. inventory_entry issued kind rid entry w = (Inr x, w)"
proof -
  obtain r where "readManifest (issued @ [fst entry, manifestName]) w = (r, w)"
    using readManifest_steady [OF assms] by blast
  then show ?thesis
    by (cases r) (auto simp: inventory_entry_def Let_def bindE_def tryE_def returnE_def)
qed

definition bundle_certs :: "PKIService \<Rightarrow> bundleManifest \<Rightarrow> path list" where
  "bundle_certs s m =
     map (\<lambda>name. issued_root s @ [rec_ID (mf_Record m), name])
       (filter (\<lambda>name. file_ext name = ''.crt'' \<and> safeRouteSegment name) (files_of m))"

lemma inventory_entry_found:
  assumes rd: "readManifest (issued_root s @ [cid, manifestName]) w = (Inr m, v)" and plain: "plain_segment cid"
    and m: "rec_ID (mf_Record m) = cid" and nd: "\<not> has_prefix cid ''.''"
  shows "inventory_entry (issued_root s) (rec_Kind (mf_Record m)) cid (cid, Directory mo) w = (Inr ([], bundle_certs s m), v)"
proof -
  have "map (join_path (issued_root s @ [cid])) (filter (\<lambda>name. file_ext name = ''.crt'' \<and> safeRouteSegment name) (files_of m))
      = bundle_certs s m"
    unfolding bundle_certs_def m by (rule map_cong) (auto dest: safe_segment_plain)
  then show ?thesis
    using rd nd plain by (simp add: inventory_entry_def Let_def bindE_def tryE_def returnE_def m)
qed

lemma refresh_revokes:
  assumes f: "faults w = []" and rd: "readManifest (issued_root s @ [cid, manifestName]) w = (Inr m, w)"
    and m: "rec_ID (mf_Record m) = cid" "plain_segment cid" "\<not> has_prefix cid ''.''"
    and d: "dir_at (files w) (issued_root s @ [cid])"
    and run: "refreshIssuer s e (rec_Kind (mf_Record m)) cid w = (Inr u, w')"
  shows "\<exists>ca valid revd. PublishCRL e ca valid revd w = (Inr (), w') \<and> set (bundle_certs s m) \<subseteq> set revd"
  using run
proof (cases rule: refresh_parts)
  case (run ca entries found v x)
  from run(2) f have v: "v = w" by (auto simp: os_read_dir_def syscall_def split: sum.splits node.splits)
  obtain mo where "lookup (files w) (issued_root s @ [cid]) = Some (Directory mo)" using d by (auto simp: dir_at_iff)
  then have "(cid, Directory mo) \<in> set entries"
    unfolding os_read_dir_Inr(1) [OF run(2)] set_children by (auto simp: lookup_def dest: map_of_SomeD)
  let ?g = "\<lambda>x. projr (fst (inventory_entry (issued_root s) (rec_Kind (mf_Record m)) cid x w))"
  have "mapE (inventory_entry (issued_root s) (rec_Kind (mf_Record m)) cid) entries w = (Inr (map ?g entries), w)"
    by (rule mapE_steady) (use inventory_entry_steady [OF f] in \<open>metis fst_conv sum.sel(2)\<close>)
  with run(3) v have found: "found = map ?g entries"
    and p: "PublishCRL e ca (concat (map fst found)) (concat (map snd found)) w = (x, w')" by auto
  have "?g (cid, Directory mo) = ([], bundle_certs s m)"
    using inventory_entry_found [OF rd m(2,1,3)] by simp
  then have "([], bundle_certs s m) \<in> set found"
    using \<open>(cid, Directory mo) \<in> set entries\<close> unfolding found by (metis (no_types, lifting) image_eqI list.set_map)
  then have "set (bundle_certs s m) \<subseteq> set (concat (map snd found))" by force
  moreover have "x = Inr ()" using run(4) by (cases x) auto
  ultimately show ?thesis using p by blast
qed simp

lemma Revoke_publishes:
  assumes w: "wired s e" and run: "svc_Revoke s cid w = (Inr c, w')" and f: "faults w = []"
    and m: "manifest_of s cid w = Some m" "rec_State (mf_Record m) \<noteq> ''revoked''" and nd: "\<not> has_prefix cid ''.''"
  shows "\<exists>ca valid revd v. PublishCRL e ca valid revd w = (Inr (), v) \<and> set (bundle_certs s m) \<subseteq> set revd \<and>
    (\<exists>r. writeManifest (issued_root s @ [cid, manifestName]) (m\<lparr>mf_Record := revoked (mf_Record m)\<rparr>) v = (r, w'))"
proof -
  have e: "svc_engine s = Some e" using w by (simp add: wired_def)
  from e run show ?thesis
  proof (cases rule: Revoke_steps)
    case (goes m' v r1 w1)
    with m have m': "m' = m" by simp
    obtain r where "readManifest (issued_root s @ [cid, manifestName]) w = (r, w)"
      using readManifest_steady [OF f] by blast
    with goes(2) have v: "v = w" by simp
    note go = goes [unfolded m' v]
    obtain r2 where r1: "r1 = Inr ()"
      and "writeManifest (issued_root s @ [cid, manifestName]) (m\<lparr>mf_Record := revoked (mf_Record m)\<rparr>) w1 = (r2, w')"
      using go(9) by blast
    with refresh_revokes [OF f go(2,4,1) nd go(6) go(8) [unfolded r1]] show ?thesis by blast
  qed (use m in auto)
qed


section \<open>Properties\<close>

text \<open>C11. Issuing refines the inventory: whatever happens, no other record changes; a success adds
  exactly the returned record under the requested name, which was free, and the record holds what was
  asked for; the manifest names the files of the kind.\<close>

theorem issuing_adds_one_record:
  assumes "wired s e" and "svc_Issue s now kind input w = (r, w')" and "storable_request input"
  shows "(\<forall>cid. cid \<noteq> rq_Name input \<longrightarrow> inventory s w' cid = inventory s w cid) \<and>
    (\<forall>c. r = Inr c \<longrightarrow> inventory s w (rq_Name input) = None \<and>
       inventory s w' = (inventory s w)(rq_Name input \<mapsto> c) \<and>
       (kind = ''rsa'' \<or> kind = ''tlcp'') \<and> (\<exists>serials purpose. c = issued_record kind input now serials purpose) \<and>
       manifest_of s (rq_Name input) w' = Some \<lparr>mf_Record = c, mf_Files = Some (bundle_names kind)\<rparr>)"
  by (rule Issue_refines [OF assms])

lemma storable_demo_input: "storable_request demo_input"
proof -
  have "list_all utf8_valid [''web.example'', ''192.0.2.20'']" by code_simp
  then show ?thesis by (simp add: storable_request_def demo_input_def del: utf8_valid.simps)
qed

lemma demo_issue: "succeeds (fst (svc_Issue demo_service 0 ''rsa'' demo_input issued_world))"
  by code_simp

theorem issuing_adds_one_record_witness:
  "\<exists>c. inventory demo_service (snd (svc_Issue demo_service 0 ''rsa'' demo_input issued_world)) ''web-2'' = Some c \<and>
    inventory demo_service (snd (svc_Issue demo_service 0 ''rsa'' demo_input issued_world)) ''web-1'' =
      inventory demo_service issued_world ''web-1''"
proof -
  have n: "rq_Name demo_input = ''web-2''" by (simp add: demo_input_def)
  obtain c where "fst (svc_Issue demo_service 0 ''rsa'' demo_input issued_world) = Inr c"
    using demo_issue by (cases "fst (svc_Issue demo_service 0 ''rsa'' demo_input issued_world)") auto
  with issuing_adds_one_record [OF wired_demo prod.collapse [symmetric] storable_demo_input, of 0 "''rsa''" issued_world]
  show ?thesis unfolding n by auto
qed

text \<open>C12. Revoking refines the inventory: on an error it is unchanged, or the record is revoked
  already; a success changes the state of the one record and returns it.\<close>

theorem revoking_marks_one_record:
  assumes "wired s e" and "svc_Revoke s cid w = (r, w')" and "\<not> has_prefix cid ''.''"
  shows "(\<exists>err. r = Inl err) \<and> inventory s w' = inventory s w \<or>
    (\<exists>c. inventory s w cid = Some c \<and> inventory s w' = (inventory s w)(cid \<mapsto> revoked c) \<and>
      (\<forall>x. r = Inr x \<longrightarrow> x = revoked c))"
  by (rule Revoke_refines [OF assms]) (rule manifest_storable)

lemma demo_revoke: "succeeds (fst (svc_Revoke demo_service ''web-1'' issued_world))"
  by code_simp

theorem revoking_marks_one_record_witness:
  "\<exists>c. inventory demo_service (snd (svc_Revoke demo_service ''web-1'' issued_world)) ''web-1'' = Some c \<and>
    rec_State c = ''revoked''"
proof -
  obtain c where c: "fst (svc_Revoke demo_service ''web-1'' issued_world) = Inr c"
    using demo_revoke by (cases "fst (svc_Revoke demo_service ''web-1'' issued_world)") auto
  have nd: "\<not> has_prefix ''web-1'' ''.''" by (simp add: has_prefix_def)
  from revoking_marks_one_record [OF wired_demo prod.collapse [symmetric] nd, of issued_world] c
  show ?thesis by (auto simp: revoked_def)
qed

text \<open>C13. On a file system that answers (no call fails), a revocation that is reported of a bundle
  that was not revoked reaches the published list: the list is the file that one run of the commands
  of the tool left, in which every certificate of the bundle was revoked, without an error, before
  the list was generated and verified; and only then is the bundle marked as revoked, without
  touching the list again.\<close>

theorem revocation_reaches_the_list:
  assumes "wired s e" and "svc_Revoke s cid w = (Inr c, w')" and "faults w = []" and "\<not> has_prefix cid ''.''"
    and "manifest_of s cid w = Some m" and "rec_State (mf_Record m) \<noteq> ''revoked''"
  shows "\<exists>ca valid certs v. (ca = ''rsa'' \<or> ca = ''sm2'') \<and> crl_replaced e ca valid certs w v \<and>
    (\<forall>name \<in> set (files_of m). file_ext name = ''.crt'' \<and> safeRouteSegment name \<longrightarrow>
       issued_root s @ [rec_ID (mf_Record m), name] \<in> set certs) \<and>
    at w' (crl_path e ca) = at v (crl_path e ca)"
proof -
  from Revoke_publishes [OF assms(1,2,3,5,6,4)] obtain ca valid certs v r where
    p: "PublishCRL e ca valid certs w = (Inr (), v)" and certs: "set (bundle_certs s m) \<subseteq> set certs"
    and wm: "writeManifest (issued_root s @ [cid, manifestName]) (m\<lparr>mf_Record := revoked (mf_Record m)\<rparr>) v = (r, w')"
    by blast
  have "confined (runner e)" using assms(1) by (simp add: wired_def)
  from PublishCRL_outcome [OF this p] have "crl_replaced e ca valid certs w v" "crl_kind ca" by auto
  moreover have "issued_root s @ [rec_ID (mf_Record m), name] \<in> set certs"
    if "name \<in> set (files_of m)" "file_ext name = ''.crt''" "safeRouteSegment name" for name
    using certs that by (auto simp: bundle_certs_def)
  moreover have "at w' (crl_path e ca) = at v (crl_path e ca)"
  proof -
    let ?p = "issued_root s @ [cid, manifestName]"
    have ch: "changes (scratch (butlast ?p) ''.manifest-'' ''.tmp'' \<union> below ?p)
        (writeManifest ?p (m\<lparr>mf_Record := revoked (mf_Record m)\<rparr>))" by (intro footprint) auto
    show ?thesis
      by (rule changesD [OF ch wm])
        (auto simp: crl_path_def wired_dirs [OF assms(1)] issued_dir_def pki_dir_def scratch_def temp_name_def
          butlast_append prefix_def)
  qed
  ultimately show ?thesis unfolding crl_kind_def by blast
qed

theorem revocation_reaches_the_list_witness:
  "\<exists>ca valid certs v. crl_replaced (demo_engine []) ca valid certs issued_world v \<and>
    [''data'', ''pki'', ''issued'', ''web-1'', ''server-rsa.crt''] \<in> set certs"
proof -
  obtain c where "fst (svc_Revoke demo_service ''web-1'' issued_world) = Inr c"
    using demo_revoke by (cases "fst (svc_Revoke demo_service ''web-1'' issued_world)") auto
  then have run: "svc_Revoke demo_service ''web-1'' issued_world =
      (Inr c, snd (svc_Revoke demo_service ''web-1'' issued_world))" by (metis prod.collapse)
  have "file_ext ''server-rsa.crt'' = ''.crt''" "safeRouteSegment ''server-rsa.crt''" by code_simp+
  moreover have "''server-rsa.crt'' \<in> set (files_of demo_manifest)" "rec_ID (mf_Record demo_manifest) = ''web-1''"
    "rec_State (mf_Record demo_manifest) \<noteq> ''revoked''"
    by (simp_all add: demo_manifest_def files_of_def)
  moreover have "faults issued_world = []" by (simp add: issued_world_def demo_world_def)
  moreover have "issued_root demo_service @ [''web-1'', ''server-rsa.crt''] =
      [''data'', ''pki'', ''issued'', ''web-1'', ''server-rsa.crt'']"
    by (simp add: issued_root_def demo_service_def NewPKIService_def)
  ultimately show ?thesis
    using revocation_reaches_the_list [OF wired_demo run _ _ issued_manifest] by (fastforce simp: has_prefix_def)
qed

text \<open>C14. The list is the inventory: on a file system where no call fails, every node lies in a
  directory, and nothing but directories is on the way to the issued bundles, listing succeeds, changes
  nothing, and gives the record of every bundle in the inventory, once, sorted by identifier.\<close>

theorem listing_is_the_inventory:
  assumes "faults w = []" and "closed_tree (files w)"
    and "\<forall>q n. prefix q (issued_root s) \<and> at w q = Some n \<longrightarrow> is_directory n"
  shows "\<exists>cs. svc_List s w = (Inr cs, w) \<and> sorted (map rec_ID cs) \<and> distinct (map rec_ID cs) \<and>
    (\<forall>c. c \<in> set cs \<longleftrightarrow> inventory s w (rec_ID c) = Some c)"
  by (rule List_steady [OF assms(1,2)]) (use assms(3) in blast)

theorem listing_is_the_inventory_witness:
  "\<exists>cs. svc_List demo_service issued_world = (Inr cs, issued_world) \<and> mf_Record demo_manifest \<in> set cs"
proof -
  have f: "faults issued_world = []" by (simp add: issued_world_def demo_world_def)
  have c: "closed_tree (files issued_world)"
    by (simp add: closed_tree_def wf_tree_def issued_world_def demo_world_def plain_segment_def dir_at_def lookup_def)
  have r: "issued_root demo_service = [''data'', ''pki'', ''issued'']"
    by (simp add: issued_root_def demo_service_def NewPKIService_def)
  have d: "\<forall>q n. prefix q (issued_root demo_service) \<and> at issued_world q = Some n \<longrightarrow> is_directory n"
    unfolding r by (auto simp: prefix_Cons issued_world_def demo_world_def lookup_def)
  from listing_is_the_inventory [OF f c d] obtain cs where
    "svc_List demo_service issued_world = (Inr cs, issued_world)"
    "\<forall>c. c \<in> set cs \<longleftrightarrow> inventory demo_service issued_world (rec_ID c) = Some c" by blast
  moreover have "inventory demo_service issued_world ''web-1'' = Some (mf_Record demo_manifest)"
    using issued_manifest
    by (simp add: inventory_def has_prefix_def r dir_at_def issued_world_def demo_world_def lookup_def demo_manifest_def)
  moreover have "rec_ID (mf_Record demo_manifest) = ''web-1''" by (simp add: demo_manifest_def)
  ultimately show ?thesis by metis
qed

text \<open>C15. A download is a regular file of the bundle asked for, listed in its manifest and named
  by two plain path segments, never the manifest itself; exactly the keys are marked private.\<close>

theorem downloads_come_from_the_bundle:
  assumes "svc_Download s cid name w = (Inr d, w')"
  shows "(\<exists>m md. manifest_of s cid w = Some m \<and> rec_ID (mf_Record m) = cid \<and> name \<in> set (files_of m) \<and>
      at w (issued_root s @ [cid, name]) = Some (Regular md (dl_Data d))) \<and>
    plain_segment cid \<and> plain_segment name \<and> name \<noteq> manifestName \<and>
    dl_Name d = name \<and> (dl_Private d \<longleftrightarrow> file_ext name = ''.key'') \<and>
    dl_ContentType d = (if dl_Private d then ''application/octet-stream'' else ''application/x-pem-file'') \<and>
    files w' = files w"
  using Download_Inr [OF assms] reads_onlyD [OF reads_service(3) assms] by blast

theorem downloads_come_from_the_bundle_witness:
  "\<exists>d. fst (svc_Download demo_service ''web-1'' ''server-rsa.key'' issued_world) = Inr d \<and> dl_Private d"
proof -
  have "succeeds (fst (svc_Download demo_service ''web-1'' ''server-rsa.key'' issued_world))" by code_simp
  then obtain d where d: "fst (svc_Download demo_service ''web-1'' ''server-rsa.key'' issued_world) = Inr d"
    by (cases "fst (svc_Download demo_service ''web-1'' ''server-rsa.key'' issued_world)") auto
  then have "svc_Download demo_service ''web-1'' ''server-rsa.key'' issued_world =
      (Inr d, snd (svc_Download demo_service ''web-1'' ''server-rsa.key'' issued_world))" by (metis prod.collapse)
  from downloads_come_from_the_bundle [OF this] have "dl_Private d \<longleftrightarrow> file_ext ''server-rsa.key'' = ''.key''" by blast
  moreover have "file_ext ''server-rsa.key'' = ''.key''" by code_simp
  ultimately show ?thesis using d by blast
qed

end
