(* ===== verification/Web_Told.thy ===== *)
theory Web_Told
  imports Web_History Web_Claims
begin

text \<open>
  What the client is told is true: an answer that reports a certificate as issued or revoked is given
  only when the inventory and the audit log say so.
\<close>

section \<open>Answers that are passed on\<close>

lemma replay_fresh:
  assumes "resp_Status c \<noteq> 0"
  shows "resp_Status (replay rid c fresh_response) = resp_Status c"
    and "resp_Body (replay rid c fresh_response) = resp_Body c"
  using assms by (simp_all add: replay_def Write_def WriteHeader_def set_header_def fresh_response_def Let_def)

lemma error_not_success:
  assumes "resp_Status x = 0"
  shows "400 \<le> resp_Status (writeServiceError e x)"
  using assms by (simp add: writeServiceError_def status_error)

lemma status_writeJSON:
  assumes "resp_Status x = 0" and "st \<noteq> 0"
  shows "resp_Status (writeJSON st v x) = st" and "resp_Body x = [] \<Longrightarrow> resp_Body (writeJSON st v x) = json_marshal v @ [CHR 0x0A]"
  using assms by (simp_all add: writeJSON_def Write_def WriteHeader_def set_header_def Let_def)

lemma h_issue_success:
  assumes "h_issue h kind r x w = (y, w')" and "resp_Status x = 0" and "resp_Body x = []" and "resp_Status y < 400"
  obtains input c where "decodeMutation (decode_struct set_request_field empty_request) r = Some input"
    and "rq_ConfirmServerKeyGeneration input" and "sv_Issue (service h) kind input w = (Inr c, w')"
    and "resp_Status y = 201" and "resp_Body y = json_marshal (encode_record_json c) @ [CHR 0x0A]"
    and "kind = ''rsa'' \<or> kind = ''tlcp''"
proof -
  have bad: "\<not> resp_Status (writeAPIError st code m x) < 400" if "400 \<le> st" for st code m
    using that status_error [OF assms(2), of st code m] by simp
  from assms(1,4) bad [of 404] bad [of 400] obtain input where k: "kind = ''rsa'' \<or> kind = ''tlcp''" and
    d: "decodeMutation (decode_struct set_request_field empty_request) r = Some input" "rq_ConfirmServerKeyGeneration input"
    and a: "answer writeServiceError (\<lambda>c. writeJSON 201 (encode_record_json c)) (sv_Issue (service h) kind input) x w = (y, w')"
    by (auto simp: h_issue_def split: if_splits option.splits)
  obtain r1 w1 where s: "sv_Issue (service h) kind input w = (r1, w1)" by force
  show thesis
  proof (cases r1)
    case (Inl e)
    with a s error_not_success [OF assms(2), of e] assms(4) show thesis by (auto simp: answer_def)
  next
    case (Inr c)
    with a s have "y = writeJSON 201 (encode_record_json c) x" "w' = w1" by (auto simp: answer_def)
    with d k s Inr status_writeJSON [OF assms(2)] assms(3) show thesis by (intro that [of input c]) auto
  qed
qed

lemma h_revoke_success:
  assumes "h_revoke h cid r x w = (y, w')" and "resp_Status x = 0" and "resp_Body x = []" and "resp_Status y < 400"
  obtains c where "sv_Revoke (service h) cid w = (Inr c, w')"
    and "resp_Status y = 200" and "resp_Body y = json_marshal (encode_record_json c) @ [CHR 0x0A]"
proof -
  have bad: "\<not> resp_Status (writeAPIError st code m x) < 400" if "400 \<le> st" for st code m
    using that status_error [OF assms(2), of st code m] by simp
  from assms(1,4) bad [of 400] have
    a: "answer writeServiceError (\<lambda>c. writeJSON 200 (encode_record_json c)) (sv_Revoke (service h) cid) x w = (y, w')"
    by (auto simp: h_revoke_def split: option.splits)
  obtain r1 w1 where s: "sv_Revoke (service h) cid w = (r1, w1)" by force
  show thesis
  proof (cases r1)
    case (Inl e)
    with a s error_not_success [OF assms(2), of e] assms(4) show thesis by (auto simp: answer_def)
  next
    case (Inr c)
    with a s have "y = writeJSON 200 (encode_record_json c) x" "w' = w1" by (auto simp: answer_def)
    with s Inr status_writeJSON [OF assms(2)] assms(3) show thesis by (intro that [of c]) auto
  qed
qed

section \<open>Through the auditor\<close>

lemma securityHeaders_same:
  "\<exists>x'. securityHeaders next r x w = next r x' w \<and> resp_Status x' = resp_Status x \<and> resp_Body x' = resp_Body x"
  unfolding securityHeaders_def by (intro exI conjI, rule refl) (simp_all add: set_header_def)

text \<open>A recorded request with an answer that is no failure: the endpoint gave it, on the files but for the
  log, and the log ends with the record of its success.\<close>

lemma audited_success:
  assumes i: "installed s e l" and l: "l = log_file cwd (Some log)"
    and run: "New h cwd (Some log) now later r fresh_response w = (y, w')"
    and t: "auditTarget r = Some (action, resource)" and ok: "resp_Status y < 400"
  obtains c rid w1 w2 x d where "inventory s w1 = inventory s w" and "inventory s w' = inventory s w2"
    and "resp_Status x = 0" and "resp_Body x = []" and "ServeHTTP h now r x w1 = (c, w2)"
    and "resp_Status c < 400" and "resp_Status c \<noteq> 0 \<Longrightarrow> resp_Status y = resp_Status c \<and> resp_Body y = resp_Body c"
    and "at w' l = Some (Regular mode_0600 (d @ audit_line \<lparr>Time = later, RequestID = rid, RemoteAddr = r_RemoteAddr r,
      Action = action, Resource = resource, Outcome = ''success'', ErrorCode = []\<rparr> @ [CHR 0x0A]))"
proof -
  have fail: "\<not> resp_Status (audit_failure fresh_response) < 400"
    by (simp add: audit_failure_def status_error fresh_response_def)
  have "auditRequests (securityHeaders (ServeHTTP h now)) cwd (Some log) later r fresh_response w = (y, w')"
    using run by (simp add: New_def)
  from this t show thesis
  proof (cases rule: auditRequests_cases)
    case refused
    with fail ok show thesis by simp
  next
    case (ran rid c w1 w2)
    let ?c = "WriteHeader 200 c"
    let ?rec = "audit_entry later rid r action resource ?c"
    from ran(4) fail ok have la: "Log_Append cwd later (Some log) ?rec w2 = (Inr (), w')"
      and y: "y = replay rid ?c fresh_response" by auto
    have c0: "resp_Status ?c \<noteq> 0" by (simp add: WriteHeader_def)
    note rp = replay_fresh [OF c0, of rid, folded y]
    have good: "resp_Status c < 400" "resp_Status ?c < 400" using rp(1) ok by (auto simp: WriteHeader_def split: if_splits)
    have "marshal_record (stamp later ?rec) = Inr line \<Longrightarrow> line = audit_line ?rec" for line
      by (simp add: stamp_entry marshal_record_Inr)
    with Log_Append_Inr(1) [OF la] have
      "at w' l = Some (Regular mode_0600 (content l w2 @ audit_line ?rec @ [CHR 0x0A]))" by (auto simp: l)
    moreover have "?rec = \<lparr>Time = later, RequestID = rid, RemoteAddr = r_RemoteAddr r,
      Action = action, Resource = resource, Outcome = ''success'', ErrorCode = []\<rparr>"
      using good(2) by (simp add: audit_entry_def)
    ultimately have line: "at w' l = Some (Regular mode_0600 (content l w2 @ audit_line \<lparr>Time = later, RequestID = rid,
      RemoteAddr = r_RemoteAddr r, Action = action, Resource = resource, Outcome = ''success'', ErrorCode = []\<rparr> @ [CHR 0x0A]))"
      by simp
    have i1: "inventory s w1 = inventory s w" by (rule log_keeps_inventory [OF i]) (use ran(2) l in auto)
    have i2: "inventory s w' = inventory s w2"
      by (rule log_keeps_inventory [OF i]) (use changesD [OF changes_Log_Append la] l in auto)
    obtain x where x: "resp_Status x = 0" "resp_Body x = []" "ServeHTTP h now r x w1 = (c, w2)"
      using ran(3) securityHeaders_same [of "ServeHTTP h now" r fresh_response w1] by (auto simp: fresh_response_def)
    have same: "resp_Status y = resp_Status c \<and> resp_Body y = resp_Body c" if "resp_Status c \<noteq> 0"
      using rp that by (simp add: WriteHeader_def)
    show thesis by (rule that [OF i1 i2 x good(1) same line])
  qed
qed

section \<open>Properties\<close>

text \<open>A routed request with an answer that is no failure has been recorded.\<close>

lemma routed_success:
  assumes h: "findHandler routes (r_Method r) (r_EscapedPath r) = Handler e vs" and u: "url_unescape (r_EscapedPath r) \<noteq> None"
    and run: "New h cwd (Some log) now later r fresh_response w = (y, w')" and ok: "resp_Status y < 400"
    and plain: "\<And>x c v v'. resp_Status x = 0 \<Longrightarrow> resp_Body x = [] \<Longrightarrow> run_endpoint h now e vs r x v = (c, v') \<Longrightarrow>
      resp_Status c < 400 \<Longrightarrow> plain_segment (hd vs)"
    and e: "e = H_issue \<or> e = H_revoke" and i: "installed s en l" and l: "l = log_file cwd (Some log)"
  shows "auditTarget r = Some (if e = H_issue then ''issue'' else ''revoke'', hd vs)"
proof -
  have p: "plain_segment (hd vs)"
  proof (cases "auditTarget r")
    case None
    with run have "securityHeaders (ServeHTTP h now) r fresh_response w = (y, w')" by (simp add: New_def auditRequests_def)
    then obtain x where "resp_Status x = 0" "resp_Body x = []" "ServeHTTP h now r x w = (y, w')"
      using securityHeaders_same [of "ServeHTTP h now" r fresh_response w] by (auto simp: fresh_response_def)
    with h plain ok show ?thesis by (simp add: ServeHTTP_def)
  next
    case (Some t)
    then obtain a b where "auditTarget r = Some (a, b)" by (cases t) simp
    from audited_success [OF i l run this ok] obtain c x w1 w2
      where "resp_Status x = 0" "resp_Body x = []" "ServeHTTP h now r x w1 = (c, w2)" "resp_Status c < 400" by metis
    with h plain show ?thesis by (simp add: ServeHTTP_def)
  qed
  from audited(2,3) [OF h u] e p show ?thesis by auto
qed

text \<open>C9. A certificate the client is told was created is on record: when the endpoint of issuing gives
  no failure, the answer is 201 with a record that is new in the inventory and all that has changed there,
  and the audit log ends with the line of its success.\<close>

theorem created_certificates_are_recorded:
  assumes "installed (srv_Service srv) e (log_file cwd (Some (srv_Auditor srv)))"
    and "findHandler routes (r_Method r) (r_EscapedPath r) = Handler H_issue [kind]" and "url_unescape (r_EscapedPath r) \<noteq> None"
    and "server_handler srv z pages ver cwd t now later mw r fresh_response w = (y, w')" and "resp_Status y < 400"
  shows "\<exists>c rid d. resp_Status y = 201 \<and> resp_Body y = json_marshal (encode_record_json c) @ [CHR 0x0A] \<and>
    rec_Kind c = kind \<and> rec_State c = ''valid'' \<and> inventory (srv_Service srv) w (rec_ID c) = None \<and>
    inventory (srv_Service srv) w' = (inventory (srv_Service srv) w)(rec_ID c \<mapsto> c) \<and>
    at w' (log_file cwd (Some (srv_Auditor srv))) = Some (Regular mode_0600 (d @ audit_line
      \<lparr>Time = later, RequestID = rid, RemoteAddr = r_RemoteAddr r, Action = ''issue'', Resource = kind,
       Outcome = ''success'', ErrorCode = []\<rparr> @ [CHR 0x0A]))"
proof -
  let ?s = "srv_Service srv"
  have w: "wired ?s e" using assms(1) by (simp add: installed_def)
  let ?h = "\<lparr>service = pki_ops z ?s t mw, version = ver, homePage = fst pages, applicationJS = snd pages\<rparr>"
  note run = assms(4) [unfolded server_handler_def]
  have "plain_segment (hd [kind])"
    if "resp_Status x = 0" "resp_Body x = []" "run_endpoint ?h now H_issue [kind] r x v = (c, v')" "resp_Status c < 400" for x c v v'
  proof -
    have "h_issue ?h kind r x v = (c, v')" using that(3) by simp
    from this that(1,2,4) show ?thesis by (rule h_issue_success) (auto simp: plain_segment_def)
  qed
  from routed_success [OF assms(2,3) run assms(5) this _ assms(1) refl]
  have t: "auditTarget r = Some (''issue'', kind)" by simp
  from assms(1) refl run t assms(5) show ?thesis
  proof (rule audited_success)
    fix c rid v v' x d
    assume inv: "inventory ?s v = inventory ?s w" "inventory ?s w' = inventory ?s v'"
      and x: "resp_Status x = 0" "resp_Body x = []" and serve: "ServeHTTP ?h now r x v = (c, v')" and ok: "resp_Status c < 400"
      and y: "resp_Status c \<noteq> 0 \<Longrightarrow> resp_Status y = resp_Status c \<and> resp_Body y = resp_Body c"
      and line: "at w' (log_file cwd (Some (srv_Auditor srv))) = Some (Regular mode_0600 (d @ audit_line
        \<lparr>Time = later, RequestID = rid, RemoteAddr = r_RemoteAddr r, Action = ''issue'', Resource = kind,
         Outcome = ''success'', ErrorCode = []\<rparr> @ [CHR 0x0A]))"
    have "h_issue ?h kind r x v = (c, v')" using serve assms(2) by (simp add: ServeHTTP_def)
    from this x ok show ?thesis
    proof (rule h_issue_success)
      fix input rec
      assume d: "decodeMutation (decode_struct set_request_field empty_request) r = Some input"
        and iss: "sv_Issue (service ?h) kind input v = (Inr rec, v')"
        and c: "resp_Status c = 201" "resp_Body c = json_marshal (encode_record_json rec) @ [CHR 0x0A]"
      from iss have iss: "svc_Issue ?s t kind input v = (Inr rec, v')" by (simp add: pki_ops_def)
      from Issue_refines [OF w this decoded_request_storable [OF d]] obtain serials purpose
        where "inventory ?s v (rq_Name input) = None" "inventory ?s v' = (inventory ?s v)(rq_Name input \<mapsto> rec)"
          and r: "rec = issued_record kind input t serials purpose" by auto
      moreover have "rec_ID rec = rq_Name input" "rec_Kind rec = kind" "rec_State rec = ''valid''"
        by (simp_all add: r issued_record_def)
      ultimately show ?thesis using y c inv line by (intro exI [of _ rec] exI [of _ rid] exI [of _ d]) simp
    qed
  qed
qed

definition demo_server :: server where
  "demo_server = \<lparr>srv_Addr = ''127.0.0.1:8080'', srv_Service = demo_service, srv_Auditor = log_New ''/data/audit.jsonl'',
     srv_ReadHeaderTimeout = 5 * second, srv_ReadTimeout = 15 * second, srv_WriteTimeout = 45 * second,
     srv_IdleTimeout = 60 * second\<rparr>"

definition demo_zip :: zipper where
  "demo_zip = \<lparr>zip_entry = (\<lambda>es. None), zip_close = (\<lambda>es. Inr [])\<rparr>"

definition demo_serve :: "string \<Rightarrow> string \<Rightarrow> Response \<times> world" where
  "demo_serve path body =
     server_handler demo_server demo_zip (''home'', ''js'') ''dev'' [] 4 5 6 (\<lambda>k w. w) (demo_post path [] body) fresh_response issued_world"

definition issue_body :: string where
  "issue_body = json_marshal (JObj [(''name'', JStr ''web-2''), (''common_name'', JStr ''web.example''),
     (''dns_names'', JArr [JStr ''web.example'']), (''valid_days'', JNum ''30''), (''confirm_server_key_generation'', JBool True)])"

lemma demo_server_installed: "installed demo_service (demo_engine []) [''data'', ''audit.jsonl'']"
  using wired_demo
  by (simp add: installed_def demo_service_def NewPKIService_def demo_engine_def NewEngine_def)

lemma demo_log_file: "log_file [] (Some (srv_Auditor demo_server)) = [''data'', ''audit.jsonl'']"
  by code_simp

lemma demo_answered_201: "resp_Status (fst (demo_serve ''/api/v1/certificates/rsa'' issue_body)) = 201"
  by code_simp

theorem created_certificates_are_recorded_witness:
  "\<exists>c. inventory demo_service (snd (demo_serve ''/api/v1/certificates/rsa'' issue_body)) =
     (inventory demo_service issued_world)(rec_ID c \<mapsto> c) \<and> rec_Kind c = ''rsa''"
proof -
  let ?r = "demo_post ''/api/v1/certificates/rsa'' [] issue_body"
  have f: "findHandler routes (r_Method ?r) (r_EscapedPath ?r) = Handler H_issue [''rsa'']" by code_simp
  have u: "url_unescape (r_EscapedPath ?r) \<noteq> None" by code_simp
  have s: "srv_Service demo_server = demo_service" by (simp add: demo_server_def)
  have i: "installed (srv_Service demo_server) (demo_engine []) (log_file [] (Some (srv_Auditor demo_server)))"
    unfolding s demo_log_file by (rule demo_server_installed)
  have ok: "resp_Status (fst (demo_serve ''/api/v1/certificates/rsa'' issue_body)) < 400" by (simp add: demo_answered_201)
  show ?thesis
    using created_certificates_are_recorded [OF i f u prod.collapse [symmetric] ok [unfolded demo_serve_def]]
    unfolding s demo_serve_def by blast
qed

text \<open>C10. A revocation the client is told of has happened: when the endpoint of revoking gives no
  failure, the answer is 200 with the revoked record, the inventory differs in this record only, and the
  audit log ends with the line of its success.\<close>

theorem reported_revocations_are_recorded:
  assumes "installed (srv_Service srv) e (log_file cwd (Some (srv_Auditor srv)))"
    and "findHandler routes (r_Method r) (r_EscapedPath r) = Handler H_revoke [cid]" and "url_unescape (r_EscapedPath r) \<noteq> None"
    and "\<not> has_prefix cid ''.''"
    and "server_handler srv z pages ver cwd t now later mw r fresh_response w = (y, w')" and "resp_Status y < 400"
  shows "\<exists>c rid d. resp_Status y = 200 \<and> resp_Body y = json_marshal (encode_record_json (revoked c)) @ [CHR 0x0A] \<and>
    inventory (srv_Service srv) w cid = Some c \<and>
    inventory (srv_Service srv) w' = (inventory (srv_Service srv) w)(cid \<mapsto> revoked c) \<and>
    at w' (log_file cwd (Some (srv_Auditor srv))) = Some (Regular mode_0600 (d @ audit_line
      \<lparr>Time = later, RequestID = rid, RemoteAddr = r_RemoteAddr r, Action = ''revoke'', Resource = cid,
       Outcome = ''success'', ErrorCode = []\<rparr> @ [CHR 0x0A]))"
proof -
  let ?s = "srv_Service srv"
  have w: "wired ?s e" using assms(1) by (simp add: installed_def)
  let ?h = "\<lparr>service = pki_ops z ?s t mw, version = ver, homePage = fst pages, applicationJS = snd pages\<rparr>"
  note run = assms(5) [unfolded server_handler_def]
  have refuse: "plain_segment cid" if "svc_Revoke ?s cid v = (Inr c, v')" for c v v'
    using that safe_segment_plain [of cid] by (auto simp: svc_Revoke_def split: option.splits if_splits)
  have "plain_segment (hd [cid])"
    if "resp_Status x = 0" "resp_Body x = []" "run_endpoint ?h now H_revoke [cid] r x v = (c, v')" "resp_Status c < 400" for x c v v'
  proof -
    have "h_revoke ?h cid r x v = (c, v')" using that(3) by simp
    from this that(1,2,4) show ?thesis by (rule h_revoke_success) (use refuse in \<open>simp add: pki_ops_def\<close>)
  qed
  from routed_success [OF assms(2,3) run assms(6) this _ assms(1) refl]
  have t: "auditTarget r = Some (''revoke'', cid)" by simp
  from assms(1) refl run t assms(6) show ?thesis
  proof (rule audited_success)
    fix c rid v v' x d
    assume inv: "inventory ?s v = inventory ?s w" "inventory ?s w' = inventory ?s v'"
      and x: "resp_Status x = 0" "resp_Body x = []" and serve: "ServeHTTP ?h now r x v = (c, v')" and ok: "resp_Status c < 400"
      and y: "resp_Status c \<noteq> 0 \<Longrightarrow> resp_Status y = resp_Status c \<and> resp_Body y = resp_Body c"
      and line: "at w' (log_file cwd (Some (srv_Auditor srv))) = Some (Regular mode_0600 (d @ audit_line
        \<lparr>Time = later, RequestID = rid, RemoteAddr = r_RemoteAddr r, Action = ''revoke'', Resource = cid,
         Outcome = ''success'', ErrorCode = []\<rparr> @ [CHR 0x0A]))"
    have "h_revoke ?h cid r x v = (c, v')" using serve assms(2) by (simp add: ServeHTTP_def)
    from this x ok show ?thesis
    proof (rule h_revoke_success)
      fix rec
      assume rev: "sv_Revoke (service ?h) cid v = (Inr rec, v')"
        and c: "resp_Status c = 200" "resp_Body c = json_marshal (encode_record_json rec) @ [CHR 0x0A]"
      from rev have rev: "svc_Revoke ?s cid v = (Inr rec, v')" by (simp add: pki_ops_def)
      have st: "\<And>m. manifest_of ?s cid v = Some m \<Longrightarrow> storable_bundle m" by (rule manifest_storable)
      from Revoke_refines [OF w rev assms(4) st] obtain old
        where "inventory ?s v cid = Some old" "inventory ?s v' = (inventory ?s v)(cid \<mapsto> revoked old)" "rec = revoked old" by auto
      then show ?thesis using y c inv line by (intro exI [of _ old] exI [of _ rid] exI [of _ d]) simp
    qed
  qed
qed

lemma demo_answered_200: "resp_Status (fst (demo_serve ''/api/v1/certificates/web-1/revoke'' ''{}'')) = 200"
  by code_simp

theorem reported_revocations_are_recorded_witness:
  "\<exists>c. inventory demo_service issued_world ''web-1'' = Some c \<and>
     inventory demo_service (snd (demo_serve ''/api/v1/certificates/web-1/revoke'' ''{}'')) ''web-1'' = Some (revoked c)"
proof -
  let ?r = "demo_post ''/api/v1/certificates/web-1/revoke'' [] ''{}''"
  have f: "findHandler routes (r_Method ?r) (r_EscapedPath ?r) = Handler H_revoke [''web-1'']" by code_simp
  have u: "url_unescape (r_EscapedPath ?r) \<noteq> None" by code_simp
  have d: "\<not> has_prefix ''web-1'' ''.''" by (simp add: has_prefix_def)
  have s: "srv_Service demo_server = demo_service" by (simp add: demo_server_def)
  have i: "installed (srv_Service demo_server) (demo_engine []) (log_file [] (Some (srv_Auditor demo_server)))"
    unfolding s demo_log_file by (rule demo_server_installed)
  have ok: "resp_Status (fst (demo_serve ''/api/v1/certificates/web-1/revoke'' ''{}'')) < 400" by (simp add: demo_answered_200)
  show ?thesis
    using reported_revocations_are_recorded [OF i f u d prod.collapse [symmetric] ok [unfolded demo_serve_def]]
    unfolding s demo_serve_def by auto
qed

end
