(* ===== verification/Spec2Isabelle.thy ===== *)
theory Spec2Isabelle
  imports Pki_Revocation Pki_Passphrase Audit_Log Backup_Round Web_Told
begin

text \<open>
  Certarium: a verification development.

  \<^bold>\<open>The program.\<close> Certarium is a small certificate authority. The server of cmd/certarium answers
  HTTP requests on a loopback address: it creates two authorities (RSA and SM2), issues bundles of certificates, lists
  them, hands out their files, revokes them, publishes revocation lists and answers OCSP queries. The cryptography is
  done by an external command. Around it stand a durable serial counter, an append-only audit log, and a second
  program, cmd/certarium-backup, that writes and restores encrypted backups of the data and configuration directories.
  Everything the server remembers is in files, and most of the code is about the order in which files are created,
  written, synced, renamed and removed, and about what remains when one of these calls fails.

  \<^bold>\<open>How it is modelled.\<close> Io_Monad has the type of an effectful operation: a function of the world,
  to an error or a result and the world after it. The world has the file tree, the source of random numbers, the umask
  and a schedule of faults, so that every call of the operating system can fail at every point; a theorem about all
  worlds is a theorem about every combination of failures. Every error return of the code is a branch of the model,
  with the error it wraps. Paths are absolute, as lists of their components. Operations that the code runs under a
  mutex are one step each; the operations of the service that only read take no lock and are run between these steps.
  \<open>Initialize\<close> of the service takes no lock around its three calls: it has as an argument what other requests
  do to the world between them, which is arbitrary.

  \<^item> Prelude: the fact collections \<^verbatim>\<open>footprint\<close> (which paths an operation may change),
    \<^verbatim>\<open>quiet\<close> (which operations leave the files alone) and \<^verbatim>\<open>outcome\<close>
    (what holds after success), and general lemmas.
  \<^item> Io_Monad, Os_Calls, Os_Rules, Os_Replace, File_Tree: the operations of package os on the tree with their
    errors, the rules to reason about sequences of them, the replacement of a file by a temporary one, and lookup in
    the tree.
  \<^item> Go_Text, Go_Path, Go_Time, Go_Net, Go_Net_Parse, Go_Json, Go_Json_Rules, Go_Json_Utf8, Go_Crypto, Go_Http:
    what the program uses of the standard library of Go: UTF-8, strings and numbers, paths, RFC 3339 times, IP
    addresses, encoding/json, SHA-256, HMAC, AES and GCM, and the request, response and routing of net/http. The
    locale \<^verbatim>\<open>json_layout\<close> states what a layout of JSON text needs to be read back; it is
    interpreted for the compact and the indented form.

  \<^bold>\<open>internal/pki.\<close>
  \<^item> Pki_Request (pki.go, profile.go): validation of a request and the generated OpenSSL configuration. The
    accepted DNS names are those of a grammar; accepted names are one path component; the configuration, read as the
    tool does, has exactly the requested names.
  \<^item> Pki_Store (pki.go): the counter in state.json. The locale \<^verbatim>\<open>atomic_file\<close> is the
    contract of replacing a file, \<^verbatim>\<open>serial_source\<close> that of a counter; from it follows that
    serial numbers strictly increase over any sequence of calls, other operations and failures between them.
    Pki_Counting carries the counter through every operation of the engine.
  \<^item> Pki_Passphrase (passphrase.go): which files are accepted and what is read from them.
  \<^item> Pki_Runner (runner.go): the output buffer, whose limit the copying of the output does not meet, and the
    outcome of a command.
  \<^item> Pki_Engine (engine.go): every operation of the engine. Pki_Staging has the locale
    \<^verbatim>\<open>staged_directory\<close>: a directory is filled under a temporary name and renamed when it is
    complete, so it appears whole or not at all. Pki_Issue extends it to \<^verbatim>\<open>bundle_issue\<close>,
    interpreted for the RSA bundle and the TLCP bundle; Pki_Authorities interprets it for the creation of the
    authorities. Pki_Issue_Claims and Pki_Revocation have the properties: issuing is all or nothing and leaves the
    rest alone, the published revocation list is unchanged or the one left by one run of the commands in their order
    (\<^verbatim>\<open>runs_through\<close>), the OCSP answer is that of the tool to this request.

  \<^bold>\<open>internal/audit.\<close> Audit_Log (log.go): records as JSON lines, \<open>Open\<close>,
  \<open>Ready\<close>, \<open>Append\<close>. The locale \<^verbatim>\<open>append_log\<close> is the contract of
  appending; from it follows that over any sequence of appends, failing ones included, every record reported as
  written is in the log in one piece, in order, and that a log without failed appends is one line for each record. What
  is appended is one JSON object with the members the log documents.

  \<^bold>\<open>internal/backup.\<close> backup.go: Backup_Cipher (key derivation and sealing, with concrete
  primitives; opening gives back what was sealed), Backup_Archive (the archive, its manifest, the safe paths), Backup
  (\<open>collect\<close>, \<open>Create\<close>, \<open>materialize\<close>, \<open>publish\<close>,
  \<open>rollback\<close>, \<open>Restore\<close>), Backup_Collect (the walk ends and is complete), Backup_Restore,
  Backup_Publish and Backup_Outcomes (what each step leaves), Backup_Trip, Backup_Claims and Backup_Round (a restore
  installs the archive or keeps what was there, and creating and restoring give the directories back).

  \<^bold>\<open>internal/webapp.\<close>
  \<^item> Web_Types (handler.go, pki_service.go): requests, records, manifests and their JSON forms.
  \<^item> Web_Service (pki_service.go): every operation of the PKI service. Its abstract state is the inventory of
    Web_Inventory, a map from the name of a bundle to its record. Web_Files, Web_Issuing and Web_Listing show what
    each operation does to it: issuing adds one record, revoking marks one, listing shows all, everything else leaves
    it alone; Web_Claims states this over the service. Web_Decoded shows that whatever a decoder accepts, a manifest
    can hold.
  \<^item> Web_Handler (handler.go): endpoints, decoding and guards of mutations, routes, headers and the auditing
    wrapper, over a record of the operations of the service as in the interface of the code. Web_Routes says which
    requests reach which endpoint, for all requests, escaped paths included; its locale
    \<^verbatim>\<open>audited_service\<close> is what the handler needs of a service, interpreted on the PKI service.
    Web_Handler_Claims: what is not recorded changes nothing, answers follow their record, refused mutations reach no
    operation.

  \<^bold>\<open>cmd.\<close> Cli: both programs from their parsed flags on. The server listens on loopback only and
  starts only with a passphrase from a private file; it is put together as the theorems on the service assume.

  \<^bold>\<open>The whole server.\<close> Web_Keeping defines what it means that a later state has grown out of an
  earlier one: the audit log is longer, the counter not lower, every record of the inventory still there, at most
  revoked. Web_History has the step relation \<^verbatim>\<open>serving\<close>: any number of requests in flight, whose
  steps, one for each call under a mutex, interleave in any order, with new faults and random numbers in between. The
  locale \<^verbatim>\<open>lasting_service\<close>, which extends \<^verbatim>\<open>audited_service\<close>, carries a
  relation kept by the operations of the service through endpoints, routing and auditing; interpreted on these steps
  it shows that answering a request is a run of them. Along every run the state grows, once it is initialised and no
  initialisation is in flight; the log grows always. Web_Told shows that an answer that reports a certificate as
  created or revoked agrees with the inventory and with the last line of the audit log.

  \<^bold>\<open>Parameters.\<close> What is not in the repository is an argument: starting a process
  (\<^verbatim>\<open>Runner\<close>), of which the properties assume \<^verbatim>\<open>confined\<close>, that the
  tool writes only the files it is told to write; the tar format and the parsing of a time stamp
  (\<^verbatim>\<open>codec\<close>), assumed to read back what they write; the zip writer; the clock; the two texts
  of ui.go. Each property with such an assumption is applied to a concrete parameter: the stand-in tool of
  engine_test.go and a simple archive format.

  \<^bold>\<open>Bounds.\<close> The JSON reader has fuel of twice the length of the text and two, each level of which
  uses one byte at least, the visit of a tree has the length of its longest path, proved to be enough; the search for
  a temporary name tries ten thousand names as the library does. Sizes, serial numbers and the block counter of the
  key derivation have the width of the code. The limits of the code (64 KiB and 16 KiB bodies, the buffer of the
  output, the size of a backup) are the constants of the source.

  \<^bold>\<open>Not modelled.\<close> The text of ui.go, which is a constant; the parsing of command line flags;
  accepting connections, time-outs and the shutdown of the server, which are calls of the library; the contexts of
  requests and their cancellation (the time limit of a command is modelled); the nesting limit of encoding/json;
  requests that read, or that initialise, in the midst of an operation under the mutex of the service. Deleting a temporary file in a deferred call is modelled with its failure, its error is dropped as in the
  code.
\<close>

end
